(* ===== verification/Prelude.thy ===== *)
theory Prelude
  imports Main "HOL-Library.Word" "HOL-Library.Sublist"
begin

text \<open>
  Shared vocabulary of the development: the result type of fallible Rust code, the part of
  Rust's standard library the modelled code calls (UTF-8 strings as byte strings, trimming,
  ASCII case, splitting, decimal parsing and printing, saturating arithmetic), and the generic
  lemmas and collections the component theories use.

  A Rust \<open>String\<close> is its UTF-8 byte sequence, a \<open>char list\<close> here.  A \<open>Result<T, E>\<close> is a sum
  \<open>'e + 'a\<close> with \<open>Inl\<close> the error.  Unsigned machine integers are \<open>nat\<close> with the saturation or
  wrap-around written out, or words of their width where bits matter; signed ones are \<open>int\<close>.
\<close>

named_theorems result_simps \<open>rewriting of and_then and its relatives\<close>
named_theorems rust_defs \<open>unfolding of the standard library helpers\<close>

section \<open>Results\<close>

type_synonym u8 = "8 word"
type_synonym u16 = "16 word"
type_synonym u32 = "32 word"
type_synonym u64 = "64 word"

definition and_then :: "'e + 'a \<Rightarrow> ('a \<Rightarrow> 'e + 'b) \<Rightarrow> 'e + 'b" where
  "and_then r f = (case r of Inl e \<Rightarrow> Inl e | Inr a \<Rightarrow> f a)"

definition map_err :: "('e \<Rightarrow> 'f) \<Rightarrow> 'e + 'a \<Rightarrow> 'f + 'a" where
  "map_err g r = (case r of Inl e \<Rightarrow> Inl (g e) | Inr a \<Rightarrow> Inr a)"

definition map_ok :: "('a \<Rightarrow> 'b) \<Rightarrow> 'e + 'a \<Rightarrow> 'e + 'b" where
  "map_ok g r = (case r of Inl e \<Rightarrow> Inl e | Inr a \<Rightarrow> Inr (g a))"

definition ok_or :: "'e \<Rightarrow> 'a option \<Rightarrow> 'e + 'a" where
  "ok_or e v = (case v of None \<Rightarrow> Inl e | Some a \<Rightarrow> Inr a)"

definition unwrap_or :: "'a option \<Rightarrow> 'a \<Rightarrow> 'a" where
  "unwrap_or v d = (case v of None \<Rightarrow> d | Some a \<Rightarrow> a)"

definition or_else :: "'a option \<Rightarrow> 'a option \<Rightarrow> 'a option" where
  "or_else v w = (case v of None \<Rightarrow> w | Some a \<Rightarrow> Some a)"

definition filter_option :: "('a \<Rightarrow> bool) \<Rightarrow> 'a option \<Rightarrow> 'a option" where
  "filter_option p v = (case v of None \<Rightarrow> None | Some a \<Rightarrow> if p a then Some a else None)"

text \<open>Collecting an iterator of results stops at the first error, as \<open>collect::<Result<_, _>>\<close> does.\<close>

fun collect_results :: "('e + 'a) list \<Rightarrow> 'e + 'a list" where
  "collect_results [] = Inr []"
| "collect_results (Inl e # rs) = Inl e"
| "collect_results (Inr a # rs) = map_ok ((#) a) (collect_results rs)"

lemma and_then_simps [simp, result_simps]:
  "and_then (Inl e) f = Inl e" "and_then (Inr a) g = g a"
  by (simp_all add: and_then_def)

lemma map_err_simps [simp, result_simps]:
  "map_err g (Inl e) = Inl (g e)" "map_err g (Inr a) = Inr a"
  by (simp_all add: map_err_def)

lemma map_ok_simps [simp, result_simps]:
  "map_ok g (Inl e) = Inl e" "map_ok g (Inr a) = Inr (g a)"
  by (simp_all add: map_ok_def)

lemma ok_or_simps [simp, result_simps]:
  "ok_or e None = Inl e" "ok_or e (Some a) = Inr a"
  by (simp_all add: ok_or_def)

lemma unwrap_or_simps [simp, result_simps]:
  "unwrap_or None d = d" "unwrap_or (Some a) d = a"
  by (simp_all add: unwrap_or_def)

lemma or_else_simps [simp, result_simps]:
  "or_else None w = w" "or_else (Some a) w = Some a"
  by (simp_all add: or_else_def)

lemma filter_option_simps [simp, result_simps]:
  "filter_option p None = None" "filter_option p (Some a) = (if p a then Some a else None)"
  by (simp_all add: filter_option_def)

lemma filter_option_eq_Some: "filter_option p v = Some a \<longleftrightarrow> v = Some a \<and> p a"
  by (auto simp: filter_option_def split: option.splits)

lemma and_then_eq_Inr: "and_then r f = Inr b \<longleftrightarrow> (\<exists>a. r = Inr a \<and> f a = Inr b)"
  by (cases r) auto

lemma and_then_eq_Inl: "and_then r f = Inl e \<longleftrightarrow> r = Inl e \<or> (\<exists>a. r = Inr a \<and> f a = Inl e)"
  by (cases r) auto

lemma map_ok_eq_Inr: "map_ok g r = Inr b \<longleftrightarrow> (\<exists>a. r = Inr a \<and> b = g a)"
  by (cases r) auto

lemma map_err_eq_Inr: "map_err g r = Inr b \<longleftrightarrow> r = Inr b"
  by (cases r) auto

lemma map_err_eq_Inl: "map_err g r = Inl e \<longleftrightarrow> (\<exists>e'. r = Inl e' \<and> e = g e')"
  by (cases r) auto

lemmas result_eqs = and_then_eq_Inr and_then_eq_Inl map_ok_eq_Inr map_err_eq_Inr map_err_eq_Inl

lemma and_then_assoc: "and_then (and_then r f) g = and_then r (\<lambda>a. and_then (f a) g)"
  by (cases r) auto

lemma collect_results_Inr:
  "collect_results rs = Inr as \<longleftrightarrow> rs = map Inr as"
proof (induction rs arbitrary: as)
  case (Cons r rs)
  then show ?case by (cases r; cases as) (auto simp: map_ok_eq_Inr)
qed auto

section \<open>Saturating and wrapping arithmetic on unsigned integers\<close>

text \<open>\<open>saturating_add w a b\<close> is Rust's \<open>a.saturating_add(b)\<close> at width \<open>w\<close>; on \<open>nat\<close>,
  \<open>saturating_sub\<close> is truncated subtraction.\<close>

definition saturating_add :: "nat \<Rightarrow> nat \<Rightarrow> nat \<Rightarrow> nat" where
  [rust_defs]: "saturating_add w a b = min (a + b) (2 ^ w - 1)"

definition saturating_mul :: "nat \<Rightarrow> nat \<Rightarrow> nat \<Rightarrow> nat" where
  [rust_defs]: "saturating_mul w a b = min (a * b) (2 ^ w - 1)"

abbreviation (input) saturating_sub :: "nat \<Rightarrow> nat \<Rightarrow> nat" where
  "saturating_sub a b \<equiv> a - b"

definition wrapping_add :: "nat \<Rightarrow> nat \<Rightarrow> nat \<Rightarrow> nat" where
  [rust_defs]: "wrapping_add w a b = (a + b) mod 2 ^ w"

lemma saturating_add_exact: "a + b < 2 ^ w \<Longrightarrow> saturating_add w a b = a + b"
  by (simp add: saturating_add_def min_def) linarith

lemma saturating_add_bound: "saturating_add w a b < 2 ^ w"
proof -
  have "(0::nat) < 2 ^ w" by simp
  then have "(2::nat) ^ w - 1 < 2 ^ w" by linarith
  then show ?thesis by (simp add: saturating_add_def min_less_iff_disj)
qed

lemma saturating_add_le: "saturating_add w a b \<le> a + b"
  by (simp add: saturating_add_def)

section \<open>Lists\<close>

lemma length_filter_mono:
  "(\<And>x. x \<in> set xs \<Longrightarrow> P x \<Longrightarrow> Q x) \<Longrightarrow> length (filter P xs) \<le> length (filter Q xs)"
  by (induction xs) (auto simp: le_SucI)

section \<open>Byte strings\<close>

abbreviation code :: "char \<Rightarrow> nat" where
  "code c \<equiv> of_char c"

text \<open>The UTF-8 encodings of the characters with the Unicode property \<open>White_Space\<close>, which is
  what \<open>str::trim\<close> removes.\<close>

definition white_space :: "string list" where
  "white_space =
     [[CHR 0x09], [CHR 0x0A], [CHR 0x0B], [CHR 0x0C], [CHR 0x0D], [CHR 0x20],
      [CHR 0xC2, CHR 0x85], [CHR 0xC2, CHR 0xA0], [CHR 0xE1, CHR 0x9A, CHR 0x80],
      [CHR 0xE2, CHR 0x80, CHR 0x80], [CHR 0xE2, CHR 0x80, CHR 0x81],
      [CHR 0xE2, CHR 0x80, CHR 0x82], [CHR 0xE2, CHR 0x80, CHR 0x83],
      [CHR 0xE2, CHR 0x80, CHR 0x84], [CHR 0xE2, CHR 0x80, CHR 0x85],
      [CHR 0xE2, CHR 0x80, CHR 0x86], [CHR 0xE2, CHR 0x80, CHR 0x87],
      [CHR 0xE2, CHR 0x80, CHR 0x88], [CHR 0xE2, CHR 0x80, CHR 0x89],
      [CHR 0xE2, CHR 0x80, CHR 0x8A], [CHR 0xE2, CHR 0x80, CHR 0xA8],
      [CHR 0xE2, CHR 0x80, CHR 0xA9], [CHR 0xE2, CHR 0x80, CHR 0xAF],
      [CHR 0xE2, CHR 0x81, CHR 0x9F], [CHR 0xE3, CHR 0x80, CHR 0x80]]"

fun strip_any :: "string list \<Rightarrow> string \<Rightarrow> string option" where
  "strip_any [] s = None"
| "strip_any (w # ws) s =
     (if take (length w) s = w \<and> w \<noteq> [] then Some (drop (length w) s) else strip_any ws s)"

lemma strip_any_length [termination_simp]: "strip_any ws s = Some t \<Longrightarrow> length t < length s"
proof (induction ws)
  case (Cons w ws)
  show ?case
  proof (cases "take (length w) s = w \<and> w \<noteq> []")
    case True
    then have "0 < length w" "length w \<le> length s"
      by (auto simp: take_all_iff) (metis length_take min.cobounded1)
    moreover from True Cons.prems have "length t = length s - length w" by auto
    ultimately show ?thesis by linarith
  next
    case False
    with Cons show ?thesis by auto
  qed
qed simp

function strip_all :: "string list \<Rightarrow> string \<Rightarrow> string" where
  "strip_all ws s = (case strip_any ws s of None \<Rightarrow> s | Some t \<Rightarrow> strip_all ws t)"
  by pat_completeness auto
termination
  by (relation "measure (\<lambda>(ws, s). length s)") (auto dest: strip_any_length)

declare strip_all.simps [simp del]

definition trim_start :: "string \<Rightarrow> string" where
  "trim_start s = strip_all white_space s"

definition trim_end :: "string \<Rightarrow> string" where
  "trim_end s = rev (strip_all (map rev white_space) (rev s))"

definition trim :: "string \<Rightarrow> string" where
  "trim s = trim_end (trim_start s)"

text \<open>\<open>trim_end_matches(c)\<close> removes every trailing occurrence of one character.\<close>

definition trim_end_matches :: "char \<Rightarrow> string \<Rightarrow> string" where
  "trim_end_matches c s = rev (dropWhile (\<lambda>d. d = c) (rev s))"

lemma strip_all_stops: "strip_any ws (strip_all ws s) = None"
proof (induction ws s rule: strip_all.induct)
  case (1 ws s)
  then show ?case by (subst strip_all.simps) (auto split: option.splits)
qed

lemma strip_all_none: "strip_any ws s = None \<Longrightarrow> strip_all ws s = s"
  by (subst strip_all.simps) simp

lemma strip_any_suffix: "strip_any ws s = Some t \<Longrightarrow> suffix t s"
  by (induction ws) (auto split: if_splits simp: suffix_drop)

lemma strip_all_suffix: "suffix (strip_all ws s) s"
proof (induction ws s rule: strip_all.induct)
  case (1 ws s)
  show ?case
  proof (cases "strip_any ws s")
    case None
    then show ?thesis by (simp add: strip_all_none)
  next
    case (Some t)
    with 1 have "suffix (strip_all ws t) t" by simp
    with Some strip_any_suffix show ?thesis
      by (subst strip_all.simps) (auto intro: suffix_order.trans)
  qed
qed

lemma strip_any_None_prefix:
  assumes "strip_any ws s = None" and "prefix p s"
  shows "strip_any ws p = None"
  using assms(1)
proof (induction ws)
  case (Cons w ws)
  have "take (length w) p \<noteq> w \<or> w = []"
  proof (rule ccontr)
    assume "\<not> ?thesis"
    then have t: "take (length w) p = w" "w \<noteq> []" by auto
    then have l: "length w \<le> length p" by (metis length_take min.cobounded1)
    from assms(2) obtain q where "s = p @ q" by (auto elim: prefixE)
    with t l have "take (length w) s = w" by simp
    with t Cons.prems show False by simp
  qed
  with Cons show ?case by (auto split: if_splits)
qed simp

lemma trim_start_clean: "strip_any white_space (trim s) = None"
proof -
  have "prefix (trim_end (trim_start s)) (trim_start s)"
    using strip_all_suffix [of "map rev white_space" "rev (trim_start s)"]
    by (simp add: trim_end_def suffix_to_prefix)
  moreover have "strip_any white_space (trim_start s) = None"
    by (simp add: trim_start_def strip_all_stops)
  ultimately show ?thesis
    unfolding trim_def by (rule strip_any_None_prefix [rotated])
qed

lemma trim_end_clean: "strip_any (map rev white_space) (rev (trim s)) = None"
  by (simp add: trim_def trim_end_def strip_all_stops)

lemma trim_idem [simp]: "trim (trim s) = trim s"
proof -
  have "trim_start (trim s) = trim s"
    by (simp add: trim_start_def strip_all_none trim_start_clean)
  moreover have "trim_end (trim s) = trim s"
    by (simp add: trim_end_def strip_all_none trim_end_clean)
  ultimately show ?thesis by (simp only: trim_def [of "trim s"])
qed

lemma length_trim_le: "length (trim s) \<le> length s"
proof -
  have "length (trim_end t) \<le> length t" for t
    using strip_all_suffix [of "map rev white_space" "rev t", THEN suffix_length_le]
    by (simp add: trim_end_def)
  moreover have "length (trim_start s) \<le> length s"
    unfolding trim_start_def by (rule strip_all_suffix [THEN suffix_length_le])
  ultimately show ?thesis unfolding trim_def using order_trans by blast
qed

lemma trim_Nil [simp]: "trim [] = []"
  using length_trim_le [of "[]"] by simp

text \<open>Text that starts and ends with visible ASCII is its own trimming.\<close>

definition visible_ascii :: "char \<Rightarrow> bool" where
  "visible_ascii c \<longleftrightarrow> 33 \<le> code c \<and> code c \<le> 126"

lemma strip_any_None_hd: "\<forall>w\<in>set ws. w = [] \<or> hd w \<noteq> c \<Longrightarrow> strip_any ws (c # s) = None"
proof (induction ws)
  case (Cons w ws)
  then show ?case by (cases w) auto
qed simp

lemma white_space_all:
  "list_all (\<lambda>w. w \<noteq> [] \<and> \<not> visible_ascii (hd w) \<and> \<not> visible_ascii (last w)) white_space"
  by (simp add: white_space_def visible_ascii_def)

lemma white_space_ends:
  "w \<in> set white_space \<Longrightarrow> w \<noteq> [] \<and> \<not> visible_ascii (hd w) \<and> \<not> visible_ascii (last w)"
  using white_space_all by (simp add: list_all_iff)

lemma trim_visible:
  assumes "s \<noteq> []" "visible_ascii (hd s)" "visible_ascii (last s)"
  shows "trim s = s"
proof -
  have "strip_any white_space (hd s # tl s) = None"
  proof (rule strip_any_None_hd, rule ballI)
    fix w assume "w \<in> set white_space"
    with assms(2) show "w = [] \<or> hd w \<noteq> hd s" by (auto dest: white_space_ends)
  qed
  then have "trim_start s = s" using assms by (simp add: trim_start_def strip_all_none)
  moreover have "strip_any (map rev white_space) (hd (rev s) # tl (rev s)) = None"
  proof (rule strip_any_None_hd, rule ballI)
    fix w assume "w \<in> set (map rev white_space)"
    then obtain v where v: "w = rev v" "v \<in> set white_space" by auto
    from assms(3) white_space_ends [OF v(2)] have "last v \<noteq> last s" by auto
    with v assms(1) show "w = [] \<or> hd w \<noteq> hd (rev s)" by (simp add: hd_rev)
  qed
  then have "trim_end s = s"
    using assms by (simp add: trim_end_def strip_all_none)
  ultimately show ?thesis by (simp add: trim_def)
qed

lemma strip_any_None_iff: "strip_any ws s = None \<longleftrightarrow> (\<forall>w\<in>set ws. w = [] \<or> take (length w) s \<noteq> w)"
  by (induction ws) auto

lemma white_space_invisible: "list_all (list_all (\<lambda>c. \<not> visible_ascii c)) white_space"
  by (simp add: white_space_def visible_ascii_def)

lemma trim_append_visible:
  assumes "p \<noteq> []" "list_all visible_ascii p" "t \<noteq> []" "trim t = t"
  shows "trim (p @ t) = p @ t"
proof -
  have hd: "visible_ascii (hd (p @ t))" using assms(1,2) by (cases p) auto
  have "strip_any white_space (hd (p @ t) # tl (p @ t)) = None"
    using hd by (intro strip_any_None_hd ballI) (auto dest: white_space_ends)
  then have "strip_any white_space (p @ t) = None" using assms(1) by (cases p) simp_all
  then have "trim_start (p @ t) = p @ t" by (simp add: trim_start_def strip_all_none)
  moreover have "strip_any (map rev white_space) (rev (p @ t)) = None"
    unfolding strip_any_None_iff
  proof (intro ballI)
    fix w assume "w \<in> set (map rev white_space)"
    then obtain v where v: "v \<in> set white_space" "w = rev v" by auto
    show "w = [] \<or> take (length w) (rev (p @ t)) \<noteq> w"
    proof (cases "length w \<le> length t")
      case True
      with trim_end_clean [of t] v show ?thesis unfolding assms(4) strip_any_None_iff by auto
    next
      case False
      have "take (length w) (rev (p @ t)) \<noteq> w"
      proof
        assume eq: "take (length w) (rev (p @ t)) = w"
        then have l: "length w \<le> length (rev (p @ t))" by (metis length_take min.absorb_iff2 min.commute)
        have "rev (p @ t) ! length t = last p" using assms(1) by (simp add: nth_append last_conv_nth rev_nth)
        then have "w ! length t = last p" using eq False by (metis nth_take not_le)
        then have "last p \<in> set w" using False by (metis nth_mem not_le)
        moreover have "visible_ascii (last p)" using assms(1,2) by (auto simp: list_all_iff)
        moreover have "list_all (\<lambda>c. \<not> visible_ascii c) v" using white_space_invisible v(1) by (auto simp: list_all_iff)
        ultimately show False using v(2) by (auto simp: list_all_iff)
      qed
      then show ?thesis ..
    qed
  qed
  then have "trim_end (p @ t) = p @ t" by (simp add: trim_end_def strip_all_none)
  ultimately show ?thesis by (simp add: trim_def)
qed

section \<open>ASCII case, prefixes and splitting\<close>

definition ascii_lower :: "char \<Rightarrow> char" where
  "ascii_lower c = (if 65 \<le> code c \<and> code c \<le> 90 then char_of (code c + 32) else c)"

definition to_ascii_lowercase :: "string \<Rightarrow> string" where
  "to_ascii_lowercase s = map ascii_lower s"

definition eq_ignore_ascii_case :: "string \<Rightarrow> string \<Rightarrow> bool" where
  "eq_ignore_ascii_case a b \<longleftrightarrow> to_ascii_lowercase a = to_ascii_lowercase b"

lemma ascii_lower_idem [simp]: "ascii_lower (ascii_lower c) = ascii_lower c"
  by (auto simp: ascii_lower_def)

lemma to_ascii_lowercase_idem [simp]:
  "to_ascii_lowercase (to_ascii_lowercase s) = to_ascii_lowercase s"
  by (simp add: to_ascii_lowercase_def)

definition strip_prefix :: "string \<Rightarrow> string \<Rightarrow> string option" where
  "strip_prefix p s = (if prefix p s then Some (drop (length p) s) else None)"

lemma strip_prefix_append [simp]: "strip_prefix p (p @ s) = Some s"
  by (simp add: strip_prefix_def)

lemma strip_prefix_Some: "strip_prefix p s = Some t \<longleftrightarrow> s = p @ t"
  by (auto simp: strip_prefix_def prefix_def)

text \<open>\<open>split_once(c)\<close> and \<open>split(c)\<close> for an ASCII separator.\<close>

fun split_once :: "char \<Rightarrow> string \<Rightarrow> (string \<times> string) option" where
  "split_once c [] = None"
| "split_once c (d # s) =
     (if d = c then Some ([], s)
      else case split_once c s of None \<Rightarrow> None | Some (a, b) \<Rightarrow> Some (d # a, b))"

fun split_on :: "char \<Rightarrow> string \<Rightarrow> string list" where
  "split_on c [] = [[]]"
| "split_on c (d # s) =
     (if d = c then [] # split_on c s
      else case split_on c s of [] \<Rightarrow> [[d]] | f # fs \<Rightarrow> (d # f) # fs)"

lemma split_once_append [simp]: "c \<notin> set a \<Longrightarrow> split_once c (a @ c # b) = Some (a, b)"
  by (induction a) auto

lemma split_once_Some: "split_once c s = Some (a, b) \<Longrightarrow> s = a @ c # b \<and> c \<notin> set a"
  by (induction s arbitrary: a b) (auto split: if_splits option.splits)

lemma split_on_nonempty [simp]: "split_on c s \<noteq> []"
  by (induction s) (auto split: list.splits)

section \<open>Decimal printing and parsing\<close>

definition digit_char :: "nat \<Rightarrow> char" where
  "digit_char d = char_of (48 + d)"

fun show_nat :: "nat \<Rightarrow> string" where
  "show_nat n = (if n < 10 then [digit_char n] else show_nat (n div 10) @ [digit_char (n mod 10)])"

declare show_nat.simps [simp del]

text \<open>Debug rendering of a text: quoted, with quotes, backslashes and ASCII control characters escaped.
  Bytes of non-ASCII characters are kept.\<close>

definition hex_digit :: "nat \<Rightarrow> char" where
  "hex_digit d = char_of (if d < 10 then 48 + d else 87 + d)"

fun debug_char :: "char \<Rightarrow> string" where
  "debug_char c =
     (if c = CHR 0x22 then [CHR 0x5C, CHR 0x22]
      else if c = CHR 0x5C then [CHR 0x5C, CHR 0x5C]
      else if c = CHR 0x0A then [CHR 0x5C, CHR ''n'']
      else if c = CHR 0x0D then [CHR 0x5C, CHR ''r'']
      else if c = CHR 0x09 then [CHR 0x5C, CHR ''t'']
      else if c = CHR 0x00 then [CHR 0x5C, CHR ''0'']
      else if code c < 16 then [CHR 0x5C, CHR ''u'', CHR 0x7B, hex_digit (code c), CHR 0x7D]
      else if code c < 32 \<or> code c = 127
      then [CHR 0x5C, CHR ''u'', CHR 0x7B, hex_digit (code c div 16), hex_digit (code c mod 16), CHR 0x7D]
      else [c])"

definition debug_str :: "string \<Rightarrow> string" where
  "debug_str s = CHR 0x22 # concat (map debug_char s) @ [CHR 0x22]"

definition show_int :: "int \<Rightarrow> string" where
  "show_int i = (if i < 0 then CHR ''-'' # show_nat (nat (- i)) else show_nat (nat i))"

text \<open>\<open>FromStr\<close> of the integer types: the error kinds and their \<open>Display\<close> texts are those of
  \<open>core::num::IntErrorKind\<close>; the scan stops at the first bad digit or at the digit that leaves
  the range.\<close>

datatype int_error = Empty | InvalidDigit | PosOverflow | NegOverflow

fun show_int_error :: "int_error \<Rightarrow> string" where
  "show_int_error Empty = ''cannot parse integer from empty string''"
| "show_int_error InvalidDigit = ''invalid digit found in string''"
| "show_int_error PosOverflow = ''number too large to fit in target type''"
| "show_int_error NegOverflow = ''number too small to fit in target type''"

definition is_ascii_digit :: "char \<Rightarrow> bool" where
  "is_ascii_digit c \<longleftrightarrow> 48 \<le> code c \<and> code c \<le> 57"

definition digit_val :: "char \<Rightarrow> nat option" where
  "digit_val c = (if is_ascii_digit c then Some (code c - 48) else None)"

fun parse_digits :: "int \<Rightarrow> int \<Rightarrow> bool \<Rightarrow> int \<Rightarrow> string \<Rightarrow> int_error + int" where
  "parse_digits lo hi neg acc [] = Inr acc"
| "parse_digits lo hi neg acc (c # cs) =
     (case digit_val c of
        None \<Rightarrow> Inl InvalidDigit
      | Some d \<Rightarrow>
          (let acc' = (if neg then acc * 10 - int d else acc * 10 + int d)
           in if acc' < lo then Inl NegOverflow
              else if hi < acc' then Inl PosOverflow
              else parse_digits lo hi neg acc' cs))"

definition parse_int :: "int \<Rightarrow> int \<Rightarrow> string \<Rightarrow> int_error + int" where
  "parse_int lo hi s =
     (case s of
        [] \<Rightarrow> Inl Empty
      | c # cs \<Rightarrow>
          if c = CHR ''+'' then (if cs = [] then Inl InvalidDigit else parse_digits lo hi False 0 cs)
          else if c = CHR ''-'' \<and> lo < 0
          then (if cs = [] then Inl InvalidDigit else parse_digits lo hi True 0 cs)
          else parse_digits lo hi False 0 s)"

abbreviation parse_i32 :: "string \<Rightarrow> int_error + int" where
  "parse_i32 \<equiv> parse_int (- (2 ^ 31)) (2 ^ 31 - 1)"

abbreviation parse_i64 :: "string \<Rightarrow> int_error + int" where
  "parse_i64 \<equiv> parse_int (- (2 ^ 63)) (2 ^ 63 - 1)"

abbreviation parse_i128 :: "string \<Rightarrow> int_error + int" where
  "parse_i128 \<equiv> parse_int (- (2 ^ 127)) (2 ^ 127 - 1)"

abbreviation parse_u32 :: "string \<Rightarrow> int_error + int" where
  "parse_u32 \<equiv> parse_int 0 (2 ^ 32 - 1)"

abbreviation parse_u64 :: "string \<Rightarrow> int_error + int" where
  "parse_u64 \<equiv> parse_int 0 (2 ^ 64 - 1)"

lemma code_digit_char: "d < 10 \<Longrightarrow> code (digit_char d) = 48 + d"
  by (simp add: digit_char_def)

lemma digit_val_digit_char [simp]: "d < 10 \<Longrightarrow> digit_val (digit_char d) = Some d"
  by (simp add: digit_val_def is_ascii_digit_def code_digit_char)

lemma is_ascii_digit_digit_char [simp]: "d < 10 \<Longrightarrow> is_ascii_digit (digit_char d)"
  by (simp add: is_ascii_digit_def code_digit_char)

lemma show_nat_nonempty [simp]: "show_nat n \<noteq> []"
  by (subst show_nat.simps) simp

lemma show_nat_digits: "c \<in> set (show_nat n) \<Longrightarrow> is_ascii_digit c"
proof (induction n rule: show_nat.induct)
  case (1 n)
  show ?case
  proof (cases "n < 10")
    case True
    with 1 show ?thesis by (subst (asm) show_nat.simps) simp
  next
    case False
    from "1.prems" False have "c \<in> set (show_nat (n div 10)) \<or> c = digit_char (n mod 10)"
      by (subst (asm) show_nat.simps) auto
    with False "1.IH" show ?thesis by auto
  qed
qed

lemma show_int_chars: "c \<in> set (show_int i) \<Longrightarrow> is_ascii_digit c \<or> c = CHR ''-''"
  by (auto simp: show_int_def show_nat_digits split: if_splits)

lemma colon_notin_show_int [simp]: "CHR '':'' \<notin> set (show_int i)"
  using show_int_chars [of "CHR '':''" i] by (auto simp: is_ascii_digit_def)

lemma parse_digits_append:
  "parse_digits lo hi neg a (s @ t) =
     and_then (parse_digits lo hi neg a s) (\<lambda>b. parse_digits lo hi neg b t)"
  by (induction s arbitrary: a) (auto simp: Let_def split: option.splits)

lemma parse_digits_show_nat:
  assumes "lo \<le> 0" and "0 \<le> hi" and "if neg then lo \<le> - int n else int n \<le> hi"
  shows "parse_digits lo hi neg 0 (show_nat n) = Inr (if neg then - int n else int n)"
  using assms
proof (induction n rule: show_nat.induct)
  case (1 n)
  show ?case
  proof (cases "n < 10")
    case True
    with "1.prems" show ?thesis by (subst show_nat.simps) (auto simp: Let_def)
  next
    case False
    have n: "int n = int (n div 10) * 10 + int (n mod 10)" by presburger
    have dv: "int (n div 10) \<le> int n" by simp
    have IH: "parse_digits lo hi neg 0 (show_nat (n div 10)) =
        Inr (if neg then - int (n div 10) else int (n div 10))"
      using "1.prems" dv by (intro "1.IH" [OF False]) (auto split: if_splits)
    have "digit_val (digit_char (n mod 10)) = Some (n mod 10)" by simp
    then show ?thesis
      using False "1.prems" n by (subst show_nat.simps) (auto simp: parse_digits_append IH Let_def)
  qed
qed

lemma show_nat_hd: "\<exists>c cs. show_nat n = c # cs \<and> c \<noteq> CHR ''+'' \<and> c \<noteq> CHR ''-''"
proof (cases "show_nat n")
  case (Cons c cs)
  then have "is_ascii_digit c" by (intro show_nat_digits [of c n]) simp
  then have "c \<noteq> CHR ''+'' \<and> c \<noteq> CHR ''-''" by (auto simp: is_ascii_digit_def)
  with Cons show ?thesis by blast
qed simp

text \<open>Printing then parsing any value of the type gives the value back.\<close>

lemma parse_int_show_int:
  assumes "lo \<le> i" "i \<le> hi" "lo \<le> 0" "0 \<le> hi"
  shows "parse_int lo hi (show_int i) = Inr i"
proof (cases "i < 0")
  case True
  then have "parse_digits lo hi True 0 (show_nat (nat (- i))) = Inr i"
    using parse_digits_show_nat [of lo hi True "nat (- i)"] assms by simp
  moreover from True assms have "lo < 0" by simp
  ultimately show ?thesis using True by (simp add: show_int_def parse_int_def)
next
  case False
  obtain c cs where c: "show_nat (nat i) = c # cs" "c \<noteq> CHR ''+''" "c \<noteq> CHR ''-''"
    using show_nat_hd by blast
  have "parse_digits lo hi False 0 (show_nat (nat i)) = Inr i"
    using parse_digits_show_nat [of lo hi False "nat i"] assms False by simp
  with c False show ?thesis by (simp add: show_int_def parse_int_def)
qed

lemma parse_digits_range:
  "parse_digits lo hi neg a s = Inr i \<Longrightarrow> lo \<le> a \<Longrightarrow> a \<le> hi \<Longrightarrow> lo \<le> i \<and> i \<le> hi"
  by (induction s arbitrary: a) (auto simp: Let_def split: option.splits if_splits)

lemma parse_int_range: "parse_int lo hi s = Inr i \<Longrightarrow> lo \<le> 0 \<Longrightarrow> 0 \<le> hi \<Longrightarrow> lo \<le> i \<and> i \<le> hi"
  by (auto simp: parse_int_def simp del: parse_digits.simps split: list.splits if_splits
      dest: parse_digits_range)

end
