(* ===== verification/Domain.thy ===== *)
theory Domain
  imports Prelude
begin

text \<open>
  The \<open>explorer-domain\<close> crate (\<open>src/crates/domain/src/lib.rs\<close>): names that are never blank,
  block heights, and the two protocol heights every other component refers to.
\<close>

section \<open>Constants and errors\<close>

definition LEGACY_EVENT_CUTOFF_HEIGHT :: nat where
  "LEGACY_EVENT_CUTOFF_HEIGHT = 6422526"

definition MAIN_ZERO_STATE_BOUNDARY_HEIGHT :: nat where
  "MAIN_ZERO_STATE_BOUNDARY_HEIGHT = 6422526"

datatype domain_error = EmptyValue string

section \<open>Names\<close>

text \<open>\<open>NonEmptyString\<close> is a private newtype around the trimmed string; the only way to build one
  is \<open>new\<close>.  \<open>NexusName\<close> and \<open>ChainName\<close> wrap it with their field name.\<close>

datatype non_empty = NonEmptyString string
datatype nexus_name = NexusName non_empty
datatype chain_name = ChainName non_empty

fun non_empty_as_str :: "non_empty \<Rightarrow> string" where
  "non_empty_as_str (NonEmptyString s) = s"

definition non_empty_new :: "string \<Rightarrow> string \<Rightarrow> domain_error + non_empty" where
  "non_empty_new field value =
     (let trimmed = trim value
      in if trimmed = [] then Inl (EmptyValue field) else Inr (NonEmptyString trimmed))"

definition nexus_name_new :: "string \<Rightarrow> domain_error + nexus_name" where
  "nexus_name_new value = map_ok NexusName (non_empty_new ''nexus'' value)"

definition chain_name_new :: "string \<Rightarrow> domain_error + chain_name" where
  "chain_name_new value = map_ok ChainName (non_empty_new ''chain'' value)"

fun nexus_name_as_str :: "nexus_name \<Rightarrow> string" where
  "nexus_name_as_str (NexusName n) = non_empty_as_str n"

fun chain_name_as_str :: "chain_name \<Rightarrow> string" where
  "chain_name_as_str (ChainName n) = non_empty_as_str n"

text \<open>The invariant the newtypes keep: trimmed and not empty.\<close>

definition well_formed_name :: "string \<Rightarrow> bool" where
  "well_formed_name s \<longleftrightarrow> s \<noteq> [] \<and> trim s = s"

lemma non_empty_new_Inr:
  "non_empty_new f v = Inr n \<longleftrightarrow> n = NonEmptyString (trim v) \<and> trim v \<noteq> []"
  by (auto simp: non_empty_new_def Let_def)

lemma non_empty_new_Inl: "non_empty_new f v = Inl e \<longleftrightarrow> e = EmptyValue f \<and> trim v = []"
  by (auto simp: non_empty_new_def Let_def)

section \<open>Block heights\<close>

datatype block_height = BlockHeight nat

fun height_value :: "block_height \<Rightarrow> nat" where
  "height_value (BlockHeight n) = n"

definition is_legacy_event_height :: "block_height \<Rightarrow> bool" where
  "is_legacy_event_height h \<longleftrightarrow> height_value h \<le> LEGACY_EVENT_CUTOFF_HEIGHT"

text \<open>\<open>BlockHeight\<close> derives \<open>PartialOrd\<close> and \<open>Ord\<close> from its field.\<close>

instantiation block_height :: linorder
begin

definition less_eq_block_height :: "block_height \<Rightarrow> block_height \<Rightarrow> bool" where
  "less_eq_block_height a b \<longleftrightarrow> height_value a \<le> height_value b"

definition less_block_height :: "block_height \<Rightarrow> block_height \<Rightarrow> bool" where
  "less_block_height a b \<longleftrightarrow> height_value a < height_value b"

instance
proof
  fix a b c :: block_height
  show "a < b \<longleftrightarrow> a \<le> b \<and> \<not> b \<le> a"
    by (auto simp: less_eq_block_height_def less_block_height_def)
  show "a \<le> a" by (simp add: less_eq_block_height_def)
  show "a \<le> b \<Longrightarrow> b \<le> c \<Longrightarrow> a \<le> c" by (simp add: less_eq_block_height_def)
  show "a \<le> b \<Longrightarrow> b \<le> a \<Longrightarrow> a = b"
    by (cases a; cases b) (simp add: less_eq_block_height_def)
  show "a \<le> b \<or> b \<le> a" by (auto simp: less_eq_block_height_def)
qed

end

section \<open>Properties\<close>

text \<open>Name construction: the constructor accepts exactly the values with a non-blank
  character, stores the trimmed text, keeps the newtype invariant, and re-parsing the stored text
  (the \<open>Display\<close>/\<open>FromStr\<close> round trip) gives the same name.\<close>

theorem chain_name_round_trip:
  assumes "chain_name_new v = Inr n"
  shows "well_formed_name (chain_name_as_str n) \<and> chain_name_new (chain_name_as_str n) = Inr n
         \<and> (chain_name_new w = Inl e \<longleftrightarrow> e = EmptyValue ''chain'' \<and> trim w = [])"
  using assms
  by (auto simp: chain_name_new_def map_ok_eq_Inr non_empty_new_Inr well_formed_name_def)
     (auto simp: map_ok_def non_empty_new_def Let_def split: sum.splits if_splits)

theorem chain_name_round_trip_witness:
  "\<exists>n. chain_name_new ''main'' = Inr n \<and> chain_name_new (chain_name_as_str n) = Inr n"
proof -
  have "trim ''main'' = ''main''" by (simp add: trim_visible visible_ascii_def)
  then have "chain_name_new ''main'' = Inr (ChainName (NonEmptyString ''main''))"
    by (simp add: chain_name_new_def non_empty_new_def Let_def)
  from chain_name_round_trip [OF this] this show ?thesis by blast
qed

end
