(* ===== verification/Config.thy ===== *)
theory Config
  imports Domain
begin

text \<open>
  The settings records of the \<open>explorer-config\<close> crate (\<open>src/crates/config/src/lib.rs\<close>); how they are loaded
  is in Config_Load.
\<close>

section \<open>Rate limiting settings\<close>

record rate_limit_tier =
  tier_name :: string
  tier_per_minute :: int
  tier_keys :: "string list"

record rate_limit_config =
  rl_enabled :: bool
  rl_require_api_key :: bool
  rl_trusted_proxies :: "string list"
  rl_per_ip_per_minute :: nat
  rl_global_concurrent_limit :: nat
  rl_global_queue_limit :: nat
  rl_key_tiers :: "rate_limit_tier list"

section \<open>Worker settings\<close>

text \<open>Durations are in milliseconds.\<close>

datatype sync_mode = Sequential | Normal_Mode | Relief

fun sync_mode_as_str :: "sync_mode \<Rightarrow> string" where
  "sync_mode_as_str Sequential = ''sequential''"
| "sync_mode_as_str Normal_Mode = ''normal''"
| "sync_mode_as_str Relief = ''relief''"

record worker_config =
  poll_interval :: nat
  queue_capacity :: nat
  fetch_batch_size :: nat
  fetch_concurrency :: nat
  project_concurrency :: nat
  sync_mode :: sync_mode
  inter_block_delay :: nat
  batch_delay :: nat
  height_limit :: "nat option"

fun effective_fetch_batch_size :: "worker_config \<Rightarrow> nat" where
  "effective_fetch_batch_size settings =
     (case sync_mode settings of Relief \<Rightarrow> 1 | _ \<Rightarrow> fetch_batch_size settings)"

fun effective_fetch_concurrency :: "worker_config \<Rightarrow> nat" where
  "effective_fetch_concurrency settings =
     (case sync_mode settings of Relief \<Rightarrow> 1 | _ \<Rightarrow> max (fetch_concurrency settings) 1)"

fun effective_project_concurrency :: "worker_config \<Rightarrow> nat" where
  "effective_project_concurrency settings =
     (case sync_mode settings of Normal_Mode \<Rightarrow> max (project_concurrency settings) 1 | _ \<Rightarrow> 1)"

end
