(* ===== verification/Api_Error.thy ===== *)
theory Api_Error
  imports Prelude
begin

text \<open>
  The error type of the HTTP API and its single rendering point
  (\<open>src/crates/http-api/src/lib.rs\<close>: \<open>ApiError\<close>, \<open>code\<close>, \<open>status_code\<close>, \<open>into_response\<close>,
  \<open>handle_panic\<close>).  A response is its status, its \<open>Retry-After\<close> header and its JSON body.
\<close>

record transaction_occurrence =
  occ_transaction_id :: string
  occ_hash :: string
  occ_block_hash :: string
  occ_block_height :: string
  occ_chain :: string
  occ_index :: int
  occ_date :: string

datatype api_error =
    BadRequest string
  | NotFound string
  | AmbiguousTransactionHash string int "transaction_occurrence list"
  | Unauthorized string
  | RateLimited nat
  | Internal string

fun error_code :: "api_error \<Rightarrow> string" where
  "error_code (BadRequest _) = ''bad_request''"
| "error_code (NotFound _) = ''not_found''"
| "error_code (AmbiguousTransactionHash _ _ _) = ''ambiguous_transaction_hash''"
| "error_code (Unauthorized _) = ''unauthorized''"
| "error_code (RateLimited _) = ''rate_limited''"
| "error_code (Internal _) = ''internal_error''"

fun status_code :: "api_error \<Rightarrow> nat" where
  "status_code (BadRequest _) = 400"
| "status_code (NotFound _) = 404"
| "status_code (AmbiguousTransactionHash _ _ _) = 409"
| "status_code (Unauthorized _) = 401"
| "status_code (RateLimited _) = 429"
| "status_code (Internal _) = 500"

datatype response_body =
    ErrorBody (body_code: string) (body_error: string)
  | AmbiguousBody (body_code: string) (body_error: string) string int nat string
      "transaction_occurrence list"

record response =
  resp_status :: nat
  resp_retry_after :: "string option"
  resp_body :: response_body

fun into_response :: "api_error \<Rightarrow> response" where
  "into_response (AmbiguousTransactionHash hash occurrence_count matches) =
     \<lparr>resp_status = 409, resp_retry_after = None,
      resp_body = AmbiguousBody ''ambiguous_transaction_hash''
        ''transaction hash has multiple block occurrences'' hash occurrence_count (length matches)
        ''Use /api/v1/blocks/{height}/transactions/{index} or pass block_height and index.''
        matches\<rparr>"
| "into_response (RateLimited retry_after_secs) =
     \<lparr>resp_status = 429, resp_retry_after = Some (show_nat retry_after_secs),
      resp_body = ErrorBody ''rate_limited'' ''rate limit exceeded''\<rparr>"
| "into_response (BadRequest error) =
     \<lparr>resp_status = status_code (BadRequest error), resp_retry_after = None,
      resp_body = ErrorBody (error_code (BadRequest error)) error\<rparr>"
| "into_response (NotFound error) =
     \<lparr>resp_status = status_code (NotFound error), resp_retry_after = None,
      resp_body = ErrorBody (error_code (NotFound error)) error\<rparr>"
| "into_response (Unauthorized error) =
     \<lparr>resp_status = status_code (Unauthorized error), resp_retry_after = None,
      resp_body = ErrorBody (error_code (Unauthorized error)) error\<rparr>"
| "into_response (Internal detail) =
     \<lparr>resp_status = status_code (Internal detail), resp_retry_after = None,
      resp_body = ErrorBody (error_code (Internal detail)) ''internal server error''\<rparr>"

text \<open>The payload of a caught panic: a \<open>&str\<close>, a \<open>String\<close>, or anything else.\<close>

datatype panic_payload = StrPayload string | StringPayload string | OtherPayload

fun panic_detail :: "panic_payload \<Rightarrow> string" where
  "panic_detail (StrPayload m) = m"
| "panic_detail (StringPayload m) = m"
| "panic_detail OtherPayload = ''unknown panic payload''"

definition handle_panic :: "panic_payload \<Rightarrow> response" where
  "handle_panic p = into_response (Internal (''panic in request handler: '' @ panic_detail p))"

text \<open>Every response carries the error's own status and code, and only a rate-limit response
  carries \<open>Retry-After\<close>.\<close>

lemma into_response_status: "resp_status (into_response e) = status_code e"
  by (cases e) auto

lemma into_response_code: "body_code (resp_body (into_response e)) = error_code e"
  by (cases e) auto

lemma into_response_retry_after:
  "resp_retry_after (into_response e) = (case e of RateLimited s \<Rightarrow> Some (show_nat s) | _ \<Rightarrow> None)"
  by (cases e) auto

lemma into_response_Internal: "into_response (Internal d) = into_response (Internal d')"
  by simp

end
