(* ===== verification/Rate_Limit.thy ===== *)
theory Rate_Limit
  imports Api_Error Config
begin

text \<open>
  The inbound rate limiter of the HTTP API (\<open>src/crates/http-api/src/rate_limit.rs\<close>).

  The state of \<open>RateLimiterInner\<close> is the record \<open>limiter\<close>; the monotonic clock is an argument,
  the whole seconds elapsed since \<open>start\<close>.  IP addresses are an abstract type \<open>'ip\<close> with their
  parser and printer as arguments.  The first half models one sliding window and proves that it
  implements an exact log of admitted requests; the second half models the partition store with
  its periodic sweep, the admission decision, the middleware and the in-flight gate.
\<close>

section \<open>The sliding window\<close>

definition WINDOW_SECONDS :: nat where "WINDOW_SECONDS = 60"
definition SEGMENTS :: nat where "SEGMENTS = 6"
definition SEGMENT_SECONDS :: nat where "SEGMENT_SECONDS = WINDOW_SECONDS div SEGMENTS"
definition RETRY_AFTER_SECONDS :: nat where "RETRY_AFTER_SECONDS = WINDOW_SECONDS"
definition SWEEP_EVERY_OPS :: nat where "SWEEP_EVERY_OPS = 4096"

lemmas window_consts = WINDOW_SECONDS_def SEGMENTS_def SEGMENT_SECONDS_def RETRY_AFTER_SECONDS_def

record sliding_window =
  buckets :: "(nat \<times> nat) list"

definition sliding_window_new :: sliding_window where
  "sliding_window_new = \<lparr>buckets = replicate SEGMENTS (0, 0)\<rparr>"

text \<open>The first loop of \<open>try_admit\<close>: expired buckets are reset, the others are added up.\<close>

fun scan_buckets :: "nat \<Rightarrow> nat \<Rightarrow> (nat \<times> nat) list \<Rightarrow> (nat \<times> nat) list \<times> nat" where
  "scan_buckets window_start tot [] = ([], tot)"
| "scan_buckets window_start tot (b # bs) =
     (if fst b < window_start
      then let (bs', t) = scan_buckets window_start tot bs in ((0, 0) # bs', t)
      else let (bs', t) = scan_buckets window_start (saturating_add 32 tot (snd b)) bs
           in (b # bs', t))"

definition try_admit :: "sliding_window \<Rightarrow> nat \<Rightarrow> nat \<Rightarrow> sliding_window \<times> bool" where
  "try_admit w now_segment limit =
     (let window_start = saturating_sub now_segment (SEGMENTS - 1);
          (bs, tot) = scan_buckets window_start 0 (buckets w)
      in if limit \<le> tot then (w\<lparr>buckets := bs\<rparr>, False)
         else let slot = now_segment mod SEGMENTS
              in (w\<lparr>buckets := bs[slot :=
                    (if fst (bs ! slot) = now_segment
                     then (fst (bs ! slot), saturating_add 32 (snd (bs ! slot)) 1)
                     else (now_segment, 1))]\<rparr>, True))"

text \<open>\<open>sweep_dead_windows\<close> keeps a window when one of its buckets is still inside the trailing
  window.\<close>

definition window_alive :: "nat \<Rightarrow> sliding_window \<Rightarrow> bool" where
  "window_alive now_segment w \<longleftrightarrow>
     list_ex (\<lambda>b. saturating_sub now_segment (SEGMENTS - 1) \<le> fst b) (buckets w)"

definition sweep_dead_windows :: "(string \<rightharpoonup> sliding_window) \<Rightarrow> nat \<Rightarrow> (string \<rightharpoonup> sliding_window)" where
  "sweep_dead_windows ws now_segment =
     (\<lambda>p. filter_option (window_alive now_segment) (ws p))"

section \<open>What a window means: the log of admitted requests\<close>

text \<open>The reference: keep the segment of every admitted request.  \<open>trailing h now\<close> counts those
  in the window that ends at \<open>now\<close>.\<close>

definition trailing :: "nat list \<Rightarrow> nat \<Rightarrow> nat" where
  "trailing h now = length (filter (\<lambda>g. now \<le> g + (SEGMENTS - 1)) h)"

definition log_admit :: "nat list \<Rightarrow> nat \<Rightarrow> nat \<Rightarrow> nat list \<times> bool" where
  "log_admit h now limit = (if trailing h now < limit then (h @ [now], True) else (h, False))"

text \<open>The number of logged requests in the window of \<open>SEGMENTS\<close> segments that ends at \<open>s\<close>.\<close>

definition window_count :: "nat list \<Rightarrow> nat \<Rightarrow> nat" where
  "window_count h s = length (filter (\<lambda>g. g \<le> s \<and> s \<le> g + (SEGMENTS - 1)) h)"

text \<open>The contract of a window implementation, as its clients use it: a fresh window represents
  an empty log, admission decides by the trailing count and keeps representing the log, and a
  window that is no longer alive may be replaced by a fresh one.\<close>

locale window_counter =
  fixes new :: 'w
    and admit :: "'w \<Rightarrow> nat \<Rightarrow> nat \<Rightarrow> 'w \<times> bool"
    and alive :: "nat \<Rightarrow> 'w \<Rightarrow> bool"
    and represents :: "'w \<Rightarrow> nat list \<Rightarrow> nat \<Rightarrow> bool"
  assumes new_represents: "represents new [] t"
    and represents_mono: "represents w h t \<Longrightarrow> t \<le> t' \<Longrightarrow> represents w h t'"
    and admit_refines: "represents w h now \<Longrightarrow> limit < 2 ^ 32 \<Longrightarrow> admit w now limit = (w', ok) \<Longrightarrow>
        log_admit h now limit = (h', ok') \<Longrightarrow> ok = ok' \<and> represents w' h' now"
    and dead_is_new: "represents w h now \<Longrightarrow> \<not> alive now w \<Longrightarrow> represents new h now"
begin

text \<open>A run of requests against one window and against the log.\<close>

fun run_window :: "'w \<Rightarrow> nat \<Rightarrow> nat list \<Rightarrow> bool list" where
  "run_window w limit [] = []"
| "run_window w limit (now # ns) =
     (let (w', ok) = admit w now limit in ok # run_window w' limit ns)"

fun run_log :: "nat list \<Rightarrow> nat \<Rightarrow> nat list \<Rightarrow> bool list" where
  "run_log h limit [] = []"
| "run_log h limit (now # ns) =
     (let (h', ok) = log_admit h now limit in ok # run_log h' limit ns)"

lemma run_window_eq_log:
  "represents w h t \<Longrightarrow> sorted (t # ns) \<Longrightarrow> limit < 2 ^ 32 \<Longrightarrow>
   run_window w limit ns = run_log h limit ns"
proof (induction ns arbitrary: w h t)
  case (Cons now ns)
  obtain w' ok where w': "admit w now limit = (w', ok)" by fastforce
  obtain h' ok' where h': "log_admit h now limit = (h', ok')" by fastforce
  have "represents w h now" using Cons.prems by (auto intro: represents_mono)
  with w' h' Cons.prems have "ok = ok'" "represents w' h' now"
    using admit_refines by blast+
  with Cons w' h' show ?case by auto
qed simp

text \<open>A store of windows by partition; an absent window counts as a fresh one.\<close>

definition store_represents :: "('p \<Rightarrow> 'w option) \<Rightarrow> ('p \<Rightarrow> nat list) \<Rightarrow> nat \<Rightarrow> bool" where
  "store_represents ws logs t \<longleftrightarrow> (\<forall>p. represents (unwrap_or (ws p) new) (logs p) t)"

lemma store_empty: "store_represents (\<lambda>_. None) (\<lambda>_. []) t"
  by (simp add: store_represents_def new_represents)

lemma store_mono: "store_represents ws logs t \<Longrightarrow> t \<le> t' \<Longrightarrow> store_represents ws logs t'"
  by (auto simp: store_represents_def intro: represents_mono)

lemma store_sweep:
  assumes "store_represents ws logs now"
  shows "store_represents (\<lambda>p. filter_option (alive now) (ws p)) logs now"
  unfolding store_represents_def
proof
  fix p
  show "represents (unwrap_or (filter_option (alive now) (ws p)) new) (logs p) now"
    using assms dead_is_new [of _ "logs p" now]
    by (cases "ws p") (auto simp: store_represents_def dest: spec [of _ p])
qed

lemma store_admit:
  assumes "store_represents ws logs now" and "limit < 2 ^ 32"
    and "admit (unwrap_or (ws p) new) now limit = (w', ok)"
    and "log_admit (logs p) now limit = (h', ok')"
  shows "ok = ok' \<and> store_represents (ws(p \<mapsto> w')) (logs(p := h')) now"
  using assms admit_refines [of "unwrap_or (ws p) new" "logs p" now limit w' ok h' ok']
  by (auto simp: store_represents_def)

end

lemma window_count_mono_log:
  assumes "\<forall>g\<in>set h. g \<le> now" and "now \<le> s"
  shows "window_count h s \<le> trailing h now"
proof -
  have "filter (\<lambda>g. g \<le> s \<and> s \<le> g + (SEGMENTS - 1)) h =
        filter (\<lambda>g. g \<le> s \<and> s \<le> g + (SEGMENTS - 1)) (filter (\<lambda>g. now \<le> g + (SEGMENTS - 1)) h)"
    using assms by (auto intro!: filter_cong)
  then show ?thesis unfolding window_count_def trailing_def by (metis length_filter_le)
qed

text \<open>The log never holds more than \<open>limit\<close> entries in any window, whatever the requests.\<close>

lemma log_admit_bounded:
  assumes "\<forall>s. window_count h s \<le> limit" and "\<forall>g\<in>set h. g \<le> now"
    and "log_admit h now limit = (h', ok)"
  shows "(\<forall>s. window_count h' s \<le> limit) \<and> (\<forall>g\<in>set h'. g \<le> now)"
proof (cases "trailing h now < limit")
  case True
  with assms(3) have h': "h' = h @ [now]" by (auto simp: log_admit_def)
  have "window_count h' s \<le> limit" for s
  proof (cases "now \<le> s")
    case ns: True
    have "window_count h' s \<le> window_count h s + 1" by (simp add: h' window_count_def)
    also have "\<dots> \<le> limit" using window_count_mono_log [OF assms(2) ns] True by simp
    finally show ?thesis .
  next
    case False
    then have "window_count h' s = window_count h s" by (simp add: h' window_count_def)
    with assms(1) show ?thesis by simp
  qed
  with assms(2) h' show ?thesis by auto
next
  case False
  with assms show ?thesis by (auto simp: log_admit_def)
qed

section \<open>The bucket array represents the log\<close>

lemma scan_buckets_fst: "fst (scan_buckets ws t bs) = map (\<lambda>b. if fst b < ws then (0, 0) else b) bs"
  by (induction bs arbitrary: t) (auto simp: case_prod_beta Let_def)

lemma scan_buckets_snd:
  "t < 2 ^ 32 \<Longrightarrow> snd (scan_buckets ws t bs) =
     min (t + sum_list (map snd (filter (\<lambda>b. ws \<le> fst b) bs))) (2 ^ 32 - 1)"
proof (induction bs arbitrary: t)
  case (Cons b bs)
  then show ?case
    using saturating_add_bound [of 32 t "snd b"]
    by (auto simp: case_prod_beta Let_def saturating_add_def min_def)
qed auto

definition window_represents :: "sliding_window \<Rightarrow> nat list \<Rightarrow> nat \<Rightarrow> bool" where
  "window_represents w h t \<longleftrightarrow>
     length (buckets w) = SEGMENTS
     \<and> (\<forall>i<SEGMENTS. fst (buckets w ! i) \<le> t
           \<and> (fst (buckets w ! i) mod SEGMENTS = i \<or> buckets w ! i = (0, 0)))
     \<and> (\<forall>g. g \<le> t \<longrightarrow> t \<le> g + (SEGMENTS - 1) \<longrightarrow> count_list h g =
           (if fst (buckets w ! (g mod SEGMENTS)) = g then snd (buckets w ! (g mod SEGMENTS)) else 0))
     \<and> (\<forall>g\<in>set h. g \<le> t)"

text \<open>The sum over the buckets that are inside the window is the number of logged requests
  inside it: each segment of the window owns one slot.\<close>

lemma trailing_eq_sum:
  assumes "\<forall>g\<in>set h. g \<le> now"
  shows "trailing h now = (\<Sum>g\<in>{now - (SEGMENTS - 1)..now}. count_list h g)"
proof -
  have "trailing h now = length (filter (\<lambda>g. g \<in> {now - (SEGMENTS - 1)..now}) h)"
    unfolding trailing_def using assms
    by (intro arg_cong [of _ _ length] filter_cong) auto
  also have "\<dots> = (\<Sum>g\<in>{now - (SEGMENTS - 1)..now}. count_list h g)"
  proof (induction h)
    case (Cons x h)
    have "(\<Sum>g\<in>A. count_list (x # h) g) = (\<Sum>g\<in>A. count_list h g) + (if x \<in> A then 1 else 0)"
      if "finite A" for A :: "nat set"
    proof -
      have "(\<Sum>g\<in>A. count_list (x # h) g) = (\<Sum>g\<in>A. count_list h g + (if x = g then 1 else 0))"
        by (intro sum.cong) auto
      with that show ?thesis by (simp add: sum.distrib)
    qed
    with Cons show ?case by simp
  qed simp
  finally show ?thesis .
qed

lemma window_represents_mono:
  assumes "window_represents w h t" and "t \<le> t'"
  shows "window_represents w h t'"
proof -
  have "count_list h g = (if fst (buckets w ! (g mod SEGMENTS)) = g then snd (buckets w ! (g mod SEGMENTS)) else 0)"
    if "g \<le> t'" "t' \<le> g + (SEGMENTS - 1)" for g
  proof (cases "g \<le> t")
    case True
    with assms that show ?thesis by (simp add: window_represents_def)
  next
    case False
    with assms have "g \<notin> set h" by (auto simp: window_represents_def)
    moreover have "fst (buckets w ! (g mod SEGMENTS)) \<le> t"
      using assms by (simp add: window_represents_def SEGMENTS_def)
    ultimately show ?thesis using False by (simp add: count_list_0_iff)
  qed
  with assms show ?thesis by (fastforce simp: window_represents_def)
qed

lemma window_slots_sum:
  assumes r: "window_represents w h now"
  defines "W \<equiv> {now - (SEGMENTS - 1)..now}"
  shows "sum_list (map snd (filter (\<lambda>b. now - (SEGMENTS - 1) \<le> fst b) (buckets w))) = trailing h now"
proof -
  let ?b = "\<lambda>i. buckets w ! i"
  let ?F = "\<lambda>g. if fst (?b (g mod SEGMENTS)) = g then snd (?b (g mod SEGMENTS)) else 0"
  from r have len: "length (buckets w) = SEGMENTS"
    and slot: "\<And>i. i < SEGMENTS \<Longrightarrow> fst (?b i) \<le> now \<and> (fst (?b i) mod SEGMENTS = i \<or> ?b i = (0, 0))"
    and cnt: "\<And>g. g \<in> W \<Longrightarrow> count_list h g = ?F g"
    and le: "\<forall>g\<in>set h. g \<le> now"
    by (auto simp: window_represents_def W_def)
  have "(\<Sum>g\<in>{g\<in>W. g mod SEGMENTS = i}. ?F g) = (if fst (?b i) \<in> W then snd (?b i) else 0)"
    if i: "i < SEGMENTS" for i
  proof -
    have "(\<Sum>g\<in>{g\<in>W. g mod SEGMENTS = i}. ?F g) =
          (\<Sum>g\<in>{g\<in>W. g mod SEGMENTS = i}. if fst (?b i) = g then snd (?b i) else 0)"
      by (intro sum.cong) auto
    also have "\<dots> = (if fst (?b i) \<in> {g\<in>W. g mod SEGMENTS = i} then snd (?b i) else 0)"
      by (simp add: W_def)
    finally show ?thesis using slot [OF i] by auto
  qed
  note group = this
  have "trailing h now = (\<Sum>g\<in>W. ?F g)"
    using trailing_eq_sum [OF le] cnt by (simp add: W_def)
  also have "\<dots> = (\<Sum>i<SEGMENTS. \<Sum>g\<in>{g\<in>W. g mod SEGMENTS = i}. ?F g)"
    by (rule sum.group [symmetric]) (auto simp: W_def SEGMENTS_def)
  also have "\<dots> = (\<Sum>i<SEGMENTS. if fst (?b i) \<in> W then snd (?b i) else 0)"
    using group by (intro sum.cong) auto
  also have "\<dots> = (\<Sum>i<SEGMENTS. if now - (SEGMENTS - 1) \<le> fst (?b i) then snd (?b i) else 0)"
    using slot by (intro sum.cong) (auto simp: W_def)
  also have "\<dots> = sum_list (map snd (filter (\<lambda>b. now - (SEGMENTS - 1) \<le> fst b) (buckets w)))"
    unfolding sum_list_map_filter' by (simp add: sum_list_sum_nth len lessThan_atLeast0)
  finally show ?thesis by simp
qed

text \<open>Resetting the expired buckets keeps the representation.\<close>

lemma window_represents_expire:
  assumes r: "window_represents w h now"
  shows "window_represents
     (w\<lparr>buckets := map (\<lambda>b. if fst b < now - (SEGMENTS - 1) then (0, 0) else b) (buckets w)\<rparr>) h now"
proof -
  from r have len: "length (buckets w) = SEGMENTS" by (simp add: window_represents_def)
  have m: "g mod SEGMENTS < SEGMENTS" for g by (simp add: SEGMENTS_def)
  show ?thesis
    using r m unfolding window_represents_def by (auto simp: len)
qed

lemma window_represents_bump:
  assumes r: "window_represents w h now"
    and c: "fst (buckets w ! (now mod SEGMENTS)) = now \<Longrightarrow> c = Suc (snd (buckets w ! (now mod SEGMENTS)))"
    and c1: "fst (buckets w ! (now mod SEGMENTS)) \<noteq> now \<Longrightarrow> c = 1"
  shows "window_represents (w\<lparr>buckets := (buckets w)[now mod SEGMENTS := (now, c)]\<rparr>) (h @ [now]) now"
proof -
  from r have len: "length (buckets w) = SEGMENTS" by (simp add: window_represents_def)
  have same: "g = now"
    if "g \<le> now" "now \<le> g + (SEGMENTS - 1)" "now mod SEGMENTS = g mod SEGMENTS" for g
  proof (rule ccontr)
    assume "g \<noteq> now"
    from that have "SEGMENTS dvd now - g" by (metis mod_eq_dvd_iff_nat)
    with that \<open>g \<noteq> now\<close> show False by (auto simp: SEGMENTS_def dest: dvd_imp_le)
  qed
  have m: "g mod SEGMENTS < SEGMENTS" for g by (simp add: SEGMENTS_def)
  have "count_list h now = (if fst (buckets w ! (now mod SEGMENTS)) = now
          then snd (buckets w ! (now mod SEGMENTS)) else 0)"
    using r by (simp add: window_represents_def)
  with r c c1 m show ?thesis
    unfolding window_represents_def by (auto simp: len nth_list_update SEGMENTS_def dest: same [unfolded SEGMENTS_def, simplified])
qed

lemma try_admit_refines:
  assumes r: "window_represents w h now" and lim: "limit < 2 ^ 32"
    and a: "try_admit w now limit = (w', ok)" and l: "log_admit h now limit = (h', ok')"
  shows "ok = ok' \<and> window_represents w' h' now"
proof -
  let ?ws = "now - (SEGMENTS - 1)"
  let ?e = "map (\<lambda>b. if fst b < ?ws then (0, 0) else b) (buckets w)"
  let ?w = "w\<lparr>buckets := ?e\<rparr>"
  obtain bs tot where sc: "scan_buckets ?ws 0 (buckets w) = (bs, tot)" by fastforce
  with scan_buckets_fst [of ?ws 0 "buckets w"] have bs: "bs = ?e" by simp
  have tot: "tot = min (trailing h now) (2 ^ 32 - 1)"
    using scan_buckets_snd [of 0 ?ws "buckets w"] sc window_slots_sum [OF r] by simp
  with lim have dec: "limit \<le> tot \<longleftrightarrow> limit \<le> trailing h now" by auto
  have e: "window_represents ?w h now" by (rule window_represents_expire [OF r])
  show ?thesis
  proof (cases "limit \<le> trailing h now")
    case True
    with a l sc bs dec e show ?thesis by (auto simp: try_admit_def log_admit_def)
  next
    case False
    let ?s = "now mod SEGMENTS"
    have "count_list h now \<le> trailing h now"
      by (induction h) (auto simp: trailing_def)
    moreover have "fst (?e ! ?s) = now \<Longrightarrow> snd (?e ! ?s) = count_list h now"
      using e by (simp add: window_represents_def)
    ultimately have sat: "fst (?e ! ?s) = now \<Longrightarrow> saturating_add 32 (snd (?e ! ?s)) 1 = Suc (snd (?e ! ?s))"
      using False lim by (simp add: saturating_add_def)
    let ?c = "if fst (?e ! ?s) = now then saturating_add 32 (snd (?e ! ?s)) 1 else 1"
    have "w' = ?w\<lparr>buckets := (buckets ?w)[?s := (now, ?c)]\<rparr> \<and> ok"
      using a sc bs dec False by (auto simp: try_admit_def Let_def)
    moreover have "window_represents (?w\<lparr>buckets := (buckets ?w)[?s := (now, ?c)]\<rparr>) (h @ [now]) now"
      by (rule window_represents_bump [OF e]) (use sat in auto)
    ultimately show ?thesis using l False by (simp add: log_admit_def)
  qed
qed

lemma window_represents_dead:
  assumes r: "window_represents w h now" and d: "\<not> window_alive now w"
  shows "window_represents sliding_window_new h now"
proof -
  have len: "length (buckets w) = SEGMENTS" using r by (simp add: window_represents_def)
  have "count_list h g = 0" if g: "g \<le> now" "now \<le> g + (SEGMENTS - 1)" for g
  proof -
    have "g mod SEGMENTS < SEGMENTS" by (simp add: SEGMENTS_def)
    with d len have "fst (buckets w ! (g mod SEGMENTS)) < now - (SEGMENTS - 1)"
      by (auto simp: window_alive_def list_ex_iff not_le)
    with r g show ?thesis by (auto simp: window_represents_def)
  qed
  moreover have "g mod SEGMENTS < SEGMENTS" for g by (simp add: SEGMENTS_def)
  ultimately show ?thesis
    using r by (auto simp: window_represents_def sliding_window_new_def SEGMENTS_def)
qed

interpretation sw: window_counter sliding_window_new try_admit window_alive window_represents
proof
  show "window_represents sliding_window_new [] t" for t
    by (auto simp: window_represents_def sliding_window_new_def SEGMENTS_def)
qed (auto dest: window_represents_mono try_admit_refines window_represents_dead)

section \<open>The limiter\<close>

record 'ip limiter =
  lim_enabled :: bool
  lim_require_api_key :: bool
  lim_per_ip_per_minute :: nat
  lim_key_limits :: "string \<rightharpoonup> int"
  lim_trusted_proxies :: "'ip list"
  lim_windows :: "string \<rightharpoonup> sliding_window"
  lim_ops_since_sweep :: nat
  lim_in_flight :: nat
  lim_capacity :: nat

text \<open>\<open>build_key_limits\<close>: empty keys are skipped, a later tier overwrites an earlier one.\<close>

fun insert_tier_keys :: "int \<Rightarrow> string list \<Rightarrow> (string \<rightharpoonup> int) \<Rightarrow> (string \<rightharpoonup> int)" where
  "insert_tier_keys per_minute [] limits = limits"
| "insert_tier_keys per_minute (key # keys) limits =
     insert_tier_keys per_minute keys (if key = [] then limits else limits(key \<mapsto> per_minute))"

fun build_key_limits_into :: "rate_limit_tier list \<Rightarrow> (string \<rightharpoonup> int) \<Rightarrow> (string \<rightharpoonup> int)" where
  "build_key_limits_into [] limits = limits"
| "build_key_limits_into (tier # tiers) limits =
     build_key_limits_into tiers (insert_tier_keys (tier_per_minute tier) (tier_keys tier) limits)"

definition build_key_limits :: "rate_limit_tier list \<Rightarrow> (string \<rightharpoonup> int)" where
  "build_key_limits tiers = build_key_limits_into tiers Map.empty"

definition rate_limiter_new :: "(string \<Rightarrow> 'ip option) \<Rightarrow> rate_limit_config \<Rightarrow> 'ip limiter" where
  "rate_limiter_new parse_ip config =
     \<lparr>lim_enabled = rl_enabled config,
      lim_require_api_key = rl_require_api_key config,
      lim_per_ip_per_minute = rl_per_ip_per_minute config,
      lim_key_limits = build_key_limits (rl_key_tiers config),
      lim_trusted_proxies = List.map_filter (\<lambda>raw. parse_ip (trim raw)) (rl_trusted_proxies config),
      lim_windows = Map.empty,
      lim_ops_since_sweep = 0,
      lim_in_flight = 0,
      lim_capacity = max (saturating_add 64 (rl_global_concurrent_limit config)
                                            (rl_global_queue_limit config)) 1\<rparr>"

definition is_exempt_path :: "string \<Rightarrow> bool" where
  "is_exempt_path path \<longleftrightarrow>
     path = ''/health'' \<or> path = ''/version''
     \<or> prefix ''/swagger-ui'' path \<or> prefix ''/api-docs'' path"

definition current_segment :: "nat \<Rightarrow> nat" where
  "current_segment elapsed_secs = elapsed_secs div SEGMENT_SECONDS"

text \<open>\<open>resolve_client_ip\<close> walks the hops of \<open>X-Forwarded-For\<close> from the right and returns the first
  one that parses and is not a trusted proxy.\<close>

fun first_untrusted_hop :: "(string \<Rightarrow> 'ip option) \<Rightarrow> 'ip list \<Rightarrow> string list \<Rightarrow> 'ip option" where
  "first_untrusted_hop parse_ip trusted [] = None"
| "first_untrusted_hop parse_ip trusted (hop # hops) =
     (case parse_ip (trim hop) of
        None \<Rightarrow> first_untrusted_hop parse_ip trusted hops
      | Some ip \<Rightarrow> if ip \<in> set trusted then first_untrusted_hop parse_ip trusted hops else Some ip)"

definition resolve_client_ip ::
    "(string \<Rightarrow> 'ip option) \<Rightarrow> 'ip limiter \<Rightarrow> 'ip \<Rightarrow> string option \<Rightarrow> 'ip" where
  "resolve_client_ip parse_ip lim peer forwarded_for =
     (if peer \<in> set (lim_trusted_proxies lim)
      then (case forwarded_for of
              None \<Rightarrow> peer
            | Some forwarded \<Rightarrow>
                unwrap_or (first_untrusted_hop parse_ip (lim_trusted_proxies lim)
                             (rev (split_on (CHR '','') forwarded))) peer)
      else peer)"

definition admit_partition ::
    "'ip limiter \<Rightarrow> string \<Rightarrow> nat \<Rightarrow> nat \<Rightarrow> 'ip limiter \<times> bool" where
  "admit_partition lim part limit now_segment =
     (let sweep = SWEEP_EVERY_OPS \<le> lim_ops_since_sweep lim;
          ops = (if sweep then 0 else lim_ops_since_sweep lim + 1);
          ws = (if sweep then sweep_dead_windows (lim_windows lim) now_segment else lim_windows lim);
          (w, ok) = try_admit (unwrap_or (ws part) sliding_window_new) now_segment limit
      in (lim\<lparr>lim_ops_since_sweep := ops, lim_windows := ws(part \<mapsto> w)\<rparr>, ok))"

text \<open>\<open>admit\<close>.  The cast \<open>per_minute as u32\<close> keeps the low 32 bits of the tier's limit.\<close>

definition admit ::
    "(string \<Rightarrow> 'ip option) \<Rightarrow> ('ip \<Rightarrow> string) \<Rightarrow> 'ip limiter \<Rightarrow> nat \<Rightarrow> string option \<Rightarrow> 'ip option \<Rightarrow>
     string option \<Rightarrow> 'ip limiter \<times> bool" where
  "admit parse_ip show_ip lim elapsed_secs key peer forwarded_for =
     (let now_segment = current_segment elapsed_secs;
          anonymous =
            (if lim_trusted_proxies lim = [] then (lim, True)
             else case peer of
                    None \<Rightarrow> (lim, True)
                  | Some peer \<Rightarrow>
                      admit_partition lim
                        (''ip:'' @ show_ip (resolve_client_ip parse_ip lim peer forwarded_for))
                        (lim_per_ip_per_minute lim) now_segment)
      in case key of
           None \<Rightarrow> anonymous
         | Some k \<Rightarrow>
             (case lim_key_limits lim k of
                None \<Rightarrow> anonymous
              | Some per_minute \<Rightarrow>
                  if per_minute \<le> 0 then (lim, True)
                  else admit_partition lim (''apikey:'' @ k) (nat per_minute mod 2 ^ 32) now_segment))"

text \<open>\<open>try_enter\<close> seen as one atomic step, and the \<open>Drop\<close> of its guard.  The loop of
  compare-and-swap attempts itself is modelled below.\<close>

definition try_enter :: "'ip limiter \<Rightarrow> 'ip limiter option" where
  "try_enter lim =
     (if lim_capacity lim \<le> lim_in_flight lim then None
      else Some (lim\<lparr>lim_in_flight := lim_in_flight lim + 1\<rparr>))"

definition drop_guard :: "'ip limiter \<Rightarrow> 'ip limiter" where
  "drop_guard lim = lim\<lparr>lim_in_flight := lim_in_flight lim - 1\<rparr>"

section \<open>The middleware\<close>

record 'ip request =
  req_is_options :: bool
  req_path :: string
  req_api_key :: "string option"
  req_peer :: "'ip option"
  req_forwarded_for :: "string option"

text \<open>What the middleware decides before it runs the handler.\<close>

datatype admission = Bypass | Reject api_error | Enter

definition middleware_decide ::
    "(string \<Rightarrow> 'ip option) \<Rightarrow> ('ip \<Rightarrow> string) \<Rightarrow> 'ip limiter \<Rightarrow> nat \<Rightarrow> 'ip request \<Rightarrow>
     'ip limiter \<times> admission" where
  "middleware_decide parse_ip show_ip lim elapsed_secs req =
     (if \<not> lim_enabled lim then (lim, Bypass)
      else if req_is_options req then (lim, Bypass)
      else if is_exempt_path (req_path req) then (lim, Bypass)
      else if lim_require_api_key lim
              \<and> (case req_api_key req of None \<Rightarrow> True | Some k \<Rightarrow> lim_key_limits lim k = None)
      then (lim, Reject (Unauthorized ''API key required''))
      else
        (let (lim', ok) = admit parse_ip show_ip lim elapsed_secs (req_api_key req) (req_peer req)
                            (req_forwarded_for req)
         in if \<not> ok then (lim', Reject (RateLimited RETRY_AFTER_SECONDS))
            else case try_enter lim' of
                   None \<Rightarrow> (lim', Reject (RateLimited RETRY_AFTER_SECONDS))
                 | Some lim'' \<Rightarrow> (lim'', Enter)))"

definition rate_limit_middleware ::
    "(string \<Rightarrow> 'ip option) \<Rightarrow> ('ip \<Rightarrow> string) \<Rightarrow> ('ip request \<Rightarrow> response) \<Rightarrow> 'ip limiter \<Rightarrow> nat \<Rightarrow>
     'ip request \<Rightarrow> 'ip limiter \<times> response" where
  "rate_limit_middleware parse_ip show_ip next lim elapsed_secs req =
     (case middleware_decide parse_ip show_ip lim elapsed_secs req of
        (lim', Bypass) \<Rightarrow> (lim', next req)
      | (lim', Reject e) \<Rightarrow> (lim', into_response e)
      | (lim', Enter) \<Rightarrow> (drop_guard lim', next req))"

section \<open>The limiter implements a log per partition\<close>

text \<open>The reference limiter: which partition a call is charged to, with which limit, and an exact
  log of admitted segments per partition; no sweep, no buckets.\<close>

record 'ip call =
  call_secs :: nat
  call_key :: "string option"
  call_peer :: "'ip option"
  call_forwarded_for :: "string option"

definition call_segment :: "'ip call \<Rightarrow> nat" where
  "call_segment c = current_segment (call_secs c)"

definition partition_of ::
    "(string \<Rightarrow> 'ip option) \<Rightarrow> ('ip \<Rightarrow> string) \<Rightarrow> 'ip limiter \<Rightarrow> 'ip call \<Rightarrow> (string \<times> nat) option" where
  "partition_of parse_ip show_ip lim c =
     (case Option.bind (call_key c) (lim_key_limits lim) of
        Some per_minute \<Rightarrow>
          if per_minute \<le> 0 then None
          else Some (''apikey:'' @ the (call_key c), nat per_minute mod 2 ^ 32)
      | None \<Rightarrow>
          (if lim_trusted_proxies lim = [] then None
           else map_option (\<lambda>peer. (''ip:'' @ show_ip (resolve_client_ip parse_ip lim peer
                                       (call_forwarded_for c)), lim_per_ip_per_minute lim))
                  (call_peer c)))"

definition spec_admit ::
    "(string \<times> nat) option \<Rightarrow> nat \<Rightarrow> (string \<Rightarrow> nat list) \<Rightarrow> (string \<Rightarrow> nat list) \<times> bool" where
  "spec_admit target now logs =
     (case target of
        None \<Rightarrow> (logs, True)
      | Some (p, limit) \<Rightarrow> (let (h, ok) = log_admit (logs p) now limit in (logs(p := h), ok)))"

fun run_admits ::
    "(string \<Rightarrow> 'ip option) \<Rightarrow> ('ip \<Rightarrow> string) \<Rightarrow> 'ip limiter \<Rightarrow> 'ip call list \<Rightarrow> bool list" where
  "run_admits parse_ip show_ip lim [] = []"
| "run_admits parse_ip show_ip lim (c # cs) =
     (let (lim', ok) = admit parse_ip show_ip lim (call_secs c) (call_key c) (call_peer c)
                         (call_forwarded_for c)
      in ok # run_admits parse_ip show_ip lim' cs)"

fun run_spec ::
    "('c \<Rightarrow> (string \<times> nat) option) \<Rightarrow> ('c \<Rightarrow> nat) \<Rightarrow> (string \<Rightarrow> nat list) \<Rightarrow> 'c list \<Rightarrow> bool list" where
  "run_spec target seg logs [] = []"
| "run_spec target seg logs (c # cs) =
     (let (logs', ok) = spec_admit (target c) (seg c) logs in ok # run_spec target seg logs' cs)"

text \<open>The configuration part of the limiter, which no operation changes.\<close>

definition same_config :: "'ip limiter \<Rightarrow> 'ip limiter \<Rightarrow> bool" where
  "same_config a b \<longleftrightarrow>
     lim_enabled a = lim_enabled b \<and> lim_require_api_key a = lim_require_api_key b
     \<and> lim_per_ip_per_minute a = lim_per_ip_per_minute b \<and> lim_key_limits a = lim_key_limits b
     \<and> lim_trusted_proxies a = lim_trusted_proxies b \<and> lim_capacity a = lim_capacity b"

lemma same_config_refl [simp]: "same_config a a"
  by (simp add: same_config_def)

lemma same_config_trans: "same_config a b \<Longrightarrow> same_config b c \<Longrightarrow> same_config a c"
  by (simp add: same_config_def)

lemma admit_partition_config:
  "admit_partition lim p l now = (lim', ok) \<Longrightarrow>
   same_config lim lim' \<and> lim_in_flight lim' = lim_in_flight lim"
  by (auto simp: admit_partition_def same_config_def Let_def split: prod.splits)

lemma partition_of_config:
  assumes "same_config lim lim'"
  shows "partition_of parse_ip show_ip lim' = partition_of parse_ip show_ip lim"
proof -
  from assms have eqs: "lim_trusted_proxies lim' = lim_trusted_proxies lim"
      "lim_key_limits lim' = lim_key_limits lim"
      "lim_per_ip_per_minute lim' = lim_per_ip_per_minute lim"
    by (simp_all add: same_config_def)
  have res: "resolve_client_ip parse_ip lim' = resolve_client_ip parse_ip lim"
    by (intro ext) (unfold resolve_client_ip_def eqs, rule refl)
  show ?thesis by (intro ext) (unfold partition_of_def eqs res, rule refl)
qed

lemma admit_by_partition:
  "admit parse_ip show_ip lim (call_secs c) (call_key c) (call_peer c) (call_forwarded_for c) =
     (case partition_of parse_ip show_ip lim c of
        None \<Rightarrow> (lim, True)
      | Some (p, l) \<Rightarrow> admit_partition lim p l (current_segment (call_secs c)))"
  by (auto simp: admit_def partition_of_def Let_def split: option.splits)

lemma admit_config:
  "admit parse_ip show_ip lim secs key peer xff = (lim', ok) \<Longrightarrow>
   same_config lim lim' \<and> lim_in_flight lim' = lim_in_flight lim"
  by (auto simp: admit_def Let_def split: option.splits if_splits dest: admit_partition_config)

text \<open>One step: the limiter decides as the logs do, sweep or not.\<close>

lemma admit_partition_refines:
  assumes "sw.store_represents (lim_windows lim) logs now" and "limit < 2 ^ 32"
    and a: "admit_partition lim p limit now = (lim', ok)"
    and l: "log_admit (logs p) now limit = (h, ok')"
  shows "ok = ok' \<and> sw.store_represents (lim_windows lim') (logs(p := h)) now"
proof -
  let ?ws = "if SWEEP_EVERY_OPS \<le> lim_ops_since_sweep lim
             then sweep_dead_windows (lim_windows lim) now else lim_windows lim"
  have ws: "sw.store_represents ?ws logs now"
    using assms(1) sw.store_sweep [OF assms(1)] by (simp add: sweep_dead_windows_def)
  obtain w r where w: "try_admit (unwrap_or (?ws p) sliding_window_new) now limit = (w, r)"
    by fastforce
  with a have "ok = r" "lim_windows lim' = ?ws(p \<mapsto> w)"
    by (auto simp: admit_partition_def Let_def)
  with sw.store_admit [OF ws assms(2) w l] show ?thesis by simp
qed

lemma partition_of_limit:
  "partition_of parse_ip show_ip lim c = Some (p, l) \<Longrightarrow> lim_per_ip_per_minute lim < 2 ^ 32 \<Longrightarrow>
   l < 2 ^ 32"
  by (auto simp: partition_of_def split: option.splits if_splits)

lemma run_admits_refines:
  assumes "sw.store_represents (lim_windows lim) logs t"
    and "sorted (t # map call_segment cs)"
    and "lim_per_ip_per_minute lim < 2 ^ 32"
  shows "run_admits parse_ip show_ip lim cs =
         run_spec (partition_of parse_ip show_ip lim) call_segment logs cs"
  using assms
proof (induction cs arbitrary: lim logs t)
  case (Cons c cs)
  let ?now = "call_segment c"
  let ?t = "partition_of parse_ip show_ip lim c"
  obtain lim' ok where a: "admit parse_ip show_ip lim (call_secs c) (call_key c) (call_peer c)
      (call_forwarded_for c) = (lim', ok)" by fastforce
  obtain logs' ok' where l: "spec_admit ?t ?now logs = (logs', ok')" by fastforce
  have now: "sw.store_represents (lim_windows lim) logs ?now"
    using Cons.prems by (auto intro: sw.store_mono)
  have "ok = ok' \<and> sw.store_represents (lim_windows lim') logs' ?now"
  proof (cases ?t)
    case None
    with a l now show ?thesis by (auto simp: admit_by_partition spec_admit_def call_segment_def)
  next
    case (Some pl)
    obtain p k where pl: "pl = (p, k)" by fastforce
    obtain h r where h: "log_admit (logs p) ?now k = (h, r)" by fastforce
    have "admit_partition lim p k ?now = (lim', ok)" using a Some pl by (simp add: admit_by_partition call_segment_def)
    moreover have "k < 2 ^ 32" using partition_of_limit Some pl Cons.prems by simp
    moreover have "logs' = logs(p := h)" "ok' = r" using l Some pl h by (auto simp: spec_admit_def)
    ultimately show ?thesis using admit_partition_refines [OF now _ _ h] by simp
  qed
  moreover have cfg: "same_config lim lim'" using admit_config [OF a] by simp
  ultimately have "run_admits parse_ip show_ip lim' cs =
      run_spec (partition_of parse_ip show_ip lim') call_segment logs' cs"
    using Cons.prems by (intro Cons.IH [of lim' logs' ?now]) (auto simp: same_config_def)
  with a l \<open>ok = ok' \<and> _\<close> partition_of_config [OF cfg] show ?case by simp
qed simp

text \<open>Bounding the reference limiter: a call charged to partition \<open>p\<close> always carries limit \<open>n\<close>.\<close>

definition admitted_in_window :: "('c \<Rightarrow> (string \<times> nat) option) \<Rightarrow> ('c \<Rightarrow> nat) \<Rightarrow> string \<Rightarrow> nat \<Rightarrow>
    ('c \<times> bool) list \<Rightarrow> nat" where
  "admitted_in_window target seg p s rs =
     length (filter (\<lambda>(c, ok). ok \<and> map_option fst (target c) = Some p
                       \<and> seg c \<le> s \<and> s \<le> seg c + (SEGMENTS - 1)) rs)"

lemma run_spec_bounded:
  assumes "sorted (map seg cs)" and "\<forall>s. window_count (logs p) s \<le> n"
    and "\<forall>g\<in>set (logs p). \<forall>c\<in>set cs. g \<le> seg c"
    and "\<forall>c\<in>set cs. \<forall>l. target c = Some (p, l) \<longrightarrow> l = n"
  shows "admitted_in_window target seg p s (zip cs (run_spec target seg logs cs))
         + window_count (logs p) s \<le> n"
  using assms
proof (induction cs arbitrary: logs)
  case Nil
  then show ?case by (simp add: admitted_in_window_def)
next
  case (Cons c cs)
  obtain logs' ok where l: "spec_admit (target c) (seg c) logs = (logs', ok)" by fastforce
  have step: "(logs' p = logs p \<and> \<not> (ok \<and> map_option fst (target c) = Some p))
      \<or> (logs' p = logs p @ [seg c] \<and> ok \<and> map_option fst (target c) = Some p
          \<and> log_admit (logs p) (seg c) n = (logs' p, True))"
    using l Cons.prems(4)
    by (cases "target c") (auto simp: spec_admit_def log_admit_def split: if_splits prod.splits)
  have inv: "(\<forall>s. window_count (logs' p) s \<le> n) \<and> (\<forall>g\<in>set (logs' p). \<forall>c\<in>set cs. g \<le> seg c)"
    using step
  proof
    assume "logs' p = logs p @ [seg c] \<and> ok \<and> map_option fst (target c) = Some p
          \<and> log_admit (logs p) (seg c) n = (logs' p, True)"
    with Cons.prems log_admit_bounded [of "logs p" n "seg c" "logs' p" True] show ?thesis by auto
  qed (use Cons.prems in auto)
  have IH: "admitted_in_window target seg p s (zip cs (run_spec target seg logs' cs))
      + window_count (logs' p) s \<le> n"
    using Cons.prems inv by (intro Cons.IH) auto
  from step show ?case
    using IH l by (auto simp: admitted_in_window_def window_count_def)
qed

section \<open>The in-flight gate under concurrency\<close>

text \<open>The loop of \<open>try_enter\<close>, thread by thread: load the counter, give up at capacity, otherwise
  compare and swap; a failed (or spuriously failed) swap leaves the thread with the value it
  observed.  Dropping the guard subtracts one.  Any number of threads interleave.\<close>

datatype gate_pc = Idle | Loaded nat | Holding | Shed

record gate =
  gate_in_flight :: nat
  gate_pcs :: "nat \<Rightarrow> gate_pc"

definition gate_init :: gate where
  "gate_init = \<lparr>gate_in_flight = 0, gate_pcs = (\<lambda>_. Idle)\<rparr>"

inductive gate_step :: "nat \<Rightarrow> gate \<Rightarrow> gate \<Rightarrow> bool" for cap where
  load: "gate_pcs g i = Idle \<Longrightarrow>
     gate_step cap g (g\<lparr>gate_pcs := (gate_pcs g)(i := Loaded (gate_in_flight g))\<rparr>)"
| shed: "gate_pcs g i = Loaded current \<Longrightarrow> cap \<le> current \<Longrightarrow>
     gate_step cap g (g\<lparr>gate_pcs := (gate_pcs g)(i := Shed)\<rparr>)"
| swap: "gate_pcs g i = Loaded current \<Longrightarrow> current < cap \<Longrightarrow> gate_in_flight g = current \<Longrightarrow>
     gate_step cap g (g\<lparr>gate_in_flight := current + 1, gate_pcs := (gate_pcs g)(i := Holding)\<rparr>)"
| swap_failed: "gate_pcs g i = Loaded current \<Longrightarrow> current < cap \<Longrightarrow>
     gate_step cap g (g\<lparr>gate_pcs := (gate_pcs g)(i := Loaded (gate_in_flight g))\<rparr>)"
| drop: "gate_pcs g i = Holding \<Longrightarrow>
     gate_step cap g (g\<lparr>gate_in_flight := gate_in_flight g - 1, gate_pcs := (gate_pcs g)(i := Idle)\<rparr>)"
| retry: "gate_pcs g i = Shed \<Longrightarrow> gate_step cap g (g\<lparr>gate_pcs := (gate_pcs g)(i := Idle)\<rparr>)"

inductive gate_reachable :: "nat \<Rightarrow> gate \<Rightarrow> bool" for cap where
  start: "gate_reachable cap gate_init"
| step: "gate_reachable cap g \<Longrightarrow> gate_step cap g g' \<Longrightarrow> gate_reachable cap g'"

definition gate_holders :: "gate \<Rightarrow> nat set" where
  "gate_holders g = {i. gate_pcs g i = Holding}"

lemma gate_holders_other [simp]:
  "gate_pcs g i \<noteq> Holding \<Longrightarrow> pc \<noteq> Holding \<Longrightarrow>
   gate_holders (g\<lparr>gate_pcs := (gate_pcs g)(i := pc)\<rparr>) = gate_holders g"
  by (auto simp: gate_holders_def)

lemma gate_holders_in_flight [simp]: "gate_holders (g\<lparr>gate_in_flight := n\<rparr>) = gate_holders g"
  by (simp add: gate_holders_def)

lemma gate_holders_both:
  "gate_holders (g\<lparr>gate_in_flight := n, gate_pcs := (gate_pcs g)(i := pc)\<rparr>) =
     (if pc = Holding then insert i (gate_holders g) else gate_holders g - {i})"
  by (auto simp: gate_holders_def)

definition gate_inv :: "nat \<Rightarrow> gate \<Rightarrow> bool" where
  "gate_inv cap g \<longleftrightarrow>
     finite (gate_holders g) \<and> gate_in_flight g = card (gate_holders g) \<and> gate_in_flight g \<le> cap"

lemma gate_step_inv: "gate_step cap g g' \<Longrightarrow> gate_inv cap g \<Longrightarrow> gate_inv cap g'"
proof (induction rule: gate_step.induct)
  case (swap g i current)
  then have "i \<notin> gate_holders g" by (simp add: gate_holders_def)
  with swap show ?case by (simp add: gate_inv_def gate_holders_both)
next
  case (drop g i)
  then have "i \<in> gate_holders g" by (simp add: gate_holders_def)
  with drop show ?case by (auto simp: gate_inv_def gate_holders_both card_Diff_singleton)
qed (simp_all add: gate_inv_def)

lemma gate_reachable_inv: "gate_reachable cap g \<Longrightarrow> gate_inv cap g"
proof (induction rule: gate_reachable.induct)
  case start
  show ?case by (simp add: gate_inv_def gate_init_def gate_holders_def)
next
  case (step g g')
  then show ?case by (blast intro: gate_step_inv)
qed

lemma rate_limiter_refines:
  assumes "sorted (map call_secs cs)" and "rl_per_ip_per_minute config < 2 ^ 32"
  shows "run_admits parse_ip show_ip (rate_limiter_new parse_ip config) cs =
         run_spec (partition_of parse_ip show_ip (rate_limiter_new parse_ip config)) call_segment
           (\<lambda>_. []) cs"
proof (rule run_admits_refines [where t = 0])
  show "sw.store_represents (lim_windows (rate_limiter_new parse_ip config)) (\<lambda>_. []) 0"
    using sw.store_empty by (simp add: rate_limiter_new_def)
  have "sorted (map call_segment cs)"
    using assms(1) by (auto simp: sorted_iff_nth_mono call_segment_def current_segment_def div_le_mono)
  then show "sorted (0 # map call_segment cs)" by simp
  show "lim_per_ip_per_minute (rate_limiter_new parse_ip config) < 2 ^ 32"
    using assms(2) by (simp add: rate_limiter_new_def)
qed

section \<open>Properties\<close>

text \<open>C3.  The limiter with its bucket arrays and its periodic sweep takes exactly the decisions of
  a limiter that keeps the full log of admitted requests per partition (API key or client IP) and
  admits a request when fewer than the limit fall in the trailing window of six segments.\<close>

theorem limiter_refines_log:
  assumes "sorted (map call_secs cs)" and "rl_per_ip_per_minute config < 2 ^ 32"
  shows "run_admits parse_ip show_ip (rate_limiter_new parse_ip config) cs =
         run_spec (partition_of parse_ip show_ip (rate_limiter_new parse_ip config)) call_segment
           (\<lambda>_. []) cs"
  using assms by (rule rate_limiter_refines)

definition demo_config :: rate_limit_config where
  "demo_config = \<lparr>rl_enabled = True, rl_require_api_key = False, rl_trusted_proxies = [],
     rl_per_ip_per_minute = 5, rl_global_concurrent_limit = 2, rl_global_queue_limit = 0,
     rl_key_tiers = [\<lparr>tier_name = ''capped'', tier_per_minute = 2, tier_keys = [''k'']\<rparr>]\<rparr>"

definition demo_call :: "nat \<Rightarrow> unit call" where
  "demo_call secs = \<lparr>call_secs = secs, call_key = Some ''k'', call_peer = None, call_forwarded_for = None\<rparr>"

lemma demo_calls_sorted: "sorted (map call_secs [demo_call 0, demo_call 9, demo_call 59, demo_call 60])"
  by (simp add: demo_call_def)

lemma demo_config_per_ip: "rl_per_ip_per_minute demo_config < 2 ^ 32"
  by (simp add: demo_config_def)

lemma demo_spec_run:
  "run_spec (partition_of (\<lambda>_. None) (\<lambda>_. []) (rate_limiter_new (\<lambda>_. None) demo_config)) call_segment
     (\<lambda>_. []) [demo_call 0, demo_call 9, demo_call 59, demo_call 60] = [True, True, False, True]"
proof -
  have "partition_of (\<lambda>_. None) (\<lambda>_. []) (rate_limiter_new (\<lambda>_. None) demo_config) (demo_call t) =
      Some (''apikey:k'', 2)" for t
    by (simp add: partition_of_def rate_limiter_new_def demo_config_def demo_call_def build_key_limits_def)
  moreover have "call_segment (demo_call t) = t div 10" for t
    by (simp add: call_segment_def current_segment_def demo_call_def window_consts)
  ultimately show ?thesis by (simp add: spec_admit_def log_admit_def trailing_def SEGMENTS_def)
qed

theorem limiter_refines_log_witness:
  "run_admits (\<lambda>_. None) (\<lambda>_. []) (rate_limiter_new (\<lambda>_. None) demo_config)
     [demo_call 0, demo_call 9, demo_call 59, demo_call 60] = [True, True, False, True]"
  using limiter_refines_log [OF demo_calls_sorted demo_config_per_ip, of "\<lambda>_. None" "\<lambda>_. []"] demo_spec_run
  by simp

text \<open>C10.  A capped API key is never admitted more often than its tier allows in any window of six
  consecutive segments, whatever other traffic, sweeps and rejections are interleaved.\<close>

theorem key_limit_enforced:
  assumes "sorted (map call_secs cs)" and "rl_per_ip_per_minute config < 2 ^ 32"
    and "build_key_limits (rl_key_tiers config) k = Some n" and "0 < n" and "n < 2 ^ 32"
  shows "length (filter (\<lambda>(c, ok). ok \<and> call_key c = Some k \<and> call_segment c \<le> s
                    \<and> s < call_segment c + SEGMENTS)
           (zip cs (run_admits parse_ip show_ip (rate_limiter_new parse_ip config) cs))) \<le> nat n"
proof -
  let ?lim = "rate_limiter_new parse_ip config"
  let ?p = "''apikey:'' @ k"
  let ?t = "partition_of parse_ip show_ip ?lim"
  have key: "lim_key_limits ?lim = build_key_limits (rl_key_tiers config)"
    by (simp add: rate_limiter_new_def)
  have n: "nat n mod 2 ^ 32 = nat n" using assms(4,5) by simp
  have target: "call_key c = Some k \<Longrightarrow> ?t c = Some (?p, nat n)" for c
    using assms(3,4) n by (simp add: partition_of_def key)
  have only: "l = nat n" if "?t c = Some (?p, l)" for c l
    using that assms(3) n by (auto simp: partition_of_def key bind_eq_Some_conv split: option.splits if_splits)
  have sorted: "sorted (map call_segment cs)"
    using assms(1) by (auto simp: sorted_iff_nth_mono call_segment_def current_segment_def div_le_mono)
  let ?rs = "zip cs (run_admits parse_ip show_ip ?lim cs)"
  have "admitted_in_window ?t call_segment ?p s (zip cs (run_spec ?t call_segment (\<lambda>_. []) cs))
      + window_count [] s \<le> nat n"
    by (rule run_spec_bounded [OF sorted]) (use only in \<open>simp_all add: window_count_def\<close>)
  then have "admitted_in_window ?t call_segment ?p s ?rs \<le> nat n"
    using rate_limiter_refines [OF assms(1,2), of parse_ip show_ip] by simp
  moreover have "length (filter (\<lambda>(c, ok). ok \<and> call_key c = Some k \<and> call_segment c \<le> s
      \<and> s < call_segment c + SEGMENTS) ?rs) \<le> admitted_in_window ?t call_segment ?p s ?rs"
    unfolding admitted_in_window_def
  proof (rule length_filter_mono)
    fix x :: "'a call \<times> bool"
    assume "case x of (c, ok) \<Rightarrow> ok \<and> call_key c = Some k \<and> call_segment c \<le> s
      \<and> s < call_segment c + SEGMENTS"
    then show "case x of (c, ok) \<Rightarrow> ok \<and> map_option fst (?t c) = Some ?p
      \<and> call_segment c \<le> s \<and> s \<le> call_segment c + (SEGMENTS - 1)"
      by (cases x) (simp add: target SEGMENTS_def)
  qed
  ultimately show ?thesis by simp
qed

lemma demo_config_key: "build_key_limits (rl_key_tiers demo_config) ''k'' = Some 2"
  by (simp add: demo_config_def build_key_limits_def)

theorem key_limit_enforced_witness:
  "length (filter (\<lambda>(c, ok). ok \<and> call_key c = Some ''k'' \<and> call_segment c \<le> 5
             \<and> 5 < call_segment c + SEGMENTS)
     (zip [demo_call 0, demo_call 9, demo_call 59, demo_call 60]
        (run_admits (\<lambda>_. None) (\<lambda>_. []) (rate_limiter_new (\<lambda>_. None) demo_config)
           [demo_call 0, demo_call 9, demo_call 59, demo_call 60]))) \<le> 2"
  using key_limit_enforced [OF demo_calls_sorted demo_config_per_ip demo_config_key,
      of 5 "\<lambda>_. None" "\<lambda>_. []"] by simp

text \<open>C11.  The cap on requests in flight holds under every interleaving of the compare-and-swap
  loops and guard drops: the counter is the number of guards alive and never exceeds capacity.\<close>

theorem in_flight_gate_safe:
  assumes "gate_reachable cap g"
  shows "finite (gate_holders g) \<and> gate_in_flight g = card (gate_holders g)
         \<and> card (gate_holders g) \<le> cap"
  using gate_reachable_inv [OF assms] by (simp add: gate_inv_def)

definition gate_after_swap :: gate where
  "gate_after_swap = \<lparr>gate_in_flight = 1, gate_pcs = (\<lambda>_. Idle)(0 := Holding)\<rparr>"

lemma gate_after_swap_reachable: "gate_reachable 1 gate_after_swap"
proof -
  let ?l = "gate_init\<lparr>gate_pcs := (gate_pcs gate_init)(0 := Loaded (gate_in_flight gate_init))\<rparr>"
  have "gate_step 1 gate_init ?l" by (rule gate_step.load) (simp add: gate_init_def)
  then have l: "gate_reachable 1 ?l" by (rule gate_reachable.step [OF gate_reachable.start])
  have "gate_step 1 ?l (?l\<lparr>gate_in_flight := 0 + 1, gate_pcs := (gate_pcs ?l)(0 := Holding)\<rparr>)"
    by (rule gate_step.swap) (auto simp: gate_init_def)
  moreover have "?l\<lparr>gate_in_flight := 0 + 1, gate_pcs := (gate_pcs ?l)(0 := Holding)\<rparr> = gate_after_swap"
    by (simp add: gate_init_def gate_after_swap_def)
  ultimately show ?thesis using l gate_reachable.step by metis
qed

theorem in_flight_gate_safe_witness:
  "gate_in_flight gate_after_swap = card (gate_holders gate_after_swap) \<and> card (gate_holders gate_after_swap) \<le> 1"
  using in_flight_gate_safe [OF gate_after_swap_reachable] by simp

lemma first_untrusted_hop_append:
  "first_untrusted_hop parse_ip trusted (hs @ hs') =
     or_else (first_untrusted_hop parse_ip trusted hs) (first_untrusted_hop parse_ip trusted hs')"
  by (induction hs) (auto split: option.splits)

lemma first_untrusted_hop_untrusted:
  "first_untrusted_hop parse_ip trusted hs = Some ip \<Longrightarrow> ip \<notin> set trusted"
  by (induction hs) (auto split: option.splits if_splits)

lemma split_on_append_sep: "split_on c (s @ c # t) = split_on c s @ split_on c t"
  by (induction s) (auto split: list.splits)


definition demo_proxied :: "string limiter" where
  "demo_proxied = rate_limiter_new Some (demo_config\<lparr>rl_trusted_proxies := [''10.0.0.1'']\<rparr>)"

lemma demo_proxied_hop:
  "first_untrusted_hop Some (lim_trusted_proxies demo_proxied) (rev (split_on (CHR '','') ''203.0.113.7'')) =
   Some ''203.0.113.7''"
proof -
  have "trim ''10.0.0.1'' = ''10.0.0.1''" and hop: "trim ''203.0.113.7'' = ''203.0.113.7''"
    by (simp_all add: trim_visible visible_ascii_def)
  then have "lim_trusted_proxies demo_proxied = [''10.0.0.1'']"
    by (simp add: demo_proxied_def rate_limiter_new_def List.map_filter_simps)
  moreover have "rev (split_on (CHR '','') ''203.0.113.7'') = [''203.0.113.7'']" by simp
  ultimately show ?thesis by (simp only: hop) (simp add: hop)
qed


lemma middleware_decide_cases:
  assumes "middleware_decide parse_ip show_ip lim secs req = (lim', d)"
  shows "same_config lim lim'
    \<and> (d = Bypass \<longrightarrow> lim' = lim)
    \<and> (d = Enter \<longrightarrow> lim_in_flight lim' = lim_in_flight lim + 1 \<and> lim_in_flight lim' \<le> lim_capacity lim)
    \<and> (d \<noteq> Enter \<longrightarrow> lim_in_flight lim' = lim_in_flight lim)
    \<and> (\<forall>e. d = Reject e \<longrightarrow> e = Unauthorized ''API key required'' \<and> lim' = lim \<or> e = RateLimited 60)"
proof -
  obtain l ok where a: "admit parse_ip show_ip lim secs (req_api_key req) (req_peer req)
      (req_forwarded_for req) = (l, ok)" by fastforce
  note c = admit_config [OF a]
  then have "same_config lim l" "lim_in_flight l = lim_in_flight lim" "lim_capacity l = lim_capacity lim"
    by (auto simp: same_config_def)
  with assms a show ?thesis
    by (auto simp: middleware_decide_def try_enter_def same_config_def RETRY_AFTER_SECONDS_def
        WINDOW_SECONDS_def split: if_splits option.splits)
qed

lemma middleware_unauthorized:
  "lim_enabled lim \<Longrightarrow> \<not> req_is_options req \<Longrightarrow> \<not> is_exempt_path (req_path req) \<Longrightarrow>
   lim_require_api_key lim \<Longrightarrow> Option.bind (req_api_key req) (lim_key_limits lim) = None \<Longrightarrow>
   middleware_decide parse_ip show_ip lim secs req = (lim, Reject (Unauthorized ''API key required''))"
  by (cases "req_api_key req") (auto simp: middleware_decide_def)


definition demo_request :: "unit request" where
  "demo_request = \<lparr>req_is_options = False, req_path = ''/api/v1/blocks'', req_api_key = None,
     req_peer = None, req_forwarded_for = None\<rparr>"

definition demo_keys_only :: "unit limiter" where
  "demo_keys_only = rate_limiter_new (\<lambda>_. None) (demo_config\<lparr>rl_require_api_key := True\<rparr>)"

lemma demo_keys_only_run:
  "rate_limit_middleware (\<lambda>_. None) (\<lambda>_. []) (\<lambda>_. into_response (NotFound [])) demo_keys_only 0 demo_request =
   (demo_keys_only, into_response (Unauthorized ''API key required''))"
  by (simp add: rate_limit_middleware_def middleware_decide_def demo_keys_only_def demo_request_def
      rate_limiter_new_def demo_config_def is_exempt_path_def)


text \<open>The cast of a tier's limit to 32 bits: a configured limit that is a multiple of \<open>2 ^ 32\<close>
  becomes zero, so every request with that key is refused although the tier is not capped at
  zero.\<close>

theorem key_limit_cast_truncates:
  assumes "lim_key_limits lim k = Some (int (m * 2 ^ 32))" and "0 < m"
  shows "snd (admit parse_ip show_ip lim secs (Some k) peer xff) = False"
proof -
  have "nat (int (m * 2 ^ 32)) mod 2 ^ 32 = 0" by (simp only: nat_int mod_mult_self2_is_0)
  moreover have "snd (try_admit w now 0) = False" for w now
    by (simp add: try_admit_def Let_def split: prod.splits)
  ultimately show ?thesis
    using assms by (simp add: admit_def admit_partition_def Let_def case_prod_beta)
qed

definition demo_huge :: "unit limiter" where
  "demo_huge = (rate_limiter_new (\<lambda>_. None) demo_config)\<lparr>lim_key_limits := [''k'' \<mapsto> 4294967296]\<rparr>"

theorem key_limit_cast_truncates_witness:
  "snd (admit (\<lambda>_. None) (\<lambda>_. []) demo_huge 0 (Some ''k'') None None) = False"
proof -
  have "lim_key_limits demo_huge ''k'' = Some (int (1 * 2 ^ 32))" by (simp add: demo_huge_def)
  from key_limit_cast_truncates [OF this] show ?thesis by simp
qed

end
