(* ===== verification/Stake_Snapshot.thy ===== *)
theory Stake_Snapshot
  imports Domain
begin

text \<open>
  The Soul-Masters projector (\<open>src/crates/db/src/staking.rs\<close>): the per-address stake state, the
  replay of stake events transaction by transaction in both directions, the daily curve, and the
  resumable forward projection.

  \<open>BigInt\<close> is \<open>int\<close>; the \<open>HashMap\<close> of stakes is a map; an event row is the record the SQL loader
  returns (the loader's row conversion is modelled, its \<open>SELECT\<close> is not).  The replay functions
  of the source return \<open>Ok\<close> on every path, so the model returns the state and the anomaly
  collector directly.
\<close>

section \<open>State, rows and anomalies\<close>

definition STAKE_SNAPSHOT_SECONDS_PER_DAY :: int where "STAKE_SNAPSHOT_SECONDS_PER_DAY = 86400"
definition STAKE_SNAPSHOT_MASTER_THRESHOLD_RAW :: int where
  "STAKE_SNAPSHOT_MASTER_THRESHOLD_RAW = 5000000000000"
definition LEGACY_BACKFILL_PAYLOAD_FORMAT :: int where "LEGACY_BACKFILL_PAYLOAD_FORMAT = 1"

record stake_state =
  stakes_by_address :: "string \<rightharpoonup> int"
  total_staked_raw :: int
  soul_supply_raw :: int
  stakers_count :: int
  masters_count :: int

record stake_row =
  row_event_id :: int
  row_tx_id :: int
  row_kind :: string
  row_timestamp :: int
  row_payload_identity :: string
  row_payload_format :: int
  row_token_symbol :: "string option"
  row_value_raw :: "int option"
  row_address :: "string option"
  row_market_quote_symbol :: "string option"
  row_has_stake_call :: bool
  row_has_unstake_call :: bool
  row_has_claim_call :: bool
  row_inflation_delta :: "int option"

record daily_point =
  point_date :: int
  point_staked_soul_raw :: string
  point_soul_supply_raw :: string
  point_stakers_count :: int
  point_masters_count :: int
  point_captured_at :: int

datatype tx_kind = Normal | MarketEvent | SmReward | StakeReward

record anomalies =
  anomaly_count :: nat
  anomaly_samples :: "string list"

definition no_anomalies :: anomalies where
  "no_anomalies = \<lparr>anomaly_count = 0, anomaly_samples = []\<rparr>"

definition MAX_SAMPLES :: nat where "MAX_SAMPLES = 5"

definition record_anomaly :: "string \<Rightarrow> anomalies \<Rightarrow> anomalies" where
  "record_anomaly reason an =
     \<lparr>anomaly_count = saturating_add 32 (anomaly_count an) 1,
      anomaly_samples = (if length (anomaly_samples an) < MAX_SAMPLES
                         then anomaly_samples an @ [reason] else anomaly_samples an)\<rparr>"

definition anomalies_is_empty :: "anomalies \<Rightarrow> bool" where
  "anomalies_is_empty an \<longleftrightarrow> anomaly_count an = 0"

section \<open>Applying one transaction\<close>

definition is_soul :: "string option \<Rightarrow> bool" where
  "is_soul symbol = (case symbol of None \<Rightarrow> False | Some s \<Rightarrow> eq_ignore_ascii_case s ''SOUL'')"

definition classify_stake_snapshot_transaction :: "stake_row list \<Rightarrow> tx_kind" where
  "classify_stake_snapshot_transaction rows =
     (let has_stake_call = list_ex row_has_stake_call rows;
          has_unstake_call = list_ex row_has_unstake_call rows;
          has_claim_call = list_ex row_has_claim_call rows
      in if list_ex (\<lambda>row. row_kind row = ''TokenMint'' \<and> is_soul (row_token_symbol row)) rows
         then SmReward
         else if has_claim_call \<and> \<not> has_stake_call \<and> \<not> has_unstake_call then StakeReward
         else if list_ex (\<lambda>row. is_soul (row_market_quote_symbol row)) rows then MarketEvent
         else Normal)"

text \<open>\<open>apply_stake_snapshot_stake_delta\<close>: a row without a usable address is skipped and recorded;
  an impossible negative stake is clamped to zero and recorded.\<close>

definition usable_row_address :: "stake_row \<Rightarrow> string option" where
  "usable_row_address row = filter_option (\<lambda>a. trim a \<noteq> []) (row_address row)"

definition stake_snapshot_master_threshold :: int where
  "stake_snapshot_master_threshold = STAKE_SNAPSHOT_MASTER_THRESHOLD_RAW"

definition apply_stake_delta ::
    "stake_row \<Rightarrow> int \<Rightarrow> stake_state \<Rightarrow> anomalies \<Rightarrow> stake_state \<times> anomalies" where
  "apply_stake_delta row delta st an =
     (case usable_row_address row of
        None \<Rightarrow> (st, record_anomaly (''empty address in staking event '' @ show_int (row_event_id row)) an)
      | Some address \<Rightarrow>
          (let old_value = unwrap_or (stakes_by_address st address) 0;
               sum_value = old_value + delta;
               an = (if sum_value < 0
                     then record_anomaly (''negative staked amount for address '' @ address
                            @ '' at event '' @ show_int (row_event_id row) @ '': ''
                            @ show_int old_value @ '' + '' @ show_int delta @ '' clamped to 0'') an
                     else an);
               new_value = (if sum_value < 0 then 0 else sum_value);
               was_staker = (0 < old_value);
               is_staker = (0 < new_value);
               was_master = (stake_snapshot_master_threshold \<le> old_value);
               is_master = (stake_snapshot_master_threshold \<le> new_value);
               sum_total = total_staked_raw st + (new_value - old_value);
               an = (if sum_total < 0
                     then record_anomaly (''negative total staked amount at event ''
                            @ show_int (row_event_id row) @ '' clamped to 0'') an
                     else an)
           in (st\<lparr>stakers_count := stakers_count st
                     + (if was_staker \<noteq> is_staker then if is_staker then 1 else -1 else 0),
                  masters_count := masters_count st
                     + (if was_master \<noteq> is_master then if is_master then 1 else -1 else 0),
                  total_staked_raw := (if sum_total < 0 then 0 else sum_total),
                  stakes_by_address := (stakes_by_address st)
                     (address := (if new_value = 0 then None else Some new_value))\<rparr>, an)))"

text \<open>The supply side of a mint or burn: the transaction's inflation result, if it has one, is
  applied once and replaces the rows' own values.\<close>

definition supply_change :: "int option \<Rightarrow> bool \<Rightarrow> int \<Rightarrow> int" where
  "supply_change inflation applied value_raw =
     (case inflation of None \<Rightarrow> value_raw | Some delta \<Rightarrow> if applied then 0 else delta)"

definition clamp_supply ::
    "bool \<Rightarrow> stake_row \<Rightarrow> stake_state \<Rightarrow> anomalies \<Rightarrow> stake_state \<times> anomalies" where
  "clamp_supply reverse row st an =
     (if soul_supply_raw st < 0
      then (st\<lparr>soul_supply_raw := 0\<rparr>,
            record_anomaly (''negative SOUL supply after '' @ (if reverse then ''reverse'' else ''forward'')
              @ '' event '' @ show_int (row_event_id row) @ '' clamped to 0'') an)
      else (st, an))"

text \<open>One row of the loop of \<open>apply_stake_snapshot_transaction\<close>; the flag says whether the
  inflation result has been applied.\<close>

definition apply_row ::
    "tx_kind \<Rightarrow> int option \<Rightarrow> bool \<Rightarrow> stake_row \<Rightarrow> bool \<times> stake_state \<times> anomalies \<Rightarrow>
     bool \<times> stake_state \<times> anomalies" where
  "apply_row kind inflation reverse row acc =
     (case acc of (applied, st, an) \<Rightarrow>
       if row_kind row \<notin> {''TokenStake'', ''TokenClaim'', ''TokenMint'', ''TokenBurn''} then acc
       else case row_value_raw row of
         None \<Rightarrow> acc
       | Some value_raw \<Rightarrow>
           if \<not> is_soul (row_token_symbol row) then acc
           else if value_raw \<le> 0 then acc
           else if kind \<noteq> Normal \<and> row_kind row \<in> {''TokenStake'', ''TokenClaim''} then acc
           else if row_kind row = ''TokenStake'' \<and> \<not> reverse \<or> row_kind row = ''TokenClaim'' \<and> reverse
           then (applied, apply_stake_delta row value_raw st an)
           else if row_kind row = ''TokenStake'' \<and> reverse \<or> row_kind row = ''TokenClaim'' \<and> \<not> reverse
           then (applied, apply_stake_delta row (- value_raw) st an)
           else if row_kind row = ''TokenMint'' \<and> \<not> reverse \<or> row_kind row = ''TokenBurn'' \<and> reverse
           then (applied \<or> inflation \<noteq> None,
                 st\<lparr>soul_supply_raw := soul_supply_raw st + supply_change inflation applied value_raw\<rparr>, an)
           else (applied \<or> inflation \<noteq> None,
                 clamp_supply reverse row
                   (st\<lparr>soul_supply_raw := soul_supply_raw st - supply_change inflation applied value_raw\<rparr>) an))"

fun find_map :: "('a \<Rightarrow> 'b option) \<Rightarrow> 'a list \<Rightarrow> 'b option" where
  "find_map f [] = None"
| "find_map f (x # xs) = (case f x of None \<Rightarrow> find_map f xs | Some y \<Rightarrow> Some y)"

definition apply_stake_snapshot_transaction ::
    "stake_row list \<Rightarrow> bool \<Rightarrow> stake_state \<Rightarrow> anomalies \<Rightarrow> stake_state \<times> anomalies" where
  "apply_stake_snapshot_transaction rows reverse st an =
     snd (fold (apply_row (classify_stake_snapshot_transaction rows)
                 (find_map row_inflation_delta rows) reverse) rows (False, st, an))"

text \<open>\<open>deduplicate_stake_snapshot_tx_rows\<close>: only rows of the legacy backfill are collapsed.\<close>

definition dedup_key :: "stake_row \<Rightarrow> string" where
  "dedup_key row = row_kind row @ ''|'' @ row_payload_identity row @ ''|'' @ unwrap_or (row_address row) ''''"

fun dedup_rows :: "string set \<Rightarrow> stake_row list \<Rightarrow> stake_row list" where
  "dedup_rows seen [] = []"
| "dedup_rows seen (row # rows) =
     (if row_payload_format row \<noteq> LEGACY_BACKFILL_PAYLOAD_FORMAT then row # dedup_rows seen rows
      else if dedup_key row \<in> seen then dedup_rows seen rows
      else row # dedup_rows (insert (dedup_key row) seen) rows)"

definition deduplicate_stake_snapshot_tx_rows :: "stake_row list \<Rightarrow> stake_row list" where
  "deduplicate_stake_snapshot_tx_rows rows = dedup_rows {} rows"

section \<open>Replaying event rows\<close>

definition stake_snapshot_day_start :: "int \<Rightarrow> int" where
  "stake_snapshot_day_start unix_seconds = unix_seconds - unix_seconds mod STAKE_SNAPSHOT_SECONDS_PER_DAY"

definition stake_snapshot_day_end :: "int \<Rightarrow> int" where
  "stake_snapshot_day_end day_start = day_start + STAKE_SNAPSHOT_SECONDS_PER_DAY - 1"

text \<open>The inner loop of the forward build: whole transactions up to the end of the day.\<close>

function apply_day ::
    "int \<Rightarrow> stake_row list \<Rightarrow> stake_state \<Rightarrow> anomalies \<Rightarrow> stake_row list \<times> stake_state \<times> anomalies" where
  "apply_day day_end [] st an = ([], st, an)"
| "apply_day day_end (row # rows) st an =
     (if day_end < row_timestamp row then (row # rows, st, an)
      else let tx_rows = deduplicate_stake_snapshot_tx_rows
                 (row # takeWhile (\<lambda>r. row_tx_id r = row_tx_id row) rows);
               (st', an') = apply_stake_snapshot_transaction tx_rows False st an
           in apply_day day_end (dropWhile (\<lambda>r. row_tx_id r = row_tx_id row) rows) st' an')"
  by pat_completeness auto
termination
  by (relation "measure (\<lambda>(d, rows, st, an). length rows)") (auto simp: le_imp_less_Suc length_dropWhile_le)

definition daily_point_of :: "int \<Rightarrow> stake_state \<Rightarrow> daily_point" where
  "daily_point_of day st =
     \<lparr>point_date = day, point_staked_soul_raw = show_int (total_staked_raw st),
      point_soul_supply_raw = show_int (soul_supply_raw st), point_stakers_count = stakers_count st,
      point_masters_count = masters_count st, point_captured_at = stake_snapshot_day_end day\<rparr>"

text \<open>The outer loop: one point per day; the state at the penultimate day is the resume anchor.\<close>

function build_days ::
    "int \<Rightarrow> int \<Rightarrow> stake_row list \<Rightarrow> stake_state \<Rightarrow> (int \<times> stake_state) option \<Rightarrow> anomalies \<Rightarrow>
     daily_point list \<times> (int \<times> stake_state) option \<times> anomalies" where
  "build_days day to_exclusive_day rows st closed an =
     (if day < to_exclusive_day
      then let (rows', st', an') = apply_day (stake_snapshot_day_end day) rows st an;
               closed' = (if day + 2 * STAKE_SNAPSHOT_SECONDS_PER_DAY = to_exclusive_day
                          then Some (day, st') else closed);
               (points, result) =
                 build_days (day + STAKE_SNAPSHOT_SECONDS_PER_DAY) to_exclusive_day rows' st' closed' an'
           in (daily_point_of day st' # points, result)
      else ([], closed, an))"
  by pat_completeness auto
termination
  by (relation "measure (\<lambda>(day, to_day, _). nat (to_day - day))")
     (auto simp: STAKE_SNAPSHOT_SECONDS_PER_DAY_def)

declare build_days.simps [simp del]

definition build_stake_snapshot_daily_points ::
    "stake_state \<Rightarrow> stake_row list \<Rightarrow> int \<Rightarrow> int \<Rightarrow> anomalies \<Rightarrow>
     daily_point list \<times> (int \<times> stake_state) option \<times> anomalies" where
  "build_stake_snapshot_daily_points st rows from_day to_exclusive_day an =
     build_days from_day to_exclusive_day rows st None an"

text \<open>\<open>reverse_replay_stake_snapshot_events\<close> takes transactions from the end; inside one
  transaction the rows keep their order.  The argument is the row list reversed.\<close>

function reverse_replay ::
    "stake_row list \<Rightarrow> stake_state \<Rightarrow> anomalies \<Rightarrow> stake_state \<times> anomalies" where
  "reverse_replay [] st an = (st, an)"
| "reverse_replay (row # rows) st an =
     (let tx_rows = deduplicate_stake_snapshot_tx_rows
            (rev (row # takeWhile (\<lambda>r. row_tx_id r = row_tx_id row) rows));
          (st', an') = apply_stake_snapshot_transaction tx_rows True st an
      in reverse_replay (dropWhile (\<lambda>r. row_tx_id r = row_tx_id row) rows) st' an')"
  by pat_completeness auto
termination
  by (relation "measure (\<lambda>(rows, st, an). length rows)") (auto simp: le_imp_less_Suc length_dropWhile_le)

definition reverse_replay_stake_snapshot_events ::
    "stake_row list \<Rightarrow> stake_state \<Rightarrow> anomalies \<Rightarrow> stake_state \<times> anomalies" where
  "reverse_replay_stake_snapshot_events rows st an = reverse_replay (rev rows) st an"

section \<open>The state invariant\<close>

text \<open>The counters are the ones of the map: the total is the sum of all stakes, the staker and
  master counts are the sizes of the respective sets of addresses, and only positive stakes are
  stored.\<close>

definition amount :: "(string \<rightharpoonup> int) \<Rightarrow> string \<Rightarrow> int" where
  "amount m a = unwrap_or (m a) 0"

definition masters :: "(string \<rightharpoonup> int) \<Rightarrow> string set" where
  "masters m = {a. stake_snapshot_master_threshold \<le> amount m a}"

definition stake_inv :: "stake_state \<Rightarrow> bool" where
  "stake_inv st \<longleftrightarrow>
     finite (dom (stakes_by_address st))
     \<and> (\<forall>v\<in>ran (stakes_by_address st). 0 < v)
     \<and> total_staked_raw st = (\<Sum>a\<in>dom (stakes_by_address st). amount (stakes_by_address st) a)
     \<and> stakers_count st = int (card (dom (stakes_by_address st)))
     \<and> masters_count st = int (card (masters (stakes_by_address st)))"

lemma threshold_pos: "0 < stake_snapshot_master_threshold"
  by (simp add: stake_snapshot_master_threshold_def STAKE_SNAPSHOT_MASTER_THRESHOLD_RAW_def)

lemma amount_outside: "a \<notin> dom m \<Longrightarrow> amount m a = 0"
  by (simp add: amount_def domIff)

lemma masters_subset: "masters m \<subseteq> dom m"
  using threshold_pos by (auto simp: masters_def amount_def unwrap_or_def split: option.splits)

definition set_stake :: "(string \<rightharpoonup> int) \<Rightarrow> string \<Rightarrow> int \<Rightarrow> (string \<rightharpoonup> int)" where
  "set_stake m a v = m(a := (if v = 0 then None else Some v))"

lemma amount_set_stake: "amount (set_stake m a v) b = (if b = a then v else amount m b)"
  by (simp add: amount_def set_stake_def)

lemma dom_set_stake: "dom (set_stake m a v) = (if v = 0 then dom m - {a} else insert a (dom m))"
  by (auto simp: set_stake_def)

lemma masters_set_stake:
  "masters (set_stake m a v) =
     (if stake_snapshot_master_threshold \<le> v then insert a (masters m) else masters m - {a})"
  by (auto simp: masters_def amount_set_stake split: if_splits)

lemma sum_amount_superset:
  "finite A \<Longrightarrow> dom m \<subseteq> A \<Longrightarrow> (\<Sum>a\<in>A. amount m a) = (\<Sum>a\<in>dom m. amount m a)"
  by (rule sum.mono_neutral_right) (auto simp: amount_outside)

lemma sum_set_stake:
  assumes "finite (dom m)"
  shows "(\<Sum>b\<in>dom (set_stake m a v). amount (set_stake m a v) b)
         = (\<Sum>b\<in>dom m. amount m b) + (v - amount m a)"
proof -
  let ?A = "insert a (dom m)"
  have "(\<Sum>b\<in>dom (set_stake m a v). amount (set_stake m a v) b) = (\<Sum>b\<in>?A. amount (set_stake m a v) b)"
    using assms by (intro sum_amount_superset [symmetric]) (auto simp: dom_set_stake)
  also have "\<dots> = v + (\<Sum>b\<in>dom m - {a}. amount m b)"
    using assms by (simp add: sum.insert_remove amount_set_stake)
  also have "\<dots> = (\<Sum>b\<in>?A. amount m b) + (v - amount m a)"
    using assms by (simp add: sum.insert_remove)
  also have "(\<Sum>b\<in>?A. amount m b) = (\<Sum>b\<in>dom m. amount m b)"
    using assms by (intro sum_amount_superset) auto
  finally show ?thesis .
qed

lemma stake_inv_amount_nonneg: "stake_inv st \<Longrightarrow> 0 \<le> amount (stakes_by_address st) a"
  by (auto simp: stake_inv_def amount_def unwrap_or_def ran_def split: option.splits intro: less_imp_le)

lemma stake_inv_dom_pos: "stake_inv st \<Longrightarrow> a \<in> dom (stakes_by_address st) \<longleftrightarrow> 0 < amount (stakes_by_address st) a"
  by (auto simp: stake_inv_def amount_def unwrap_or_def ran_def split: option.splits)

lemma stake_inv_total_nonneg: "stake_inv st \<Longrightarrow> 0 \<le> total_staked_raw st"
  by (metis stake_inv_amount_nonneg stake_inv_def sum_nonneg)

lemma card_toggle:
  assumes "finite A"
  shows "int (card (if p then insert a A else A - {a})) =
         int (card A) + (if (a \<in> A) \<noteq> p then if p then 1 else -1 else 0)"
proof (cases "a \<in> A")
  case True
  with assms have "0 < card A" by (auto simp: card_gt_0_iff)
  with True show ?thesis by (simp add: insert_absorb of_nat_diff)
next
  case False
  with assms show ?thesis by simp
qed

text \<open>The meaning of one stake change under the invariant: the stake of the address is the clamped
  sum, every counter follows, the supply is untouched, and the clamp of the total never fires.\<close>

lemma apply_stake_delta_char:
  fixes delta :: int
  assumes inv: "stake_inv st" and addr: "usable_row_address row = Some a"
  defines "m \<equiv> stakes_by_address st"
  defines "v \<equiv> max 0 (amount m a + delta)"
  shows "fst (apply_stake_delta row delta st an) =
     st\<lparr>stakes_by_address := set_stake m a v,
        total_staked_raw := (\<Sum>b\<in>dom (set_stake m a v). amount (set_stake m a v) b),
        stakers_count := int (card (dom (set_stake m a v))),
        masters_count := int (card (masters (set_stake m a v)))\<rparr>"
proof -
  from inv have fin: "finite (dom m)" "finite (masters m)"
    using finite_subset [OF masters_subset] by (auto simp: stake_inv_def m_def)
  have old: "unwrap_or (m a) 0 = amount m a" by (simp add: amount_def)
  have old0: "0 \<le> amount m a" using stake_inv_amount_nonneg [OF inv] by (simp add: m_def)
  have tot: "total_staked_raw st + (v - amount m a) = (\<Sum>b\<in>dom (set_stake m a v). amount (set_stake m a v) b)"
    using inv fin sum_set_stake [of m a v] by (simp add: stake_inv_def m_def)
  moreover have "0 \<le> (\<Sum>b\<in>dom (set_stake m a v). amount (set_stake m a v) b)"
    using stake_inv_amount_nonneg [OF inv] by (intro sum_nonneg) (auto simp: amount_set_stake v_def m_def)
  ultimately have tot0: "\<not> (\<Sum>b\<in>dom (set_stake m a v). amount (set_stake m a v) b) < 0" by simp
  have v: "(if amount m a + delta < 0 then 0 else amount m a + delta) = v" by (auto simp: v_def)
  have stk: "int (card (dom (set_stake m a v))) = stakers_count st
      + (if (0 < amount m a) \<noteq> (0 < v) then if 0 < v then 1 else -1 else 0)"
  proof -
    have "dom (set_stake m a v) = (if 0 < v then insert a (dom m) else dom m - {a})"
      by (auto simp: dom_set_stake v_def)
    then show ?thesis
      using inv card_toggle [OF fin(1), of "0 < v" a] stake_inv_dom_pos [OF inv, of a]
      by (simp add: stake_inv_def m_def)
  qed
  have mst: "int (card (masters (set_stake m a v))) = masters_count st
      + (if (stake_snapshot_master_threshold \<le> amount m a) \<noteq> (stake_snapshot_master_threshold \<le> v)
         then if stake_snapshot_master_threshold \<le> v then 1 else -1 else 0)"
    using inv card_toggle [OF fin(2), of "stake_snapshot_master_threshold \<le> v" a]
    by (simp add: masters_set_stake stake_inv_def m_def [symmetric]) (simp add: masters_def)
  show ?thesis
    unfolding apply_stake_delta_def Let_def
    by (simp only: addr option.case m_def [symmetric] old v tot0 fst_conv if_False
          set_stake_def [symmetric] tot stk mst)
       (rule stake_state.equality, simp_all split del: if_split)
qed

lemma stake_inv_set_stake:
  assumes "stake_inv st" and "0 \<le> v"
  shows "stake_inv (st\<lparr>stakes_by_address := set_stake (stakes_by_address st) a v,
     total_staked_raw := (\<Sum>b\<in>dom (set_stake (stakes_by_address st) a v). amount (set_stake (stakes_by_address st) a v) b),
     stakers_count := int (card (dom (set_stake (stakes_by_address st) a v))),
     masters_count := int (card (masters (set_stake (stakes_by_address st) a v)))\<rparr>)"
  using assms by (auto simp: stake_inv_def dom_set_stake) (auto simp: set_stake_def ran_def split: if_splits)

lemma apply_stake_delta_inv:
  assumes "stake_inv st"
  shows "stake_inv (fst (apply_stake_delta row delta st an))"
proof (cases "usable_row_address row")
  case None
  with assms show ?thesis by (simp add: apply_stake_delta_def)
next
  case (Some a)
  show ?thesis
    unfolding apply_stake_delta_char [OF assms Some] by (rule stake_inv_set_stake [OF assms]) simp
qed

lemma stake_inv_supply [simp]: "stake_inv (st\<lparr>soul_supply_raw := s\<rparr>) = stake_inv st"
  by (simp add: stake_inv_def)

lemma apply_row_inv:
  "stake_inv (fst (snd acc)) \<Longrightarrow> stake_inv (fst (snd (apply_row kind infl rev' row acc)))"
  by (cases acc) (auto simp: apply_row_def clamp_supply_def apply_stake_delta_inv split: option.splits)

lemma fold_apply_row_inv:
  "stake_inv (fst (snd acc)) \<Longrightarrow> stake_inv (fst (snd (fold (apply_row kind infl rev') rows acc)))"
  by (induction rows arbitrary: acc) (auto simp: apply_row_inv)

lemma apply_transaction_inv:
  "stake_inv st \<Longrightarrow> stake_inv (fst (apply_stake_snapshot_transaction rows rev' st an))"
  by (simp add: apply_stake_snapshot_transaction_def fold_apply_row_inv)


section \<open>Replay by transaction groups\<close>

text \<open>Both replay loops walk maximal runs of rows with one transaction id.\<close>

definition same_tx :: "stake_row \<Rightarrow> stake_row \<Rightarrow> bool" where
  "same_tx row = (\<lambda>r. row_tx_id r = row_tx_id row)"

lemma same_tx_refl [simp]: "same_tx row row"
  by (simp add: same_tx_def)

lemma same_tx_cong: "same_tx row r \<Longrightarrow> same_tx row = same_tx r"
  by (simp add: same_tx_def)

lemma same_tx_iff: "same_tx row r \<longleftrightarrow> row_tx_id r = row_tx_id row"
  by (simp add: same_tx_def)

function tx_groups :: "stake_row list \<Rightarrow> stake_row list list" where
  "tx_groups [] = []"
| "tx_groups (row # rows) =
     (row # takeWhile (same_tx row) rows) # tx_groups (dropWhile (same_tx row) rows)"
  by pat_completeness auto
termination
  by (relation "measure length") (auto simp: le_imp_less_Suc length_dropWhile_le)

definition tx_effect :: "bool \<Rightarrow> stake_row list \<Rightarrow> stake_state \<times> anomalies \<Rightarrow> stake_state \<times> anomalies" where
  "tx_effect reverse rows acc =
     apply_stake_snapshot_transaction (deduplicate_stake_snapshot_tx_rows rows) reverse (fst acc) (snd acc)"

definition replay :: "stake_row list \<Rightarrow> stake_state \<times> anomalies \<Rightarrow> stake_state \<times> anomalies" where
  "replay rows acc = fold (tx_effect False) (tx_groups rows) acc"

lemma replay_Nil [simp]: "replay [] acc = acc"
  by (simp add: replay_def)

lemma concat_tx_groups: "concat (tx_groups rows) = rows"
  by (induction rows rule: tx_groups.induct) auto

lemma dropWhile_all: "\<forall>x\<in>set xs. P x \<Longrightarrow> dropWhile P xs = []"
  by (simp add: dropWhile_eq_Nil_conv)

lemma takeWhile_all: "\<forall>x\<in>set xs. P x \<Longrightarrow> takeWhile P xs = xs"
  by (simp add: takeWhile_eq_all_conv)

lemma tx_groups_append:
  assumes "xs \<noteq> []" and "ys \<noteq> []" and "\<not> same_tx (last xs) (hd ys)"
  shows "tx_groups (xs @ ys) = tx_groups xs @ tx_groups ys"
  using assms
proof (induction xs rule: tx_groups.induct)
  case 1
  then show ?case by simp
next
  case (2 row rows)
  show ?case
  proof (cases "\<forall>r\<in>set rows. same_tx row r")
    case True
    with 2(4) have "\<not> same_tx row (hd ys)"
      by (cases rows rule: rev_cases) (auto simp: same_tx_iff)
    with 2(3) True show ?thesis by (cases ys) (auto simp: dropWhile_all takeWhile_all)
  next
    case False
    then have *: "dropWhile (same_tx row) rows \<noteq> []" by (auto simp: dropWhile_eq_Nil_conv)
    then have "last (dropWhile (same_tx row) rows) = last (row # rows)"
      by (metis dropWhile_eq_Nil_conv last.simps last_appendR takeWhile_dropWhile_id False empty_iff empty_set)
    with 2 * have "tx_groups (dropWhile (same_tx row) rows @ ys) =
        tx_groups (dropWhile (same_tx row) rows) @ tx_groups ys" by simp
    with False show ?thesis by (auto simp: dropWhile_append1 takeWhile_append1)
  qed
qed

lemma replay_append:
  "xs \<noteq> [] \<Longrightarrow> ys \<noteq> [] \<Longrightarrow> \<not> same_tx (last xs) (hd ys) \<Longrightarrow>
   replay (xs @ ys) acc = replay ys (replay xs acc)"
  by (simp add: replay_def tx_groups_append)

lemma tx_groups_same: "rows \<noteq> [] \<Longrightarrow> \<forall>r\<in>set rows. same_tx (hd rows) r \<Longrightarrow> tx_groups rows = [rows]"
  by (cases rows) (auto simp: takeWhile_all dropWhile_all)

lemma tx_groups_rev: "tx_groups (rev rows) = map rev (rev (tx_groups rows))"
proof (induction rows rule: tx_groups.induct)
  case 1
  then show ?case by simp
next
  case (2 row rows)
  let ?g = "row # takeWhile (same_tx row) rows" and ?d = "dropWhile (same_tx row) rows"
  have g: "tx_groups (rev ?g) = [rev ?g]"
  proof (rule tx_groups_same)
    have all: "\<forall>r\<in>set (rev ?g). same_tx row r" by (auto dest: set_takeWhileD)
    then have "same_tx row (hd (rev ?g))" by (rule bspec) (rule hd_in_set, simp)
    then have "same_tx (hd (rev ?g)) = same_tx row" by (metis same_tx_cong)
    with all show "\<forall>r\<in>set (rev ?g). same_tx (hd (rev ?g)) r" by (simp del: rev.simps)
  qed simp
  have split: "rev (row # rows) = rev ?d @ rev ?g"
    using rev_append [of ?g ?d] by simp
  show ?case
  proof (cases "?d = []")
    case True
    with g split show ?thesis by (simp add: dropWhile_all)
  next
    case False
    have "\<not> same_tx row (last (rev ?d))" using hd_dropWhile [OF False] False by (simp add: last_rev)
    moreover have "same_tx row (hd (rev ?g))"
      using set_takeWhileD [of "hd (rev ?g)" "same_tx row" rows] hd_in_set [of "rev ?g"] by auto
    ultimately have "\<not> same_tx (last (rev ?d)) (hd (rev ?g))" by (simp add: same_tx_iff)
    then have "tx_groups (rev ?d @ rev ?g) = tx_groups (rev ?d) @ [rev ?g]"
      using tx_groups_append [of "rev ?d" "rev ?g"] False g by simp
    with 2 split show ?thesis by simp
  qed
qed

lemma reverse_replay_groups:
  "reverse_replay rows st an =
     fold (\<lambda>g. tx_effect True (rev g)) (tx_groups rows) (st, an)"
  by (induction rows st an rule: reverse_replay.induct)
     (auto simp: tx_effect_def same_tx_def Let_def split: prod.splits)

lemma reverse_replay_events_groups:
  "reverse_replay_stake_snapshot_events rows st an =
     fold (tx_effect True) (rev (tx_groups rows)) (st, an)"
  by (simp add: reverse_replay_stake_snapshot_events_def reverse_replay_groups tx_groups_rev
        fold_map o_def)


section \<open>The daily curve as a function of the event log\<close>

text \<open>What the loader guarantees of its rows: they are ordered by time, and the rows of one
  transaction carry the transaction's timestamp.\<close>

definition tx_uniform :: "stake_row set \<Rightarrow> bool" where
  "tx_uniform R \<longleftrightarrow> (\<forall>r\<in>R. \<forall>r'\<in>R. row_tx_id r = row_tx_id r' \<longrightarrow> row_timestamp r = row_timestamp r')"

definition ordered_rows :: "stake_row list \<Rightarrow> bool" where
  "ordered_rows rows \<longleftrightarrow> sorted (map row_timestamp rows) \<and> tx_uniform (set rows)"

definition until :: "int \<Rightarrow> stake_row list \<Rightarrow> stake_row list" where
  "until t rows = filter (\<lambda>r. row_timestamp r \<le> t) rows"

definition after :: "int \<Rightarrow> stake_row list \<Rightarrow> stake_row list" where
  "after t rows = filter (\<lambda>r. t < row_timestamp r) rows"

lemma tx_uniform_subset: "tx_uniform R \<Longrightarrow> S \<subseteq> R \<Longrightarrow> tx_uniform S"
  unfolding tx_uniform_def by blast

lemma tx_uniformD:
  "tx_uniform R \<Longrightarrow> r \<in> R \<Longrightarrow> r' \<in> R \<Longrightarrow> same_tx r r' \<Longrightarrow> row_timestamp r' = row_timestamp r"
  unfolding tx_uniform_def same_tx_iff by blast

lemma ordered_rows_filter: "ordered_rows rows \<Longrightarrow> ordered_rows (filter p rows)"
  unfolding ordered_rows_def by (blast intro: sorted_filter tx_uniform_subset [OF _ filter_is_subset])

lemma ordered_rows_append: "ordered_rows (xs @ ys) \<Longrightarrow> ordered_rows ys"
  unfolding ordered_rows_def by (auto simp: sorted_append intro: tx_uniform_subset)

lemma ordered_rows_ConsD: "ordered_rows (row # rows) \<Longrightarrow> ordered_rows rows"
  using ordered_rows_append [of "[row]"] by simp

lemma ordered_rows_dropWhile: "ordered_rows rows \<Longrightarrow> ordered_rows (dropWhile p rows)"
  using ordered_rows_append [of "takeWhile p rows" "dropWhile p rows"] by simp

lemma until_after:
  assumes "ordered_rows rows"
  shows "rows = until t rows @ after t rows"
  using assms
proof (induction rows)
  case Nil
  show ?case by (simp add: until_def after_def)
next
  case (Cons r rows)
  have IH: "rows = until t rows @ after t rows"
    using Cons.IH [OF ordered_rows_ConsD [OF Cons.prems]] .
  show ?case
  proof (cases "row_timestamp r \<le> t")
    case True
    with IH show ?thesis by (simp add: until_def after_def)
  next
    case False
    have le: "row_timestamp r \<le> row_timestamp r'" if "r' \<in> set rows" for r'
      using Cons.prems that by (simp add: ordered_rows_def)
    have "until t rows = []" unfolding until_def filter_empty_conv using le False by fastforce
    with IH False show ?thesis by (simp add: until_def after_def)
  qed
qed

lemma until_after_distinct_tx:
  assumes "ordered_rows rows" "until t rows \<noteq> []" "after t rows \<noteq> []"
  shows "\<not> same_tx (last (until t rows)) (hd (after t rows))"
proof -
  have l: "last (until t rows) \<in> set rows" "row_timestamp (last (until t rows)) \<le> t"
    using last_in_set [OF assms(2)] by (auto simp: until_def)
  have h: "hd (after t rows) \<in> set rows" "t < row_timestamp (hd (after t rows))"
    using hd_in_set [OF assms(3)] by (auto simp: after_def)
  show ?thesis
  proof
    assume "same_tx (last (until t rows)) (hd (after t rows))"
    with assms(1) l(1) h(1) have "row_timestamp (hd (after t rows)) = row_timestamp (last (until t rows))"
      by (auto simp: ordered_rows_def intro: tx_uniformD)
    with l h show False by simp
  qed
qed

lemma replay_until_after:
  assumes "ordered_rows rows"
  shows "replay rows acc = replay (after t rows) (replay (until t rows) acc)"
proof (cases "until t rows = [] \<or> after t rows = []")
  case True
  with until_after [OF assms, of t] show ?thesis by (metis append.left_neutral append.right_neutral replay_Nil)
next
  case False
  then show ?thesis
    using replay_append [OF _ _ until_after_distinct_tx [OF assms, of t], of acc] until_after [OF assms, of t]
    by simp
qed

lemma until_until: "t \<le> t' \<Longrightarrow> until t (until t' rows) = until t rows"
  by (auto simp: until_def intro!: filter_cong)

lemma replay_until_split:
  assumes "ordered_rows rows" "t \<le> t'"
  shows "replay (until t' rows) acc = replay (until t' (after t rows)) (replay (until t rows) acc)"
proof -
  have "ordered_rows (until t' rows)" using assms by (simp add: until_def ordered_rows_filter)
  from replay_until_after [OF this, of acc t] assms(2)
  have "replay (until t' rows) acc = replay (after t (until t' rows)) (replay (until t rows) acc)"
    by (simp add: until_until)
  also have "after t (until t' rows) = until t' (after t rows)"
    by (simp add: after_def until_def conj_commute)
  finally show ?thesis .
qed

lemma tx_groups_head_run: "tx_groups (row # takeWhile (same_tx row) rows) = [row # takeWhile (same_tx row) rows]"
proof -
  have "\<forall>r\<in>set (takeWhile (same_tx row) rows). same_tx row r" by (blast dest: set_takeWhileD)
  then show ?thesis by (simp only: tx_groups.simps takeWhile_all dropWhile_all)
qed

lemma tx_groups_first:
  assumes "ordered_rows (row # rows)"
  defines "tk \<equiv> takeWhile (same_tx row) rows" and "dr \<equiv> dropWhile (same_tx row) rows"
  shows "tx_groups ((row # tk) @ until d dr) = (row # tk) # tx_groups (until d dr)"
proof (cases "until d dr = []")
  case True
  then show ?thesis by (simp only: tk_def append_Nil2 tx_groups_head_run tx_groups.simps(1))
next
  case False
  have "ordered_rows dr" using assms by (auto intro: ordered_rows_dropWhile ordered_rows_ConsD)
  from until_after [OF this, of d] False have "hd (until d dr) = hd dr" "dr \<noteq> []"
    by (metis hd_append, metis append_is_Nil_conv)
  then have "\<not> same_tx row (hd (until d dr))" using hd_dropWhile [of "same_tx row" rows] by (simp add: dr_def)
  moreover have "same_tx row (last (row # tk))"
    using last_in_set [of tk] set_takeWhileD [of "last tk" "same_tx row" rows] by (auto simp: tk_def)
  ultimately have "tx_groups ((row # tk) @ until d dr) = tx_groups (row # tk) @ tx_groups (until d dr)"
    using False by (intro tx_groups_append) (simp_all add: same_tx_iff)
  then show ?thesis by (simp only: tk_def tx_groups_head_run append_Cons append_Nil)
qed

lemma first_group_split:
  assumes "ordered_rows (row # rows)" "row_timestamp row \<le> d"
  shows "until d (row # rows) = (row # takeWhile (same_tx row) rows) @ until d (dropWhile (same_tx row) rows)"
    and "after d (row # rows) = after d (dropWhile (same_tx row) rows)"
proof -
  let ?tk = "takeWhile (same_tx row) rows" and ?dr = "dropWhile (same_tx row) rows"
  have tk: "row_timestamp r \<le> d" if "r \<in> set ?tk" for r
    using tx_uniformD [of "set (row # rows)" row r] assms set_takeWhileD [OF that]
    by (auto simp: ordered_rows_def)
  have "until d (row # ?tk @ ?dr) = (row # ?tk) @ until d ?dr"
    unfolding until_def using tk assms(2) by (simp del: takeWhile_dropWhile_id)
  then show "until d (row # rows) = (row # ?tk) @ until d ?dr" by simp
  have "after d (row # ?tk @ ?dr) = after d ?dr"
    unfolding after_def using tk assms(2)
    by (simp del: takeWhile_dropWhile_id) (fastforce simp: filter_empty_conv)
  then show "after d (row # rows) = after d ?dr" by simp
qed

lemma apply_day_spec:
  "ordered_rows rows \<Longrightarrow> apply_day d rows st an = (after d rows, replay (until d rows) (st, an))"
proof (induction d rows st an rule: apply_day.induct)
  case (1 d st an)
  then show ?case by (simp add: after_def until_def)
next
  case (2 d row rows st an)
  show ?case
  proof (cases "d < row_timestamp row")
    case True
    have "until d (row # rows) = []"
      unfolding until_def filter_empty_conv using 2(2) True by (fastforce simp: ordered_rows_def)
    with True until_after [OF 2(2), of d] show ?thesis by simp
  next
    case False
    let ?tk = "takeWhile (same_tx row) rows" and ?dr = "dropWhile (same_tx row) rows"
    have dr: "ordered_rows ?dr" using 2(2) by (auto intro: ordered_rows_dropWhile ordered_rows_ConsD)
    obtain st' an' where eff: "tx_effect False (row # ?tk) (st, an) = (st', an')" by force
    have "replay (until d (row # rows)) (st, an) = replay (until d ?dr) (st', an')"
      using tx_groups_first [OF 2(2), of d] first_group_split(1) [OF 2(2), of d] False eff
      by (simp add: replay_def)
    with False eff 2(1) [OF False refl _ refl, of st' an'] dr first_group_split(2) [OF 2(2), of d]
    show ?thesis by (simp add: tx_effect_def same_tx_def)
  qed
qed

text \<open>The days of a window, and the state each of them shows.\<close>

function day_range :: "int \<Rightarrow> int \<Rightarrow> int list" where
  "day_range day to_day =
     (if day < to_day then day # day_range (day + STAKE_SNAPSHOT_SECONDS_PER_DAY) to_day else [])"
  by pat_completeness auto
termination
  by (relation "measure (\<lambda>(day, to_day). nat (to_day - day))") (auto simp: STAKE_SNAPSHOT_SECONDS_PER_DAY_def)

declare day_range.simps [simp del]

definition state_at :: "stake_row list \<Rightarrow> stake_state \<Rightarrow> int \<Rightarrow> stake_state" where
  "state_at rows st day = fst (replay (until (stake_snapshot_day_end day) rows) (st, no_anomalies))"

lemma apply_stake_delta_state:
  "fst (apply_stake_delta row delta st an) = fst (apply_stake_delta row delta st an')"
  by (simp add: apply_stake_delta_def Let_def split: option.splits)

lemma apply_row_state:
  assumes "fst acc = fst acc'" "fst (snd acc) = fst (snd acc')"
  shows "fst (apply_row kind infl rev' row acc) = fst (apply_row kind infl rev' row acc')
    \<and> fst (snd (apply_row kind infl rev' row acc)) = fst (snd (apply_row kind infl rev' row acc'))"
proof -
  obtain ap st an an' where "acc = (ap, st, an)" "acc' = (ap, st, an')"
    using assms by (cases acc, cases acc') auto
  then show ?thesis
    using apply_stake_delta_state [of row _ st an an']
    by (simp add: apply_row_def clamp_supply_def split: option.splits)
qed

lemma fold_apply_row_state:
  "fst acc = fst acc' \<Longrightarrow> fst (snd acc) = fst (snd acc') \<Longrightarrow>
   fst (snd (fold (apply_row kind infl rev') rows acc)) = fst (snd (fold (apply_row kind infl rev') rows acc'))"
proof (induction rows arbitrary: acc acc')
  case (Cons row rows)
  from apply_row_state [OF Cons.prems, of kind infl rev' row] show ?case
    unfolding fold_simps by (blast intro: Cons.IH)
qed simp

lemma tx_effect_state: "fst acc = fst acc' \<Longrightarrow> fst (tx_effect rev' g acc) = fst (tx_effect rev' g acc')"
  unfolding tx_effect_def apply_stake_snapshot_transaction_def by (rule fold_apply_row_state) simp_all

lemma fold_tx_effect_state:
  "fst acc = fst acc' \<Longrightarrow> fst (fold (tx_effect rev') gs acc) = fst (fold (tx_effect rev') gs acc')"
proof (induction gs arbitrary: acc acc')
  case (Cons g gs)
  from tx_effect_state [OF Cons.prems, of rev' g] show ?case
    unfolding fold_simps by (rule Cons.IH)
qed simp

lemma replay_state: "fst (replay rows acc) = fst (replay rows (fst acc, an))"
  unfolding replay_def by (rule fold_tx_effect_state) simp

lemma state_at_replay: "fst (replay (until (stake_snapshot_day_end day) rows) (st, an)) = state_at rows st day"
  unfolding state_at_def using replay_state [of _ "(st, an)"] by simp

lemma day_end_mono: "day \<le> day' \<Longrightarrow> stake_snapshot_day_end day \<le> stake_snapshot_day_end day'"
  by (simp add: stake_snapshot_day_end_def)

lemma state_at_after:
  assumes "ordered_rows rows" "day \<le> day'"
  shows "state_at (after (stake_snapshot_day_end day) rows) (state_at rows st day) day' = state_at rows st day'"
  unfolding state_at_def
  using replay_until_split [OF assms(1) day_end_mono [OF assms(2)], of "(st, no_anomalies)"]
    replay_state [of _ "replay (until (stake_snapshot_day_end day) rows) (st, no_anomalies)" no_anomalies]
  by simp

lemma ordered_rows_after: "ordered_rows rows \<Longrightarrow> ordered_rows (after t rows)"
  by (simp add: after_def ordered_rows_filter)

lemma day_range_ge: "d \<in> set (day_range day to_day) \<Longrightarrow> day \<le> d \<and> d < to_day"
proof (induction day to_day rule: day_range.induct)
  case (1 day to_day)
  from 1(2) show ?case
    unfolding day_range.simps [of day to_day] using 1(1)
    by (auto simp: STAKE_SNAPSHOT_SECONDS_PER_DAY_def split: if_splits)
qed

lemma build_days_spec:
  assumes "ordered_rows rows"
  shows "fst (build_days day to_day rows st closed an)
           = map (\<lambda>d. daily_point_of d (state_at rows st d)) (day_range day to_day)
       \<and> fst (snd (build_days day to_day rows st closed an))
           = (if to_day - 2 * STAKE_SNAPSHOT_SECONDS_PER_DAY \<in> set (day_range day to_day)
              then Some (to_day - 2 * STAKE_SNAPSHOT_SECONDS_PER_DAY,
                         state_at rows st (to_day - 2 * STAKE_SNAPSHOT_SECONDS_PER_DAY))
              else closed)"
  using assms
proof (induction day to_day rows st closed an rule: build_days.induct)
  case (1 day to_day rows st closed an)
  show ?case
  proof (cases "day < to_day")
    case False
    then show ?thesis by (simp add: build_days.simps [of day] day_range.simps [of day])
  next
    case True
    let ?e = "stake_snapshot_day_end day" and ?S = STAKE_SNAPSHOT_SECONDS_PER_DAY
    obtain st' an' where r: "replay (until ?e rows) (st, an) = (st', an')" by force
    then have st': "st' = state_at rows st day" using state_at_replay [of day rows st an] by simp
    have ad: "apply_day ?e rows st an = (after ?e rows, st', an')"
      by (simp add: apply_day_spec [OF 1(2)] r)
    define closed' where "closed' = (if day + 2 * ?S = to_day then Some (day, st') else closed)"
    have IH: "fst (build_days (day + ?S) to_day (after ?e rows) st' closed' an')
           = map (\<lambda>d. daily_point_of d (state_at (after ?e rows) st' d)) (day_range (day + ?S) to_day)"
         "fst (snd (build_days (day + ?S) to_day (after ?e rows) st' closed' an'))
           = (if to_day - 2 * ?S \<in> set (day_range (day + ?S) to_day)
              then Some (to_day - 2 * ?S, state_at (after ?e rows) st' (to_day - 2 * ?S)) else closed')"
      using 1(1) [OF True ad [symmetric] refl refl closed'_def ordered_rows_after [OF 1(2)]] by auto
    have later: "state_at (after ?e rows) st' d = state_at rows st d"
      if "d \<in> set (day_range (day + ?S) to_day)" for d
      using state_at_after [OF 1(2), of day d st] day_range_ge [OF that]
      by (simp add: st' STAKE_SNAPSHOT_SECONDS_PER_DAY_def)
    have notin: "day \<notin> set (day_range (day + ?S) to_day)"
      using day_range_ge [of day "day + ?S" to_day] by (auto simp: STAKE_SNAPSHOT_SECONDS_PER_DAY_def)
    have bd: "build_days day to_day rows st closed an =
        (daily_point_of day st' # fst (build_days (day + ?S) to_day (after ?e rows) st' closed' an'),
         snd (build_days (day + ?S) to_day (after ?e rows) st' closed' an'))"
      by (subst build_days.simps) (simp add: True ad closed'_def split: prod.splits)
    have range: "day_range day to_day = day # day_range (day + ?S) to_day"
      by (subst day_range.simps) (simp add: True)
    have points: "map (\<lambda>d. daily_point_of d (state_at (after ?e rows) st' d)) (day_range (day + ?S) to_day)
        = map (\<lambda>d. daily_point_of d (state_at rows st d)) (day_range (day + ?S) to_day)"
      using later by simp
    have "day + 2 * ?S = to_day \<longleftrightarrow> to_day - 2 * ?S = day" by auto
    then show ?thesis
      unfolding bd range fst_conv snd_conv IH points
      using later notin st' by (auto simp: closed'_def)
  qed
qed

section \<open>Clean replays are additive\<close>

text \<open>A replay is clean when it recorded no anomaly.  A clean replay adds to every stake and to the
  supply exactly what its rows say, and with the opposite sign when it runs in reverse.\<close>

definition row_counts :: "string set \<Rightarrow> stake_row \<Rightarrow> bool" where
  "row_counts kinds row \<longleftrightarrow> row_kind row \<in> kinds \<and> is_soul (row_token_symbol row)
     \<and> (case row_value_raw row of None \<Rightarrow> False | Some v \<Rightarrow> 0 < v)"

definition stake_contribution :: "tx_kind \<Rightarrow> stake_row \<Rightarrow> string \<Rightarrow> int" where
  "stake_contribution kind row a =
     (if kind = Normal \<and> row_counts {''TokenStake'', ''TokenClaim''} row \<and> usable_row_address row = Some a
      then (if row_kind row = ''TokenStake'' then 1 else -1) * unwrap_or (row_value_raw row) 0 else 0)"

definition supply_contribution :: "int option \<Rightarrow> bool \<Rightarrow> stake_row \<Rightarrow> int" where
  "supply_contribution infl applied row =
     (if row_counts {''TokenMint'', ''TokenBurn''} row
      then (if row_kind row = ''TokenMint'' then 1 else -1) * supply_change infl applied (unwrap_or (row_value_raw row) 0)
      else 0)"

definition row_applied :: "int option \<Rightarrow> bool \<Rightarrow> stake_row \<Rightarrow> bool" where
  "row_applied infl applied row \<longleftrightarrow>
     applied \<or> infl \<noteq> None \<and> row_counts {''TokenMint'', ''TokenBurn''} row"

fun supply_sum :: "int option \<Rightarrow> bool \<Rightarrow> stake_row list \<Rightarrow> int" where
  "supply_sum infl applied [] = 0"
| "supply_sum infl applied (row # rows) =
     supply_contribution infl applied row + supply_sum infl (row_applied infl applied row) rows"

definition sign_of :: "bool \<Rightarrow> int" where
  "sign_of reverse = (if reverse then -1 else 1)"

lemma record_anomaly_dirty [simp]:
  "0 < anomaly_count (record_anomaly r an)" "anomaly_count (record_anomaly r an) \<noteq> 0"
  by (simp_all add: record_anomaly_def saturating_add_def)

lemma apply_stake_delta_dirty:
  "anomaly_count an \<noteq> 0 \<Longrightarrow> anomaly_count (snd (apply_stake_delta row delta st an)) \<noteq> 0"
  by (simp add: apply_stake_delta_def Let_def split: option.splits)

lemma apply_row_dirty:
  "anomaly_count (snd (snd acc)) \<noteq> 0 \<Longrightarrow> anomaly_count (snd (snd (apply_row kind infl rev' row acc))) \<noteq> 0"
  by (cases acc) (simp add: apply_row_def apply_stake_delta_dirty [simplified] clamp_supply_def split: option.splits)

lemma fold_apply_row_dirty:
  "anomaly_count (snd (snd acc)) \<noteq> 0 \<Longrightarrow>
   anomaly_count (snd (snd (fold (apply_row kind infl rev') rows acc))) \<noteq> 0"
proof (induction rows arbitrary: acc)
  case (Cons row rows)
  from apply_row_dirty [OF Cons.prems] show ?case unfolding fold_simps by (rule Cons.IH)
qed simp

lemma fold_tx_effect_dirty:
  "anomaly_count (snd acc) \<noteq> 0 \<Longrightarrow> anomaly_count (snd (fold (tx_effect rev') gs acc)) \<noteq> 0"
proof (induction gs arbitrary: acc)
  case (Cons g gs)
  have "anomaly_count (snd (tx_effect rev' g acc)) \<noteq> 0"
    unfolding tx_effect_def apply_stake_snapshot_transaction_def
    by (rule fold_apply_row_dirty) (simp add: Cons.prems)
  then show ?case unfolding fold_simps by (rule Cons.IH)
qed simp

lemma apply_stake_delta_clean:
  assumes "stake_inv st" "anomaly_count (snd (apply_stake_delta row delta st an)) = 0"
  shows "amount (stakes_by_address (fst (apply_stake_delta row delta st an))) b
           = amount (stakes_by_address st) b + (if usable_row_address row = Some b then delta else 0)"
    and "soul_supply_raw (fst (apply_stake_delta row delta st an)) = soul_supply_raw st"
proof -
  from assms(2) obtain a where a: "usable_row_address row = Some a"
    by (cases "usable_row_address row") (simp_all add: apply_stake_delta_def)
  have "0 \<le> amount (stakes_by_address st) a + delta"
    using assms(2) by (rule contrapos_pp) (simp add: apply_stake_delta_def a amount_def Let_def)
  then show "amount (stakes_by_address (fst (apply_stake_delta row delta st an))) b
           = amount (stakes_by_address st) b + (if usable_row_address row = Some b then delta else 0)"
    by (simp add: apply_stake_delta_char [OF assms(1) a] amount_set_stake a)
  show "soul_supply_raw (fst (apply_stake_delta row delta st an)) = soul_supply_raw st"
    by (simp add: apply_stake_delta_char [OF assms(1) a])
qed

lemma apply_row_clean:
  assumes "stake_inv st" "anomaly_count (snd (snd (apply_row kind infl rev' row (ap, st, an)))) = 0"
  defines "st' \<equiv> fst (snd (apply_row kind infl rev' row (ap, st, an)))"
  shows "fst (apply_row kind infl rev' row (ap, st, an)) = row_applied infl ap row"
    and "amount (stakes_by_address st') b
           = amount (stakes_by_address st) b + sign_of rev' * stake_contribution kind row b"
    and "soul_supply_raw st' = soul_supply_raw st + sign_of rev' * supply_contribution infl ap row"
  using assms(2) apply_stake_delta_clean [OF assms(1), of row _ an] unfolding st'_def
  by (auto simp: apply_row_def row_applied_def stake_contribution_def supply_contribution_def
        row_counts_def sign_of_def clamp_supply_def unwrap_or_def split: option.splits if_splits)

lemma fold_apply_row_clean:
  assumes "stake_inv st" "anomaly_count (snd (snd (fold (apply_row kind infl rev') rows (ap, st, an)))) = 0"
  defines "st' \<equiv> fst (snd (fold (apply_row kind infl rev') rows (ap, st, an)))"
  shows "amount (stakes_by_address st') b
           = amount (stakes_by_address st) b + sign_of rev' * (\<Sum>row\<leftarrow>rows. stake_contribution kind row b)
       \<and> soul_supply_raw st' = soul_supply_raw st + sign_of rev' * supply_sum infl ap rows"
  using assms(1,2) unfolding st'_def
proof (induction rows arbitrary: ap st an)
  case (Cons row rows)
  obtain ap1 st1 an1 where s: "apply_row kind infl rev' row (ap, st, an) = (ap1, st1, an1)"
    by (metis prod.collapse)
  have clean: "anomaly_count an1 = 0"
    using Cons.prems(2) fold_apply_row_dirty [of "(ap1, st1, an1)" kind infl rev' rows] by (auto simp: s)
  have inv: "stake_inv st1" using apply_row_inv [of "(ap, st, an)" kind infl rev' row] Cons.prems(1) by (simp add: s)
  note row = apply_row_clean [OF Cons.prems(1), of kind infl rev' row ap an, unfolded s, simplified, OF clean]
  from Cons.prems(2) have "anomaly_count (snd (snd (fold (apply_row kind infl rev') rows (ap1, st1, an1)))) = 0"
    by (simp add: s)
  from Cons.IH [OF inv this] row show ?case by (simp add: s algebra_simps)
qed simp

definition group_stake :: "stake_row list \<Rightarrow> string \<Rightarrow> int" where
  "group_stake g b =
     (let rows = deduplicate_stake_snapshot_tx_rows g
      in \<Sum>row\<leftarrow>rows. stake_contribution (classify_stake_snapshot_transaction rows) row b)"

definition group_supply :: "stake_row list \<Rightarrow> int" where
  "group_supply g =
     (let rows = deduplicate_stake_snapshot_tx_rows g
      in supply_sum (find_map row_inflation_delta rows) False rows)"

lemma tx_effect_inv: "stake_inv (fst acc) \<Longrightarrow> stake_inv (fst (tx_effect rev' g acc))"
  by (simp add: tx_effect_def apply_transaction_inv)

lemma fold_tx_effect_inv: "stake_inv (fst acc) \<Longrightarrow> stake_inv (fst (fold (tx_effect rev') gs acc))"
  by (induction gs arbitrary: acc) (simp_all add: tx_effect_inv)

lemma fold_tx_effect_clean:
  assumes "stake_inv st" "anomaly_count (snd (fold (tx_effect rev') gs (st, an))) = 0"
  defines "st' \<equiv> fst (fold (tx_effect rev') gs (st, an))"
  shows "amount (stakes_by_address st') b
           = amount (stakes_by_address st) b + sign_of rev' * (\<Sum>g\<leftarrow>gs. group_stake g b)
       \<and> soul_supply_raw st' = soul_supply_raw st + sign_of rev' * (\<Sum>g\<leftarrow>gs. group_supply g)"
  using assms(1,2) unfolding st'_def
proof (induction gs arbitrary: st an)
  case (Cons g gs)
  obtain st1 an1 where s: "tx_effect rev' g (st, an) = (st1, an1)" by force
  have clean: "anomaly_count an1 = 0"
    using Cons.prems(2) fold_tx_effect_dirty [of "(st1, an1)" rev' gs] by (auto simp: s)
  have inv: "stake_inv st1" using tx_effect_inv [of "(st, an)" rev' g] Cons.prems(1) by (simp add: s)
  let ?rows = "deduplicate_stake_snapshot_tx_rows g"
  let ?run = "fold (apply_row (classify_stake_snapshot_transaction ?rows)
                 (find_map row_inflation_delta ?rows) rev') ?rows (False, st, an)"
  have run: "snd ?run = (st1, an1)"
    using s by (simp add: tx_effect_def apply_stake_snapshot_transaction_def)
  have group: "amount (stakes_by_address st1) b = amount (stakes_by_address st) b + sign_of rev' * group_stake g b"
      "soul_supply_raw st1 = soul_supply_raw st + sign_of rev' * group_supply g"
    using fold_apply_row_clean [OF Cons.prems(1), of "classify_stake_snapshot_transaction ?rows"
        "find_map row_inflation_delta ?rows" rev' ?rows False an b] clean
    by (simp_all add: run group_stake_def group_supply_def Let_def)
  from Cons.prems(2) have "anomaly_count (snd (fold (tx_effect rev') gs (st1, an1))) = 0" by (simp add: s)
  from Cons.IH [OF inv this] group show ?case by (simp add: s algebra_simps)
qed simp

lemma stake_inv_amount_eqI:
  assumes "stake_inv s" "stake_inv s'"
    and "\<And>b. amount (stakes_by_address s) b = amount (stakes_by_address s') b"
    and "soul_supply_raw s = soul_supply_raw s'"
  shows "s = (s' :: stake_state)"
proof -
  have "stakes_by_address s b = stakes_by_address s' b" for b
    using assms(3) [of b] stake_inv_dom_pos [OF assms(1), of b] stake_inv_dom_pos [OF assms(2), of b]
    by (auto simp: amount_def unwrap_or_def domIff split: option.splits)
  then have "stakes_by_address s = stakes_by_address s'" by blast
  with assms show ?thesis by (auto simp: stake_inv_def intro: stake_state.equality)
qed

lemma reverse_after_forward:
  assumes "stake_inv st"
    and "fold (tx_effect False) gs (st, an) = (st1, an1)" "anomaly_count an1 = 0"
    and "fold (tx_effect True) (rev gs) (st1, an2) = (st2, an3)" "anomaly_count an3 = 0"
  shows "st2 = st"
proof (rule stake_inv_amount_eqI)
  show inv1: "stake_inv st2" "stake_inv st"
    using assms fold_tx_effect_inv [of "(st, an)" False gs] fold_tx_effect_inv [of "(st1, an2)" True "rev gs"]
    by simp_all
  have inv: "stake_inv st1" using assms(1,2) fold_tx_effect_inv [of "(st, an)" False gs] by simp
  note fwd = fold_tx_effect_clean [OF assms(1), of False gs an, unfolded assms(2), simplified, OF assms(3)]
  note bwd = fold_tx_effect_clean [OF inv, of True "rev gs" an2, unfolded assms(4), simplified, OF assms(5)]
  show "amount (stakes_by_address st2) b = amount (stakes_by_address st) b" for b
    using fwd [of b] bwd [of b] by (simp add: sign_of_def rev_map [symmetric])
  show "soul_supply_raw st2 = soul_supply_raw st"
    using fwd bwd by (simp add: sign_of_def rev_map [symmetric])
qed

text \<open>A small history: a stake on one day and a partial claim on the next.\<close>

definition demo_state :: stake_state where
  "demo_state = \<lparr>stakes_by_address = Map.empty, total_staked_raw = 0, soul_supply_raw = 0,
     stakers_count = 0, masters_count = 0\<rparr>"

definition demo_row :: "int \<Rightarrow> string \<Rightarrow> int \<Rightarrow> int \<Rightarrow> stake_row" where
  "demo_row n kind ts v =
     \<lparr>row_event_id = n, row_tx_id = n, row_kind = kind, row_timestamp = ts,
      row_payload_identity = '''', row_payload_format = 2, row_token_symbol = Some ''SOUL'',
      row_value_raw = Some v, row_address = Some ''PTESTA'', row_market_quote_symbol = None,
      row_has_stake_call = False, row_has_unstake_call = False, row_has_claim_call = False,
      row_inflation_delta = None\<rparr>"

definition demo_rows :: "stake_row list" where
  "demo_rows = [demo_row 1 ''TokenStake'' 10 50, demo_row 2 ''TokenClaim'' 86410 20]"

lemma demo_state_inv: "stake_inv demo_state"
  using threshold_pos by (simp add: demo_state_def stake_inv_def masters_def amount_def)

lemma demo_rows_ordered: "ordered_rows demo_rows"
  by (simp add: demo_rows_def demo_row_def ordered_rows_def tx_uniform_def)

lemma demo_points:
  "map point_staked_soul_raw (fst (build_stake_snapshot_daily_points demo_state demo_rows 0 172800 no_anomalies))
     = [''50'', ''30'']"
  by code_simp

section \<open>Properties of the replay\<close>

lemma apply_day_inv: "stake_inv st \<Longrightarrow> stake_inv (fst (snd (apply_day d rows st an)))"
proof (induction d rows st an rule: apply_day.induct)
  case (2 d row rows st an)
  then show ?case
    using apply_transaction_inv [OF 2(2)] by (auto simp: Let_def split: prod.splits) (metis fst_conv)
qed simp

text \<open>What the invariant says of one published point.\<close>

definition sound_point :: "daily_point \<Rightarrow> bool" where
  "sound_point p \<longleftrightarrow> 0 \<le> point_masters_count p \<and> point_masters_count p \<le> point_stakers_count p
     \<and> (\<exists>staked. point_staked_soul_raw p = show_int staked
          \<and> point_masters_count p * STAKE_SNAPSHOT_MASTER_THRESHOLD_RAW \<le> staked)"

lemma masters_stake_bound:
  assumes "stake_inv st"
  shows "masters_count st * STAKE_SNAPSHOT_MASTER_THRESHOLD_RAW \<le> total_staked_raw st"
proof -
  let ?m = "stakes_by_address st"
  have fin: "finite (dom ?m)" using assms by (simp add: stake_inv_def)
  have "masters_count st * STAKE_SNAPSHOT_MASTER_THRESHOLD_RAW = (\<Sum>a\<in>masters ?m. STAKE_SNAPSHOT_MASTER_THRESHOLD_RAW)"
    using assms by (simp add: stake_inv_def)
  also have "\<dots> \<le> (\<Sum>a\<in>masters ?m. amount ?m a)"
    by (rule sum_mono) (simp add: masters_def stake_snapshot_master_threshold_def)
  also have "\<dots> \<le> (\<Sum>a\<in>dom ?m. amount ?m a)"
    using fin masters_subset stake_inv_amount_nonneg [OF assms] by (intro sum_mono2) auto
  also have "\<dots> = total_staked_raw st" using assms by (simp add: stake_inv_def)
  finally show ?thesis .
qed

lemma daily_point_sound: "stake_inv st \<Longrightarrow> sound_point (daily_point_of day st)"
  using masters_stake_bound [of st] card_mono [OF _ masters_subset [of "stakes_by_address st"]]
  by (auto simp: sound_point_def daily_point_of_def stake_inv_def)

lemma build_days_inv:
  "stake_inv st \<Longrightarrow> (\<And>d s. closed = Some (d, s) \<Longrightarrow> stake_inv s) \<Longrightarrow>
   build_days day to_day rows st closed an = (points, closed', an') \<Longrightarrow>
   (\<forall>p\<in>set points. sound_point p) \<and> (\<forall>d s. closed' = Some (d, s) \<longrightarrow> stake_inv s)"
proof (induction day to_day rows st closed an arbitrary: points closed' an' rule: build_days.induct)
  case (1 day to_day rows st closed an)
  show ?case
  proof (cases "day < to_day")
    case False
    with 1(3,4) show ?thesis by (subst (asm) build_days.simps) auto
  next
    case True
    obtain rows1 st1 an1 where ad: "apply_day (stake_snapshot_day_end day) rows st an = (rows1, st1, an1)"
      by (metis prod.collapse)
    have inv1: "stake_inv st1" using apply_day_inv [OF 1(2), of "stake_snapshot_day_end day" rows an] by (simp add: ad)
    define closed1 where
      "closed1 = (if day + 2 * STAKE_SNAPSHOT_SECONDS_PER_DAY = to_day then Some (day, st1) else closed)"
    obtain ps where rest: "build_days (day + STAKE_SNAPSHOT_SECONDS_PER_DAY) to_day rows1 st1 closed1 an1 = (ps, closed', an')"
        and ps: "points = daily_point_of day st1 # ps"
      using 1(4) by (subst (asm) build_days.simps) (auto simp: True ad closed1_def split: prod.splits)
    have "\<And>d s. closed1 = Some (d, s) \<Longrightarrow> stake_inv s"
      using 1(3) inv1 by (auto simp: closed1_def split: if_splits)
    from 1(1) [OF True ad [symmetric] refl refl closed1_def inv1 this rest] ps daily_point_sound [OF inv1]
    show ?thesis by simp
  qed
qed

text \<open>C19. Every state the replay produces, forward or in reverse, has counters that agree with its
  stakes, and every published daily point counts at most as many masters as stakers and a total
  stake that covers the masters' thresholds, whatever the event rows are.\<close>

theorem stake_counters_invariant:
  assumes "stake_inv st"
    and "build_stake_snapshot_daily_points st rows from_day to_day an = (points, closed, an')"
  shows "(\<forall>p\<in>set points. sound_point p)
    \<and> (\<forall>day s. closed = Some (day, s) \<longrightarrow> stake_inv s)
    \<and> stake_inv (fst (reverse_replay_stake_snapshot_events rows st an))"
  using build_days_inv [OF assms(1) _ assms(2) [unfolded build_stake_snapshot_daily_points_def]]
    fold_tx_effect_inv [of "(st, an)" True] assms(1)
  by (simp add: reverse_replay_events_groups)

theorem stake_counters_invariant_witness:
  "stake_inv demo_state \<and> (\<exists>points closed an'.
     build_stake_snapshot_daily_points demo_state demo_rows 0 172800 no_anomalies = (points, closed, an')
     \<and> map point_staked_soul_raw points = [''50'', ''30''] \<and> (\<forall>p\<in>set points. sound_point p))"
proof -
  obtain points closed an' where
    b: "build_stake_snapshot_daily_points demo_state demo_rows 0 172800 no_anomalies = (points, closed, an')"
    by (metis prod.collapse)
  with stake_counters_invariant [OF demo_state_inv b] demo_points demo_state_inv show ?thesis by simp
qed

text \<open>C20. On rows in the loader's order, the daily build is a function of the event log: the point of
  each day of the window shows the state after exactly the transactions up to that day's last
  second, and the returned anchor is that state at the penultimate day (no anchor for a window of
  one day).\<close>

theorem daily_curve_follows_log:
  assumes "ordered_rows rows"
    and "build_stake_snapshot_daily_points st rows from_day to_day an = (points, closed, an')"
  shows "points = map (\<lambda>day. daily_point_of day (state_at rows st day)) (day_range from_day to_day)
    \<and> closed = (let day = to_day - 2 * STAKE_SNAPSHOT_SECONDS_PER_DAY
                in if day \<in> set (day_range from_day to_day) then Some (day, state_at rows st day) else None)"
  using build_days_spec [OF assms(1), of from_day to_day st None an] assms(2)
  by (simp add: build_stake_snapshot_daily_points_def Let_def)

theorem daily_curve_follows_log_witness:
  "ordered_rows demo_rows \<and> (\<exists>points closed an'.
     build_stake_snapshot_daily_points demo_state demo_rows 0 172800 no_anomalies = (points, closed, an')
     \<and> map point_staked_soul_raw points = [''50'', ''30'']
     \<and> points = map (\<lambda>day. daily_point_of day (state_at demo_rows demo_state day)) (day_range 0 172800)
     \<and> closed = Some (0, state_at demo_rows demo_state 0))"
proof -
  obtain points closed an' where
    b: "build_stake_snapshot_daily_points demo_state demo_rows 0 172800 no_anomalies = (points, closed, an')"
    by (metis prod.collapse)
  have "0 \<in> set (day_range 0 172800)" by (subst day_range.simps) simp
  with daily_curve_follows_log [OF demo_rows_ordered b] b demo_points demo_rows_ordered show ?thesis
    by (simp add: STAKE_SNAPSHOT_SECONDS_PER_DAY_def)
qed

text \<open>C21. When neither direction has to clamp or skip anything, walking the events of a window back
  from the state the forward replay reached restores the state the replay started from.\<close>

theorem reverse_replay_undoes_forward:
  assumes "stake_inv st" "ordered_rows rows" "\<forall>row\<in>set rows. row_timestamp row \<le> day_end"
    and "apply_day day_end rows st no_anomalies = (rest, st1, an1)" "anomalies_is_empty an1"
    and "reverse_replay_stake_snapshot_events rows st1 no_anomalies = (st2, an2)" "anomalies_is_empty an2"
  shows "rest = [] \<and> st2 = st"
proof -
  have all: "until day_end rows = rows" "after day_end rows = []"
    using assms(3) by (auto simp: until_def after_def filter_empty_conv not_less)
  with assms(4) have "rest = []" "fold (tx_effect False) (tx_groups rows) (st, no_anomalies) = (st1, an1)"
    by (simp_all add: apply_day_spec [OF assms(2)] replay_def)
  with reverse_after_forward [OF assms(1) this(2)] assms(5-7) show ?thesis
    by (simp add: reverse_replay_events_groups anomalies_is_empty_def)
qed

theorem reverse_replay_undoes_forward_witness:
  "stakers_count (fst (snd (apply_day 86410 demo_rows demo_state no_anomalies))) = 1
   \<and> reverse_replay_stake_snapshot_events demo_rows
       (fst (snd (apply_day 86410 demo_rows demo_state no_anomalies))) no_anomalies
     = (demo_state, no_anomalies)"
proof -
  let ?f = "apply_day 86410 demo_rows demo_state no_anomalies"
  let ?b = "reverse_replay_stake_snapshot_events demo_rows (fst (snd ?f)) no_anomalies"
  have clean: "anomalies_is_empty (snd (snd ?f))" "anomalies_is_empty (snd ?b)"
    "stakers_count (fst (snd ?f)) = 1" "anomaly_samples (snd ?b) = []" by code_simp+
  have "\<forall>row\<in>set demo_rows. row_timestamp row \<le> 86410" by code_simp
  from reverse_replay_undoes_forward [OF demo_state_inv demo_rows_ordered this _ clean(1) _ clean(2), of "fst ?f" "fst (snd ?f)"]
  have "fst ?b = demo_state" by simp
  moreover have "snd ?b = no_anomalies"
    using clean by (simp add: no_anomalies_def anomalies_is_empty_def)
  ultimately show ?thesis using clean by (metis prod.collapse)
qed

end
