(* ===== verification/Stake_Projection.thy ===== *)
theory Stake_Projection
  imports Stake_Snapshot "HOL-Library.List_Lexorder" "HOL-Library.Char_ord"
begin

text \<open>
  The database side of the Soul-Masters projector (\<open>src/crates/db/src/staking.rs\<close>): decoding of
  Carbon integers, conversion of the loaded event rows, the seed capture, the persisted fold state
  and the resumable forward projection.

  The tables are fields of one record.  A result set is a list; the event table is the list of the
  rows of one chain that satisfy the loader's \<open>WHERE\<close> clause apart from the time window, in its
  \<open>ORDER BY\<close> order.  \<open>BigInt::from_str\<close>, the iteration order of a \<open>HashMap\<close> and the monthly SQL
  rollup are arguments.
\<close>

unbundle bit_operations_syntax

section \<open>Errors\<close>

text \<open>\<open>Slice_Panic\<close> is the panic of a byte-range slice that does not fall on a character boundary.\<close>

datatype stake_error =
    StakeSnapshotReplay string
  | StakeSnapshotInvalidRaw string string
  | TokenMissing int string
  | Slice_Panic

fun show_stake_error :: "stake_error \<Rightarrow> string" where
  "show_stake_error (StakeSnapshotReplay reason) = ''staking snapshot projector replay failed: '' @ reason"
| "show_stake_error (StakeSnapshotInvalidRaw field v) =
     ''staking snapshot projector cannot parse '' @ field @ '' raw integer value '' @ debug_str v"
| "show_stake_error (TokenMissing chain_id symbol) =
     ''token '' @ debug_str symbol @ '' for chain id '' @ show_int chain_id @ '' was not found in the database''"
| "show_stake_error Slice_Panic = ''byte index is not a char boundary''"

section \<open>Carbon integers\<close>

definition is_char_boundary :: "string \<Rightarrow> nat \<Rightarrow> bool" where
  "is_char_boundary s i \<longleftrightarrow> i = 0 \<or> i = length s
     \<or> i < length s \<and> \<not> (128 \<le> code (s ! i) \<and> code (s ! i) < 192)"

definition slice :: "string \<Rightarrow> nat \<Rightarrow> nat \<Rightarrow> string option" where
  "slice s i j =
     (if i \<le> j \<and> j \<le> length s \<and> is_char_boundary s i \<and> is_char_boundary s j
      then Some (take (j - i) (drop i s)) else None)"

definition hex_digit_val :: "char \<Rightarrow> nat option" where
  "hex_digit_val c =
     (let n = code c in
      if 48 \<le> n \<and> n \<le> 57 then Some (n - 48)
      else if 97 \<le> n \<and> n \<le> 102 then Some (n - 87)
      else if 65 \<le> n \<and> n \<le> 70 then Some (n - 55)
      else None)"

fun parse_hex_digits :: "nat \<Rightarrow> nat \<Rightarrow> string \<Rightarrow> int_error + nat" where
  "parse_hex_digits hi acc [] = Inr acc"
| "parse_hex_digits hi acc (c # cs) =
     (case hex_digit_val c of
        None \<Rightarrow> Inl InvalidDigit
      | Some d \<Rightarrow> if hi < acc * 16 + d then Inl PosOverflow else parse_hex_digits hi (acc * 16 + d) cs)"

text \<open>\<open>u8::from_str_radix(s, 16)\<close>, which accepts a leading plus sign.\<close>

definition u8_from_hex :: "string \<Rightarrow> int_error + nat" where
  "u8_from_hex s =
     (case s of
        [] \<Rightarrow> Inl Empty
      | c # cs \<Rightarrow> if c = CHR ''+'' then (if cs = [] then Inl InvalidDigit else parse_hex_digits 255 0 cs)
                  else parse_hex_digits 255 0 s)"

fun intx_bytes :: "string \<Rightarrow> string \<Rightarrow> nat list \<Rightarrow> u64 \<Rightarrow> stake_error + u64" where
  "intx_bytes field v [] raw = Inr raw"
| "intx_bytes field v (i # is) raw =
     (case slice v (2 + i * 2) (2 + i * 2 + 2) of
        None \<Rightarrow> Inl Slice_Panic
      | Some s \<Rightarrow>
          (case u8_from_hex s of
             Inl e \<Rightarrow> Inl (StakeSnapshotReplay (''invalid '' @ field @ '' intx byte: '' @ show_int_error e))
           | Inr byte \<Rightarrow> intx_bytes field v is (raw OR push_bit (i * 8) (of_nat byte))))"

definition parse_carbon_intx_i64_raw :: "string \<Rightarrow> string \<Rightarrow> stake_error + int" where
  "parse_carbon_intx_i64_raw field text =
     (let v = trim text in
      if length v \<noteq> 18 then Inl (StakeSnapshotReplay (field @ '' is not an 8-byte Carbon intx''))
      else case slice v 0 2 of
        None \<Rightarrow> Inl Slice_Panic
      | Some h \<Rightarrow>
          (case u8_from_hex h of
             Inl e \<Rightarrow> Inl (StakeSnapshotReplay (''invalid '' @ field @ '' intx header: '' @ show_int_error e))
           | Inr header \<Rightarrow>
               if header \<noteq> 8 \<and> header \<noteq> 136
               then Inl (StakeSnapshotReplay (field @ '' is not an 8-byte Carbon intx''))
               else and_then (intx_bytes field v [0..<8] 0) (\<lambda>raw.
                 let parsed = sint raw in
                 if header = 8 \<and> parsed < 0 \<or> header = 136 \<and> 0 \<le> parsed
                 then Inl (StakeSnapshotReplay (field @ '' has an invalid Carbon intx sign extension''))
                 else Inr parsed)))"

section \<open>Loading event rows\<close>

record event_record =
  rec_event_id :: int
  rec_tx_id :: int
  rec_kind :: string
  rec_timestamp :: int
  rec_payload_identity :: string
  rec_payload_format :: int
  rec_token_symbol :: "string option"
  rec_value_raw :: "string option"
  rec_address :: "string option"
  rec_market_quote_symbol :: "string option"
  rec_has_stake_call :: bool
  rec_has_unstake_call :: bool
  rec_has_claim_call :: bool
  rec_is_soul_apply_inflation :: bool
  rec_tx_result :: "string option"

definition parse_stake_snapshot_raw ::
    "(string \<Rightarrow> int option) \<Rightarrow> string \<Rightarrow> string \<Rightarrow> stake_error + int" where
  "parse_stake_snapshot_raw from_str field v =
     (case from_str v of None \<Rightarrow> Inl (StakeSnapshotInvalidRaw field v) | Some n \<Rightarrow> Inr n)"

text \<open>The inflation result of a row: the decoded delta, or nothing and an anomaly.\<close>

definition inflation_delta :: "event_record \<Rightarrow> anomalies \<Rightarrow> stake_error + (int option \<times> anomalies)" where
  "inflation_delta r an =
     (if \<not> rec_is_soul_apply_inflation r then Inr (None, an)
      else case rec_tx_result r of
        None \<Rightarrow> Inr (None, record_anomaly (''missing Token.ApplyInflation SOUL result in tx ''
                             @ show_int (rec_tx_id r)) an)
      | Some tx_result \<Rightarrow>
          (case parse_carbon_intx_i64_raw ''tx.result'' tx_result of
             Inr delta \<Rightarrow> Inr (Some delta, an)
           | Inl Slice_Panic \<Rightarrow> Inl Slice_Panic
           | Inl error \<Rightarrow> Inr (None, record_anomaly (''tx '' @ show_int (rec_tx_id r)
                @ '' Token.ApplyInflation result: '' @ show_stake_error error) an)))"

definition load_row ::
    "(string \<Rightarrow> int option) \<Rightarrow> event_record \<Rightarrow> anomalies \<Rightarrow> stake_error + (stake_row \<times> anomalies)" where
  "load_row from_str r an =
     and_then (case rec_value_raw r of
                 None \<Rightarrow> Inr None
               | Some v \<Rightarrow> map_ok Some (parse_stake_snapshot_raw from_str ''value_raw'' v)) (\<lambda>value_raw.
     and_then (inflation_delta r an) (\<lambda>(delta, an).
       Inr (\<lparr>row_event_id = rec_event_id r, row_tx_id = rec_tx_id r, row_kind = rec_kind r,
             row_timestamp = rec_timestamp r, row_payload_identity = rec_payload_identity r,
             row_payload_format = rec_payload_format r, row_token_symbol = rec_token_symbol r,
             row_value_raw = value_raw, row_address = rec_address r,
             row_market_quote_symbol = rec_market_quote_symbol r,
             row_has_stake_call = rec_has_stake_call r, row_has_unstake_call = rec_has_unstake_call r,
             row_has_claim_call = rec_has_claim_call r, row_inflation_delta = delta\<rparr>, an)))"

fun load_rows ::
    "(string \<Rightarrow> int option) \<Rightarrow> event_record list \<Rightarrow> anomalies \<Rightarrow> stake_error + (stake_row list \<times> anomalies)" where
  "load_rows from_str [] an = Inr ([], an)"
| "load_rows from_str (r # rs) an =
     and_then (load_row from_str r an) (\<lambda>(row, an).
       map_ok (\<lambda>(rows, an). (row # rows, an)) (load_rows from_str rs an))"

definition load_stake_snapshot_events ::
    "(string \<Rightarrow> int option) \<Rightarrow> event_record list \<Rightarrow> int \<Rightarrow> int \<Rightarrow> anomalies \<Rightarrow>
     stake_error + (stake_row list \<times> anomalies)" where
  "load_stake_snapshot_events from_str log from_ts to_ts an =
     load_rows from_str (filter (\<lambda>r. from_ts \<le> rec_timestamp r \<and> rec_timestamp r \<le> to_ts) log) an"

section \<open>The tables\<close>

definition STAKE_SNAPSHOT_PROJECTOR_SOURCE :: string where
  "STAKE_SNAPSHOT_PROJECTOR_SOURCE = ''staking-snapshot-projector.v1''"

record boundary_header =
  boundary_day_unix_seconds :: int
  boundary_soul_supply_raw :: string
  boundary_masters_count :: int
  boundary_stakers_count :: int
  boundary_staked_soul_raw :: string
  boundary_captured_at :: int
  boundary_source :: string

record resume_header =
  last_projected_day :: int
  resume_total_staked_raw :: string
  resume_soul_supply_raw :: string
  resume_stakers_count :: int
  resume_masters_count :: int

record stake_db =
  block_timestamps :: "nat \<rightharpoonup> int"
  cursor_timestamp :: "int option"
  soul_token_supply :: "string option"
  address_stakes :: "(string \<times> string) list"
  event_log :: "event_record list"
  stake_boundary_state :: "boundary_header option"
  stake_boundary_balances :: "(string \<times> string) list"
  staking_progress_dailies :: "(int \<times> daily_point \<times> string) list"
  soul_masters_monthlies :: "(int \<times> int) list"
  stake_snapshot_resume :: "resume_header option"
  stake_snapshot_resume_stakes :: "(string \<times> string) list"

fun upsert :: "'k \<Rightarrow> 'v \<Rightarrow> ('k \<times> 'v) list \<Rightarrow> ('k \<times> 'v) list" where
  "upsert k v [] = [(k, v)]"
| "upsert k v ((k', v') # kvs) = (if k' = k then (k, v) # kvs else (k', v') # upsert k v kvs)"

definition upsert_stake_snapshot_daily_points ::
    "daily_point list \<Rightarrow> (int \<times> daily_point \<times> string) list \<Rightarrow> (int \<times> daily_point \<times> string) list" where
  "upsert_stake_snapshot_daily_points points dailies =
     fold (\<lambda>p. upsert (point_date p) (p, STAKE_SNAPSHOT_PROJECTOR_SOURCE)) points dailies"

definition load_max_projected_daily_day :: "stake_db \<Rightarrow> int option" where
  "load_max_projected_daily_day db =
     (let days = map fst (filter (\<lambda>(_, _, source). source = STAKE_SNAPSHOT_PROJECTOR_SOURCE)
                   (staking_progress_dailies db))
      in if days = [] then None else Some (fold max (tl days) (hd days)))"

text \<open>The loop shared by \<open>load_stake_boundary_slice\<close> and \<open>load_current_stake_snapshot_state\<close>:
  positive balances enter the map and the counters.\<close>

fun load_balances ::
    "(string \<Rightarrow> int option) \<Rightarrow> (string \<times> string) list \<Rightarrow> stake_state \<Rightarrow> stake_error + stake_state" where
  "load_balances from_str [] st = Inr st"
| "load_balances from_str ((address, text) # rows) st =
     and_then (parse_stake_snapshot_raw from_str ''staked_amount_raw'' text) (\<lambda>staked.
       if staked \<le> 0 then load_balances from_str rows st
       else load_balances from_str rows
         (st\<lparr>masters_count := masters_count st + (if stake_snapshot_master_threshold \<le> staked then 1 else 0),
             stakers_count := stakers_count st + 1,
             total_staked_raw := total_staked_raw st + staked,
             stakes_by_address := (stakes_by_address st)(address \<mapsto> staked)\<rparr>))"

definition empty_stakes :: "int \<Rightarrow> stake_state" where
  "empty_stakes supply =
     \<lparr>stakes_by_address = Map.empty, total_staked_raw = 0, soul_supply_raw = supply,
      stakers_count = 0, masters_count = 0\<rparr>"

definition load_stake_boundary_slice ::
    "(string \<Rightarrow> int option) \<Rightarrow> stake_db \<Rightarrow> stake_error + (int \<times> stake_state) option" where
  "load_stake_boundary_slice from_str db =
     (case stake_boundary_state db of
        None \<Rightarrow> Inr None
      | Some header \<Rightarrow>
          and_then (parse_stake_snapshot_raw from_str ''soul_supply_raw'' (boundary_soul_supply_raw header)) (\<lambda>supply.
          map_ok (\<lambda>st. Some (boundary_day_unix_seconds header, st))
            (load_balances from_str (stake_boundary_balances db) (empty_stakes supply))))"

definition load_current_stake_snapshot_state ::
    "(string \<Rightarrow> int option) \<Rightarrow> int \<Rightarrow> stake_db \<Rightarrow> stake_error + stake_state" where
  "load_current_stake_snapshot_state from_str chain_id db =
     and_then (ok_or (TokenMissing chain_id ''SOUL'') (soul_token_supply db)) (\<lambda>text.
     and_then (parse_stake_snapshot_raw from_str ''current_supply_raw'' text) (\<lambda>supply.
       load_balances from_str (address_stakes db) (empty_stakes supply)))"

section \<open>Capturing the seed\<close>

record boundary_report =
  report_boundary_day :: int
  report_boundary_masters :: int
  report_boundary_stakers :: int
  report_boundary_staked :: string
  report_boundary_supply :: string
  report_addresses_written :: nat

text \<open>\<open>hash_order\<close> gives the iteration order of the \<open>HashMap\<close>: a listing of its keys.\<close>

definition positive_stakes :: "((string \<rightharpoonup> int) \<Rightarrow> string list) \<Rightarrow> stake_state \<Rightarrow> (string \<times> string) list" where
  "positive_stakes hash_order st =
     map (\<lambda>a. (a, show_int (unwrap_or (stakes_by_address st a) 0)))
       (filter (\<lambda>a. 0 < unwrap_or (stakes_by_address st a) 0) (hash_order (stakes_by_address st)))"

definition capture_stake_boundary_slice_in_tx ::
    "(string \<Rightarrow> int option) \<Rightarrow> ((string \<rightharpoonup> int) \<Rightarrow> string list) \<Rightarrow> int \<Rightarrow> stake_db \<Rightarrow>
     stake_error + (stake_db \<times> boundary_report)" where
  "capture_stake_boundary_slice_in_tx from_str hash_order chain_id db =
     and_then (ok_or (StakeSnapshotReplay ''start-height block is not present; cannot anchor the stake seed'')
                (block_timestamps db MAIN_ZERO_STATE_BOUNDARY_HEIGHT)) (\<lambda>boundary_block_ts.
     let boundary_day = stake_snapshot_day_start boundary_block_ts in
     and_then (ok_or (StakeSnapshotReplay ''chain has no projected block timestamp; cannot capture the stake seed'')
                (cursor_timestamp db)) (\<lambda>cursor_ts.
     let from_ts = boundary_day + STAKE_SNAPSHOT_SECONDS_PER_DAY in
     and_then (load_stake_snapshot_events from_str (event_log db) from_ts cursor_ts no_anomalies) (\<lambda>(events, an).
     and_then (load_current_stake_snapshot_state from_str chain_id db) (\<lambda>current.
     let (st, an) = reverse_replay_stake_snapshot_events events current an;
         rows = positive_stakes hash_order st
     in Inr (db\<lparr>stake_boundary_balances := rows,
                stake_boundary_state := Some
                  \<lparr>boundary_day_unix_seconds = boundary_day,
                   boundary_soul_supply_raw = show_int (soul_supply_raw st),
                   boundary_masters_count = masters_count st,
                   boundary_stakers_count = stakers_count st,
                   boundary_staked_soul_raw = show_int (total_staked_raw st),
                   boundary_captured_at = cursor_ts,
                   boundary_source = ''boundary-unwind.v1''\<rparr>\<rparr>,
             \<lparr>report_boundary_day = boundary_day, report_boundary_masters = masters_count st,
              report_boundary_stakers = stakers_count st,
              report_boundary_staked = show_int (total_staked_raw st),
              report_boundary_supply = show_int (soul_supply_raw st),
              report_addresses_written = length rows\<rparr>)))))"

section \<open>The persisted fold state\<close>

fun insert_stakes ::
    "(string \<Rightarrow> int option) \<Rightarrow> (string \<times> string) list \<Rightarrow> (string \<rightharpoonup> int) \<Rightarrow> stake_error + (string \<rightharpoonup> int)" where
  "insert_stakes from_str [] m = Inr m"
| "insert_stakes from_str ((address, text) # rows) m =
     and_then (parse_stake_snapshot_raw from_str ''staked_amount_raw'' text)
       (\<lambda>staked. insert_stakes from_str rows (m(address \<mapsto> staked)))"

definition load_stake_snapshot_resume ::
    "(string \<Rightarrow> int option) \<Rightarrow> stake_db \<Rightarrow> stake_error + (int \<times> stake_state) option" where
  "load_stake_snapshot_resume from_str db =
     (case stake_snapshot_resume db of
        None \<Rightarrow> Inr None
      | Some header \<Rightarrow>
          and_then (insert_stakes from_str (stake_snapshot_resume_stakes db) Map.empty) (\<lambda>stakes.
          and_then (parse_stake_snapshot_raw from_str ''total_staked_raw'' (resume_total_staked_raw header)) (\<lambda>total_raw.
          and_then (parse_stake_snapshot_raw from_str ''soul_supply_raw'' (resume_soul_supply_raw header)) (\<lambda>supply.
            Inr (Some (last_projected_day header,
              \<lparr>stakes_by_address = stakes, total_staked_raw = total_raw, soul_supply_raw = supply,
               stakers_count = resume_stakers_count header,
               masters_count = resume_masters_count header\<rparr>))))))"

definition save_stake_snapshot_resume ::
    "((string \<rightharpoonup> int) \<Rightarrow> string list) \<Rightarrow> int \<Rightarrow> stake_state \<Rightarrow> stake_db \<Rightarrow> stake_db" where
  "save_stake_snapshot_resume hash_order day st db =
     db\<lparr>stake_snapshot_resume := Some
          \<lparr>last_projected_day = day, resume_total_staked_raw = show_int (total_staked_raw st),
           resume_soul_supply_raw = show_int (soul_supply_raw st),
           resume_stakers_count = stakers_count st, resume_masters_count = masters_count st\<rparr>,
        stake_snapshot_resume_stakes := positive_stakes hash_order st\<rparr>"

section \<open>The forward projection\<close>

record forward_report =
  fr_chain_id :: int
  fr_boundary_day :: int
  fr_boundary_masters :: int
  fr_validated :: bool
  fr_daily_upserted :: nat
  fr_monthly_upserted :: nat
  fr_resumed_from_day :: "int option"
  fr_skipped_reason :: "string option"
  fr_anomalies :: anomalies

definition skip_report :: "int \<Rightarrow> int \<Rightarrow> int \<Rightarrow> string \<Rightarrow> forward_report" where
  "skip_report chain_id day seed_masters reason =
     \<lparr>fr_chain_id = chain_id, fr_boundary_day = day, fr_boundary_masters = seed_masters, fr_validated = False,
      fr_daily_upserted = 0, fr_monthly_upserted = 0, fr_resumed_from_day = None,
      fr_skipped_reason = Some reason, fr_anomalies = no_anomalies\<rparr>"

text \<open>The choice of the replay's start: the persisted state when it stands at the day before the last
  built day and after the seed, the seed otherwise.\<close>

definition replay_start ::
    "int \<Rightarrow> stake_state \<Rightarrow> (int \<times> stake_state) option \<Rightarrow> int option \<Rightarrow> int \<times> stake_state \<times> int option" where
  "replay_start boundary_day boundary_st resume last_built =
     (case (resume, last_built) of
        (Some (resume_day, resume_st), Some last_day) \<Rightarrow>
          if resume_day + STAKE_SNAPSHOT_SECONDS_PER_DAY = last_day \<and> boundary_day < resume_day
          then (resume_day + STAKE_SNAPSHOT_SECONDS_PER_DAY, resume_st, Some resume_day)
          else (boundary_day + STAKE_SNAPSHOT_SECONDS_PER_DAY, boundary_st, None)
      | _ \<Rightarrow> (boundary_day + STAKE_SNAPSHOT_SECONDS_PER_DAY, boundary_st, None))"

type_synonym monthly_rollup =
  "int \<Rightarrow> int \<Rightarrow> (int \<times> daily_point \<times> string) list \<Rightarrow> (int \<times> int) list \<Rightarrow> (int \<times> int) list \<times> nat"

definition project_stake_snapshots_forward_in_tx ::
    "(string \<Rightarrow> int option) \<Rightarrow> ((string \<rightharpoonup> int) \<Rightarrow> string list) \<Rightarrow> monthly_rollup \<Rightarrow> int \<Rightarrow> stake_db \<Rightarrow>
     stake_error + (stake_db \<times> forward_report)" where
  "project_stake_snapshots_forward_in_tx from_str hash_order rollup chain_id db =
     and_then (load_stake_boundary_slice from_str db) (\<lambda>seed.
     case seed of
       None \<Rightarrow> Inr (db, skip_report chain_id 0 0 ''stake seed not captured; run capture_stake_boundary_slice first'')
     | Some (boundary_day, boundary_st) \<Rightarrow>
     (case cursor_timestamp db of
       None \<Rightarrow> Inr (db, skip_report chain_id boundary_day (masters_count boundary_st)
                      ''chain has no projected block timestamp'')
     | Some cursor_ts \<Rightarrow>
     (let target_exclusive_day = stake_snapshot_day_start cursor_ts + STAKE_SNAPSHOT_SECONDS_PER_DAY;
          cursor_day = target_exclusive_day - STAKE_SNAPSHOT_SECONDS_PER_DAY;
          from_day = boundary_day + STAKE_SNAPSHOT_SECONDS_PER_DAY;
          last_built_day = load_max_projected_daily_day db
      in if target_exclusive_day \<le> from_day
         then Inr (db, skip_report chain_id boundary_day (masters_count boundary_st)
                      ''boundary is already at the tip; nothing to build'')
         else if (case last_built_day of None \<Rightarrow> False | Some d \<Rightarrow> cursor_day \<le> d)
         then Inr (db, skip_report chain_id boundary_day (masters_count boundary_st)
                      ''curve already built through the tip; nothing to rebuild'')
         else and_then (load_stake_snapshot_resume from_str db) (\<lambda>resume.
           let (replay_from_day, replay_state, resumed_from_day) =
                 replay_start boundary_day boundary_st resume last_built_day
           in and_then (load_stake_snapshot_events from_str (event_log db) replay_from_day cursor_ts no_anomalies)
             (\<lambda>(events, an).
                let (curve, closed, an) =
                      build_stake_snapshot_daily_points replay_state events replay_from_day target_exclusive_day an;
                    dailies = upsert_stake_snapshot_daily_points curve (staking_progress_dailies db);
                    (monthlies, monthly_upserted) =
                      rollup boundary_day target_exclusive_day dailies (soul_masters_monthlies db);
                    db1 = db\<lparr>staking_progress_dailies := dailies, soul_masters_monthlies := monthlies\<rparr>;
                    db2 = (case closed of None \<Rightarrow> db1
                           | Some (day, st) \<Rightarrow> save_stake_snapshot_resume hash_order day st db1)
                in Inr (db2,
                     \<lparr>fr_chain_id = chain_id, fr_boundary_day = boundary_day,
                      fr_boundary_masters = masters_count boundary_st, fr_validated = True,
                      fr_daily_upserted = length curve, fr_monthly_upserted = monthly_upserted,
                      fr_resumed_from_day = resumed_from_day, fr_skipped_reason = None,
                      fr_anomalies = an\<rparr>))))))"

section \<open>Carbon integers round trip\<close>

definition hex_char :: "nat \<Rightarrow> char" where
  "hex_char d = char_of (if d < 10 then 48 + d else 55 + d)"

definition hex_byte :: "nat \<Rightarrow> string" where
  "hex_byte b = [hex_char (b div 16), hex_char (b mod 16)]"

definition word_byte :: "u64 \<Rightarrow> nat \<Rightarrow> nat" where
  "word_byte w i = unat (take_bit 8 (drop_bit (8 * i) w))"

text \<open>The eight-byte form of the Carbon integer encoding: a header byte with the length and the
  sign flag, then the two's complement bytes, low byte first.\<close>

definition carbon_intx :: "int \<Rightarrow> string" where
  "carbon_intx n = hex_byte (if n < 0 then 136 else 8)
     @ concat (map (\<lambda>i. hex_byte (word_byte (word_of_int n) i)) [0..<8])"

lemma code_hex_char: "d < 16 \<Longrightarrow> code (hex_char d) = (if d < 10 then 48 + d else 55 + d)"
  by (simp add: hex_char_def)

lemma hex_digit_val_hex_char: "d < 16 \<Longrightarrow> hex_digit_val (hex_char d) = Some d"
  by (simp add: hex_digit_val_def code_hex_char)

lemma hex_char_visible: "d < 16 \<Longrightarrow> visible_ascii (hex_char d)"
  by (simp add: visible_ascii_def code_hex_char)

lemma hex_char_not_plus: "d < 16 \<Longrightarrow> hex_char d \<noteq> CHR ''+''"
proof
  assume "d < 16" "hex_char d = CHR ''+''"
  then have "code (hex_char d) = 43" by simp
  with \<open>d < 16\<close> show False by (simp add: code_hex_char split: if_splits)
qed

lemma u8_from_hex_byte: "b < 256 \<Longrightarrow> u8_from_hex (hex_byte b) = Inr b"
  by (simp add: u8_from_hex_def hex_byte_def hex_digit_val_hex_char hex_char_not_plus less_mult_imp_div_less)

lemma word_byte_less: "word_byte w i < 256"
  unfolding word_byte_def using take_bit_nat_less_exp [of 8 "unat (drop_bit (8 * i) w)"]
  by (simp add: unsigned_take_bit_eq)

definition or_byte :: "u64 \<Rightarrow> nat \<Rightarrow> u64 \<Rightarrow> u64" where
  "or_byte w i raw = raw OR push_bit (i * 8) (of_nat (word_byte w i))"

lemma bit_or_byte:
  "n < 64 \<Longrightarrow> bit (or_byte w i raw) n \<longleftrightarrow> bit raw n \<or> i * 8 \<le> n \<and> n - i * 8 < 8 \<and> bit w n"
  by (auto simp: or_byte_def word_byte_def bit_simps mult.commute)

lemma bit_fold_or_byte:
  "n < 64 \<Longrightarrow> bit (fold (or_byte w) is raw) n \<longleftrightarrow>
     bit raw n \<or> (\<exists>i\<in>set is. i * 8 \<le> n \<and> n - i * 8 < 8 \<and> bit w n)"
  by (induction "is" arbitrary: raw) (auto simp: bit_or_byte)

lemma word_of_bytes: "fold (or_byte w) [0..<8] 0 = w"
proof (rule bit_eqI)
  fix n
  assume "possible_bit TYPE(64 word) n"
  then have n: "n < 64" by simp
  have "n div 8 \<in> set [0..<8]" "n div 8 * 8 \<le> n" "n - n div 8 * 8 < 8"
    using n by (simp_all add: less_mult_imp_div_less minus_div_mult_eq_mod)
  with n show "bit (fold (or_byte w) [0..<8] 0) n = bit w n"
    unfolding bit_fold_or_byte [OF n] bit_0_eq bot_apply bot_bool_def by blast
qed

lemma slice_ascii:
  assumes "\<forall>c\<in>set s. code c < 128" "i \<le> j" "j \<le> length s"
  shows "slice s i j = Some (take (j - i) (drop i s))"
proof -
  have "is_char_boundary s k" if "k \<le> length s" for k
    using assms(1) that nth_mem [of k s] by (fastforce simp: is_char_boundary_def)
  with assms show ?thesis by (simp add: slice_def)
qed

lemma hex_byte_ascii: "b < 256 \<Longrightarrow> c \<in> set (hex_byte b) \<Longrightarrow> code c < 128"
  by (auto simp: hex_byte_def code_hex_char less_mult_imp_div_less split: if_splits)

lemma length_hex_bytes: "length (concat (map (\<lambda>i. hex_byte (f i)) is)) = 2 * length is"
  by (induction "is") (simp_all add: hex_byte_def)

lemma nth_hex_bytes:
  "k < length is \<Longrightarrow> take 2 (drop (2 * k) (concat (map (\<lambda>i. hex_byte (f i)) is))) = hex_byte (f (is ! k))"
proof (induction "is" arbitrary: k)
  case (Cons i "is")
  then show ?case by (cases k) (simp_all add: hex_byte_def numeral_2_eq_2)
qed simp

lemma carbon_intx_ascii: "c \<in> set (carbon_intx n) \<Longrightarrow> code c < 128"
  using word_byte_less hex_byte_ascii [of 136 c] hex_byte_ascii [of 8 c]
  by (auto simp: carbon_intx_def split: if_splits intro: hex_byte_ascii)

lemma length_carbon_intx: "length (carbon_intx n) = 18"
  by (simp add: carbon_intx_def length_hex_bytes) (simp add: hex_byte_def)

lemma carbon_intx_byte:
  assumes "i < 8"
  shows "slice (carbon_intx n) (2 + i * 2) (2 + i * 2 + 2) = Some (hex_byte (word_byte (word_of_int n) i))"
proof -
  have "slice (carbon_intx n) (2 + i * 2) (2 + i * 2 + 2) = Some (take 2 (drop (2 + i * 2) (carbon_intx n)))"
    using assms carbon_intx_ascii by (subst slice_ascii) (auto simp: length_carbon_intx)
  also have "drop (2 + i * 2) (carbon_intx n) = drop (2 * i) (concat (map (\<lambda>i. hex_byte (word_byte (word_of_int n) i)) [0..<8]))"
    by (simp add: carbon_intx_def hex_byte_def mult.commute del: upt_rec_numeral)
  also have "take 2 \<dots> = hex_byte (word_byte (word_of_int n) i)"
    using nth_hex_bytes [of i "[0..<8]"] assms by (simp del: upt_rec_numeral)
  finally show ?thesis .
qed

lemma intx_bytes_carbon:
  "\<forall>i\<in>set is. i < 8 \<Longrightarrow>
   intx_bytes field (carbon_intx n) is raw = Inr (fold (or_byte (word_of_int n)) is raw)"
proof (induction "is" arbitrary: raw)
  case (Cons i "is")
  then have "slice (carbon_intx n) (2 + i * 2) (2 + i * 2 + 2) = Some (hex_byte (word_byte (word_of_int n) i))"
    by (intro carbon_intx_byte) simp
  with Cons show ?case
    by (simp add: u8_from_hex_byte [OF word_byte_less] or_byte_def del: add_2_eq_Suc add_2_eq_Suc')
qed simp

lemma trim_carbon_intx: "trim (carbon_intx n) = carbon_intx n"
proof (rule trim_visible)
  have c: "carbon_intx n = hex_byte (if n < 0 then 136 else 8)
      @ concat (map (\<lambda>i. hex_byte (word_byte (word_of_int n) i)) [0..<7]) @ hex_byte (word_byte (word_of_int n) 7)"
    by (simp add: carbon_intx_def upt_rec numeral_eq_Suc)
  show "carbon_intx n \<noteq> []" using length_carbon_intx [of n] by auto
  show "visible_ascii (hd (carbon_intx n))" unfolding c by (simp add: hex_byte_def hex_char_visible)
  have "last (carbon_intx n) = hex_char (word_byte (word_of_int n) 7 mod 16)" unfolding c by (simp add: hex_byte_def)
  then show "visible_ascii (last (carbon_intx n))" by (simp add: hex_char_visible)
qed

lemma sint_word_of_int_i64:
  assumes "- (2 ^ 63) \<le> n" "n < 2 ^ 63"
  shows "sint (word_of_int n :: u64) = n"
proof -
  have "sint (word_of_int n :: u64) = signed_take_bit 63 n"
    using signed_of_int [where 'a = int and 'b = 64, of n] by simp
  with assms show ?thesis by (simp add: signed_take_bit_int_eq_self)
qed

lemma parse_carbon_intx:
  assumes "- (2 ^ 63) \<le> n" "n < 2 ^ 63"
  shows "parse_carbon_intx_i64_raw field (carbon_intx n) = Inr n"
proof -
  have "slice (carbon_intx n) 0 2 = Some (hex_byte (if n < 0 then 136 else 8))"
    using carbon_intx_ascii [of _ n] length_carbon_intx [of n]
    by (subst slice_ascii) (auto simp: carbon_intx_def hex_byte_def)
  moreover have "u8_from_hex (hex_byte (if n < 0 then 136 else 8)) = Inr (if n < 0 then 136 else 8)"
    by (rule u8_from_hex_byte) simp
  ultimately show ?thesis
    using intx_bytes_carbon [of "[0..<8]" field n 0] word_of_bytes [of "word_of_int n"] sint_word_of_int_i64 [OF assms]
    by (simp add: parse_carbon_intx_i64_raw_def trim_carbon_intx length_carbon_intx del: upt_rec_numeral)
qed

section \<open>Loading and saving states\<close>

text \<open>What the callers rely on: \<open>BigInt::from_str\<close> reads decimal integers, and iterating over a
  \<open>HashMap\<close> visits every key once.\<close>

definition reads_decimals :: "(string \<Rightarrow> int option) \<Rightarrow> bool" where
  "reads_decimals from_str \<longleftrightarrow> (\<forall>n. from_str (show_int n) = Some n)"

definition lists_keys :: "((string \<rightharpoonup> int) \<Rightarrow> string list) \<Rightarrow> bool" where
  "lists_keys hash_order \<longleftrightarrow>
     (\<forall>m. finite (dom m) \<longrightarrow> distinct (hash_order m) \<and> set (hash_order m) = dom m)"

lemma parse_raw_show_int:
  "reads_decimals from_str \<Longrightarrow> parse_stake_snapshot_raw from_str field (show_int n) = Inr n"
  by (simp add: reads_decimals_def parse_stake_snapshot_raw_def)

lemma stake_inv_empty: "stake_inv (empty_stakes supply)"
  using threshold_pos by (simp add: empty_stakes_def stake_inv_def masters_def amount_def)

lemma stake_inv_add_new:
  assumes "stake_inv st" "a \<notin> dom (stakes_by_address st)" "0 < v"
  shows "stake_inv (st\<lparr>masters_count := masters_count st + (if stake_snapshot_master_threshold \<le> v then 1 else 0),
             stakers_count := stakers_count st + 1, total_staked_raw := total_staked_raw st + v,
             stakes_by_address := (stakes_by_address st)(a \<mapsto> v)\<rparr>)"
proof -
  let ?m = "stakes_by_address st"
  have set: "?m(a \<mapsto> v) = set_stake ?m a v" using assms(3) by (simp add: set_stake_def)
  have fin: "finite (dom ?m)" "finite (masters ?m)"
    using assms(1) finite_subset [OF masters_subset] by (auto simp: stake_inv_def)
  have notm: "a \<notin> masters ?m" using assms(2) masters_subset by blast
  have "amount ?m a = 0" using assms(2) by (rule amount_outside)
  then have total: "(\<Sum>b\<in>dom (?m(a \<mapsto> v)). amount (?m(a \<mapsto> v)) b) = total_staked_raw st + v"
    using assms(1) sum_set_stake [OF fin(1), of a v] by (simp only: set stake_inv_def)
  have counts: "int (card (masters (?m(a \<mapsto> v)))) = masters_count st + (if stake_snapshot_master_threshold \<le> v then 1 else 0)"
    "int (card (dom (?m(a \<mapsto> v)))) = stakers_count st + 1"
    using assms fin notm unfolding stake_inv_def set masters_set_stake by (simp_all add: dom_set_stake)
  have "finite (dom (?m(a \<mapsto> v)))" "\<forall>x\<in>ran (?m(a \<mapsto> v)). 0 < x"
    using assms fin by (auto simp: stake_inv_def ran_def)
  then show ?thesis
    unfolding stake_inv_def by (simp add: total counts [symmetric] del: dom_fun_upd fun_upd_apply split del: if_split)
qed

lemma load_balances_inv:
  assumes "stake_inv st" "distinct (map fst rows)" "dom (stakes_by_address st) \<inter> fst ` set rows = {}"
    and "load_balances from_str rows st = Inr st'"
  shows "stake_inv st'"
  using assms
proof (induction rows arbitrary: st)
  case (Cons row rows)
  obtain a txt' where row: "row = (a, txt')" by force
  from Cons.prems(4) obtain v where v: "parse_stake_snapshot_raw from_str ''staked_amount_raw'' txt' = Inr v"
    by (auto simp: row result_eqs)
  show ?case
  proof (cases "v \<le> 0")
    case True
    with Cons.IH [OF Cons.prems(1)] Cons.prems(2-4) v show ?thesis by (simp add: row)
  next
    case False
    let ?st = "st\<lparr>masters_count := masters_count st + (if stake_snapshot_master_threshold \<le> v then 1 else 0),
             stakers_count := stakers_count st + 1, total_staked_raw := total_staked_raw st + v,
             stakes_by_address := (stakes_by_address st)(a \<mapsto> v)\<rparr>"
    have "stake_inv ?st" using Cons.prems(1,3) False by (intro stake_inv_add_new) (auto simp: row)
    moreover have "dom (stakes_by_address ?st) \<inter> fst ` set rows = {}"
      using Cons.prems(2,3) by (auto simp: row)
    moreover have "load_balances from_str rows ?st = Inr st'" using Cons.prems(4) v False by (simp add: row)
    moreover have "distinct (map fst rows)" using Cons.prems(2) by simp
    ultimately show ?thesis by (blast intro: Cons.IH)
  qed
qed simp

lemma insert_stakes_positive:
  assumes "reads_decimals from_str" "distinct ks"
  shows "insert_stakes from_str (map (\<lambda>a. (a, show_int (f a))) ks) m
     = Inr (\<lambda>a. if a \<in> set ks then Some (f a) else m a)"
  using assms(2)
proof (induction ks arbitrary: m)
  case (Cons k ks)
  then show ?case by (simp add: parse_raw_show_int [OF assms(1)]) (rule ext, simp)
qed simp

lemma resume_round_trip:
  assumes "reads_decimals from_str" "lists_keys hash_order" "stake_inv st"
  shows "load_stake_snapshot_resume from_str (save_stake_snapshot_resume hash_order day st db) = Inr (Some (day, st))"
proof -
  let ?m = "stakes_by_address st"
  let ?ks = "filter (\<lambda>a. 0 < unwrap_or (?m a) 0) (hash_order ?m)"
  have "distinct (hash_order ?m)" "set (hash_order ?m) = dom ?m"
    using assms(2,3) by (auto simp: lists_keys_def stake_inv_def)
  then have ks: "distinct ?ks" "set ?ks = dom ?m"
    using stake_inv_dom_pos [OF assms(3)] by (auto simp: amount_def)
  have "(\<lambda>a. if a \<in> dom ?m then Some (unwrap_or (?m a) 0) else None) = ?m"
    by (auto simp: fun_eq_iff domIff)
  then have "insert_stakes from_str (positive_stakes hash_order st) Map.empty = Inr ?m"
    unfolding positive_stakes_def insert_stakes_positive [OF assms(1) ks(1)] ks(2) by simp
  then show ?thesis
    by (simp add: load_stake_snapshot_resume_def save_stake_snapshot_resume_def parse_raw_show_int [OF assms(1)])
qed

section \<open>The projector over a growing chain\<close>

abbreviation (input) day_length :: int where "day_length \<equiv> STAKE_SNAPSHOT_SECONDS_PER_DAY"

lemma day_length_pos [simp]: "0 < STAKE_SNAPSHOT_SECONDS_PER_DAY"
  by (simp add: STAKE_SNAPSHOT_SECONDS_PER_DAY_def)

text \<open>The conversion of a record does not depend on the anomalies collected so far.\<close>

definition row_of :: "(string \<Rightarrow> int option) \<Rightarrow> event_record \<Rightarrow> stake_row" where
  "row_of from_str r = fst (projr (load_row from_str r no_anomalies))"

definition converts :: "(string \<Rightarrow> int option) \<Rightarrow> event_record \<Rightarrow> bool" where
  "converts from_str r \<longleftrightarrow> \<not> isl (load_row from_str r no_anomalies)"

lemma inflation_delta_any:
  assumes "inflation_delta r an = Inr (delta, an1)"
  shows "\<exists>an2. inflation_delta r an' = Inr (delta, an2)"
  using assms by (auto simp: inflation_delta_def split: if_splits option.splits sum.splits stake_error.splits)

lemma load_row_any:
  assumes "converts from_str r"
  shows "\<exists>an'. load_row from_str r an = Inr (row_of from_str r, an')"
proof -
  from assms obtain row an1 where "load_row from_str r no_anomalies = Inr (row, an1)"
    by (cases "load_row from_str r no_anomalies") (auto simp: converts_def)
  moreover from this obtain an2 where "load_row from_str r an = Inr (row, an2)"
    unfolding load_row_def and_then_eq_Inr by (auto dest: inflation_delta_any [where an' = an])
  ultimately show ?thesis by (simp add: row_of_def)
qed

lemma row_of_timestamp: "converts from_str r \<Longrightarrow> row_timestamp (row_of from_str r) = rec_timestamp r"
  using load_row_any [of from_str r no_anomalies]
  by (auto simp: load_row_def and_then_eq_Inr dest!: arg_cong [where f = row_timestamp])

lemma load_rows_converts:
  "\<forall>r\<in>set rs. converts from_str r \<Longrightarrow> \<exists>an'. load_rows from_str rs an = Inr (map (row_of from_str) rs, an')"
proof (induction rs arbitrary: an)
  case (Cons r rs)
  from load_row_any [of from_str r an] Cons.prems obtain an1 where r: "load_row from_str r an = Inr (row_of from_str r, an1)"
    by auto
  from Cons.IH [of an1] Cons.prems obtain an2 where "load_rows from_str rs an1 = Inr (map (row_of from_str) rs, an2)"
    by auto
  with r show ?case by simp
qed simp

definition log_rows :: "(string \<Rightarrow> int option) \<Rightarrow> stake_db \<Rightarrow> stake_row list" where
  "log_rows from_str db = map (row_of from_str) (event_log db)"

text \<open>A well-formed log up to a tip: every record converts, none is later than the tip, and the
  order is the loader's.\<close>

definition log_ok :: "(string \<Rightarrow> int option) \<Rightarrow> int \<Rightarrow> stake_db \<Rightarrow> bool" where
  "log_ok from_str tip db \<longleftrightarrow>
     (\<forall>r\<in>set (event_log db). converts from_str r \<and> rec_timestamp r \<le> tip) \<and> ordered_rows (log_rows from_str db)"

lemma load_events_after:
  assumes "log_ok from_str tip db"
  shows "\<exists>an'. load_stake_snapshot_events from_str (event_log db) from_ts tip an
           = Inr (after (from_ts - 1) (log_rows from_str db), an')"
proof -
  have rows: "map (row_of from_str) (filter (\<lambda>r. from_ts \<le> rec_timestamp r \<and> rec_timestamp r \<le> tip) (event_log db))
      = after (from_ts - 1) (log_rows from_str db)"
    unfolding after_def log_rows_def filter_map o_def
    using assms by (intro arg_cong [where f = "map (row_of from_str)"] filter_cong)
                   (auto simp: log_ok_def row_of_timestamp)
  have "\<forall>r\<in>set (filter (\<lambda>r. from_ts \<le> rec_timestamp r \<and> rec_timestamp r \<le> tip) (event_log db)). converts from_str r"
    using assms by (simp add: log_ok_def)
  from load_rows_converts [OF this, of an] show ?thesis
    unfolding load_stake_snapshot_events_def rows .
qed

lemma map_of_upsert: "map_of (upsert k v kvs) = (map_of kvs)(k \<mapsto> v)"
  by (induction k v kvs rule: upsert.induct) (auto simp: fun_eq_iff)

definition projected_days :: "(int \<times> daily_point \<times> string) list \<Rightarrow> int set" where
  "projected_days dailies = {d. \<exists>p. (d, p, STAKE_SNAPSHOT_PROJECTOR_SOURCE) \<in> set dailies}"

lemma projected_days_Cons:
  "projected_days ((d, p, s) # dailies) =
     (if s = STAKE_SNAPSHOT_PROJECTOR_SOURCE then insert d (projected_days dailies) else projected_days dailies)"
  by (auto simp: projected_days_def)

lemma projected_days_upsert:
  "projected_days (upsert d (p, STAKE_SNAPSHOT_PROJECTOR_SOURCE) dailies) = insert d (projected_days dailies)"
proof (induction dailies)
  case (Cons e dailies)
  obtain d' p' s' where "e = (d', p', s')" by (metis prod.collapse)
  with Cons show ?case by (auto simp: projected_days_Cons)
qed (simp add: projected_days_def)

lemma upsert_points_days:
  "projected_days (upsert_stake_snapshot_daily_points points dailies) = projected_days dailies \<union> point_date ` set points"
  unfolding upsert_stake_snapshot_daily_points_def
  by (induction points arbitrary: dailies) (auto simp: projected_days_upsert)

lemma upsert_points_lookup:
  "map_of (upsert_stake_snapshot_daily_points (map (\<lambda>d. daily_point_of d (f d)) days) dailies) day =
     (if day \<in> set days then Some (daily_point_of day (f day), STAKE_SNAPSHOT_PROJECTOR_SOURCE)
      else map_of dailies day)"
  unfolding upsert_stake_snapshot_daily_points_def
  by (induction days arbitrary: dailies) (auto simp: map_of_upsert daily_point_of_def)

lemma finite_projected_days: "finite (projected_days dailies)"
  by (rule finite_subset [of _ "fst ` set dailies"]) (force simp: projected_days_def)+

lemma load_max_spec:
  "load_max_projected_daily_day db =
     (if projected_days (staking_progress_dailies db) = {} then None
      else Some (Max (projected_days (staking_progress_dailies db))))"
proof -
  let ?days = "map fst (filter (\<lambda>(_, _, source). source = STAKE_SNAPSHOT_PROJECTOR_SOURCE) (staking_progress_dailies db))"
  have set: "set ?days = projected_days (staking_progress_dailies db)"
    by (force simp: projected_days_def)
  show ?thesis
  proof (cases "?days = []")
    case True
    with set show ?thesis unfolding load_max_projected_daily_day_def Let_def by (metis empty_set)
  next
    case False
    then have "fold max (tl ?days) (hd ?days) = Max (set ?days)"
      by (metis Max.set_eq_fold list.collapse)
    with set False show ?thesis unfolding load_max_projected_daily_day_def Let_def by (metis set_empty)
  qed
qed

lemma mod_day_step: "(d - (day + day_length)) mod day_length = (d - day) mod day_length"
  by (metis diff_diff_eq minus_mod_self2)

lemma day_range_iff: "d \<in> set (day_range day to_day) \<longleftrightarrow> day \<le> d \<and> d < to_day \<and> (d - day) mod day_length = 0"
proof (induction day to_day rule: day_range.induct)
  case (1 day to_day)
  have *: "day \<le> d \<and> (d - day) mod day_length = 0 \<longleftrightarrow> d = day \<or> day + day_length \<le> d \<and> (d - day) mod day_length = 0"
  proof (cases "d - day < day_length")
    case True
    then show ?thesis using zdvd_not_zless [of "d - day" day_length]
      by (cases d day rule: linorder_cases) (auto simp: mod_eq_0_iff_dvd)
  next
    case False
    then show ?thesis using day_length_pos by linarith
  qed
  show ?case
  proof (cases "day < to_day")
    case True
    with 1 * show ?thesis by (subst day_range.simps) (auto simp: mod_day_step)
  next
    case False
    then show ?thesis by (subst day_range.simps) auto
  qed
qed

section \<open>Resuming never changes the curve\<close>

text \<open>The rows the curve is a function of: everything after the seed day.\<close>

definition curve_rows :: "(string \<Rightarrow> int option) \<Rightarrow> int \<Rightarrow> stake_db \<Rightarrow> stake_row list" where
  "curve_rows from_str seed_day db = after (stake_snapshot_day_end seed_day) (log_rows from_str db)"

text \<open>The static context of a projected chain: a captured seed on a day boundary and a well-formed log
  up to the tip.\<close>

definition projected_chain ::
    "(string \<Rightarrow> int option) \<Rightarrow> int \<Rightarrow> stake_state \<Rightarrow> int \<Rightarrow> stake_db \<Rightarrow> bool" where
  "projected_chain from_str seed_day seed tip db \<longleftrightarrow>
     load_stake_boundary_slice from_str db = Inr (Some (seed_day, seed))
     \<and> seed_day mod STAKE_SNAPSHOT_SECONDS_PER_DAY = 0 \<and> stake_inv seed
     \<and> cursor_timestamp db = Some tip \<and> log_ok from_str tip db"

text \<open>The stored curve is faithful: its projected days are day boundaries after the seed and not
  after the tip's day, every closed day holds the point of the full rebuild, and the persisted
  state, where it can be used, is the state of the full rebuild at its day.\<close>

definition curve_faithful ::
    "(string \<Rightarrow> int option) \<Rightarrow> int \<Rightarrow> stake_state \<Rightarrow> int \<Rightarrow> stake_db \<Rightarrow> bool" where
  "curve_faithful from_str seed_day seed tip db \<longleftrightarrow>
     (\<exists>resume. load_stake_snapshot_resume from_str db = Inr resume
       \<and> (\<forall>last. load_max_projected_daily_day db = Some last \<longrightarrow>
            last mod STAKE_SNAPSHOT_SECONDS_PER_DAY = 0 \<and> seed_day < last \<and> last \<le> stake_snapshot_day_start tip
          \<and> (\<forall>day \<in> set (day_range (seed_day + STAKE_SNAPSHOT_SECONDS_PER_DAY) last).
               map_of (staking_progress_dailies db) day
                 = Some (daily_point_of day (state_at (curve_rows from_str seed_day db) seed day),
                         STAKE_SNAPSHOT_PROJECTOR_SOURCE))
          \<and> (\<forall>day st. resume = Some (day, st) \<longrightarrow> day + STAKE_SNAPSHOT_SECONDS_PER_DAY = last \<longrightarrow>
               seed_day < day \<longrightarrow> st = state_at (curve_rows from_str seed_day db) seed day)))"

lemma after_after: "t \<le> t' \<Longrightarrow> after t' (after t rows) = after t' rows"
  by (auto simp: after_def intro!: filter_cong)

lemma curve_rows_ordered: "projected_chain from_str seed_day seed tip db \<Longrightarrow> ordered_rows (curve_rows from_str seed_day db)"
  by (simp add: projected_chain_def log_ok_def curve_rows_def ordered_rows_after)

lemma state_at_seed: "state_at (curve_rows from_str seed_day db) seed seed_day = seed"
proof -
  have "until (stake_snapshot_day_end seed_day) (curve_rows from_str seed_day db) = []"
    by (auto simp: until_def curve_rows_def after_def filter_empty_conv)
  then show ?thesis by (simp add: state_at_def)
qed

lemma state_at_inv: "stake_inv st \<Longrightarrow> stake_inv (state_at rows st day)"
  unfolding state_at_def replay_def by (rule fold_tx_effect_inv) simp

text \<open>Building from any day whose state is the rebuild's gives the rebuild's points and anchor.\<close>

lemma build_from_day:
  assumes ctx: "projected_chain from_str seed_day seed tip db" and "seed_day \<le> day"
    and "st = state_at (curve_rows from_str seed_day db) seed day"
    and "build_stake_snapshot_daily_points st (after (stake_snapshot_day_end day) (log_rows from_str db))
           (day + STAKE_SNAPSHOT_SECONDS_PER_DAY) to_day an = (points, closed, an')"
  shows "points = map (\<lambda>d. daily_point_of d (state_at (curve_rows from_str seed_day db) seed d))
                    (day_range (day + STAKE_SNAPSHOT_SECONDS_PER_DAY) to_day)"
    and "closed = (if to_day - 2 * STAKE_SNAPSHOT_SECONDS_PER_DAY
                       \<in> set (day_range (day + STAKE_SNAPSHOT_SECONDS_PER_DAY) to_day)
                   then Some (to_day - 2 * STAKE_SNAPSHOT_SECONDS_PER_DAY,
                     state_at (curve_rows from_str seed_day db) seed (to_day - 2 * STAKE_SNAPSHOT_SECONDS_PER_DAY))
                   else None)"
proof -
  let ?rows = "curve_rows from_str seed_day db"
  have rows: "after (stake_snapshot_day_end day) (log_rows from_str db) = after (stake_snapshot_day_end day) ?rows"
    unfolding curve_rows_def using assms(2) by (simp add: after_after day_end_mono)
  have ord: "ordered_rows (after (stake_snapshot_day_end day) ?rows)"
    by (rule ordered_rows_after [OF curve_rows_ordered [OF ctx]])
  have later: "state_at (after (stake_snapshot_day_end day) ?rows) st d = state_at ?rows seed d"
    if "d \<in> set (day_range (day + STAKE_SNAPSHOT_SECONDS_PER_DAY) to_day)" for d
  proof -
    have "day \<le> d" using day_range_ge [OF that] day_length_pos by linarith
    then show ?thesis unfolding assms(3) by (rule state_at_after [OF curve_rows_ordered [OF ctx]])
  qed
  have built: "build_days (day + STAKE_SNAPSHOT_SECONDS_PER_DAY) to_day
      (after (stake_snapshot_day_end day) ?rows) st None an = (points, closed, an')"
    using assms(4) unfolding build_stake_snapshot_daily_points_def rows .
  note spec = build_days_spec [OF ord, of "day + STAKE_SNAPSHOT_SECONDS_PER_DAY" to_day st None an, unfolded built fst_conv snd_conv]
  from spec later
  show "points = map (\<lambda>d. daily_point_of d (state_at ?rows seed d)) (day_range (day + STAKE_SNAPSHOT_SECONDS_PER_DAY) to_day)"
    by simp
  from spec later
  show "closed = (if to_day - 2 * STAKE_SNAPSHOT_SECONDS_PER_DAY
                       \<in> set (day_range (day + STAKE_SNAPSHOT_SECONDS_PER_DAY) to_day)
                   then Some (to_day - 2 * STAKE_SNAPSHOT_SECONDS_PER_DAY,
                     state_at ?rows seed (to_day - 2 * STAKE_SNAPSHOT_SECONDS_PER_DAY)) else None)"
    by simp
qed

lemma day_start_aligned: "stake_snapshot_day_start t mod STAKE_SNAPSHOT_SECONDS_PER_DAY = 0"
  by (simp add: stake_snapshot_day_start_def mod_eq_0_iff_dvd)

lemma aligned_diff:
  "a mod STAKE_SNAPSHOT_SECONDS_PER_DAY = 0 \<Longrightarrow> b mod STAKE_SNAPSHOT_SECONDS_PER_DAY = 0 \<Longrightarrow>
   (a - b) mod STAKE_SNAPSHOT_SECONDS_PER_DAY = 0"
  by (simp add: mod_eq_0_iff_dvd)

lemma aligned_step:
  assumes "a mod STAKE_SNAPSHOT_SECONDS_PER_DAY = 0" "b mod STAKE_SNAPSHOT_SECONDS_PER_DAY = 0" "a < b"
  shows "a + STAKE_SNAPSHOT_SECONDS_PER_DAY \<le> b"
  using zdvd_imp_le [of STAKE_SNAPSHOT_SECONDS_PER_DAY "b - a"] assms by (auto simp: mod_eq_0_iff_dvd)

text \<open>The start the projection chooses is a day of the rebuild, with its state.\<close>

lemma replay_start_faithful:
  assumes "projected_chain from_str seed_day seed tip db" "curve_faithful from_str seed_day seed tip db"
    and "load_stake_snapshot_resume from_str db = Inr resume"
    and "replay_start seed_day seed resume (load_max_projected_daily_day db) = (from_day, st, resumed)"
  obtains day where "from_day = day + STAKE_SNAPSHOT_SECONDS_PER_DAY" "seed_day \<le> day"
    "st = state_at (curve_rows from_str seed_day db) seed day"
    "day mod STAKE_SNAPSHOT_SECONDS_PER_DAY = 0"
    "day = seed_day \<or> load_max_projected_daily_day db = Some (day + STAKE_SNAPSHOT_SECONDS_PER_DAY)"
proof (cases "\<exists>d s. resume = Some (d, s) \<and> load_max_projected_daily_day db = Some (d + STAKE_SNAPSHOT_SECONDS_PER_DAY)
    \<and> seed_day < d")
  case True
  then obtain d s where d: "resume = Some (d, s)" "load_max_projected_daily_day db = Some (d + STAKE_SNAPSHOT_SECONDS_PER_DAY)"
    "seed_day < d" by blast
  with assms(2,3) have "s = state_at (curve_rows from_str seed_day db) seed d"
      "(d + STAKE_SNAPSHOT_SECONDS_PER_DAY) mod STAKE_SNAPSHOT_SECONDS_PER_DAY = 0"
    by (auto simp: curve_faithful_def)
  with d assms(4) show thesis by (intro that [of d]) (auto simp: replay_start_def)
next
  case False
  then have "replay_start seed_day seed resume (load_max_projected_daily_day db) =
      (seed_day + STAKE_SNAPSHOT_SECONDS_PER_DAY, seed, None)"
    by (auto simp: replay_start_def split: option.splits)
  with assms(1,4) show thesis
    by (intro that [of seed_day]) (auto simp: state_at_seed projected_chain_def)
qed

lemma save_resume_frame [simp]:
  "block_timestamps (save_stake_snapshot_resume h day st db) = block_timestamps db"
  "cursor_timestamp (save_stake_snapshot_resume h day st db) = cursor_timestamp db"
  "event_log (save_stake_snapshot_resume h day st db) = event_log db"
  "stake_boundary_state (save_stake_snapshot_resume h day st db) = stake_boundary_state db"
  "stake_boundary_balances (save_stake_snapshot_resume h day st db) = stake_boundary_balances db"
  "staking_progress_dailies (save_stake_snapshot_resume h day st db) = staking_progress_dailies db"
  by (simp_all add: save_stake_snapshot_resume_def)

text \<open>The tables a building run leaves behind.\<close>

definition built_db ::
    "((string \<rightharpoonup> int) \<Rightarrow> string list) \<Rightarrow> daily_point list \<Rightarrow> (int \<times> stake_state) option \<Rightarrow> (int \<times> int) list \<Rightarrow>
     stake_db \<Rightarrow> stake_db" where
  "built_db hash_order curve closed monthlies db =
     (let db1 = db\<lparr>staking_progress_dailies := upsert_stake_snapshot_daily_points curve (staking_progress_dailies db),
                   soul_masters_monthlies := monthlies\<rparr>
      in case closed of None \<Rightarrow> db1 | Some (day, st) \<Rightarrow> save_stake_snapshot_resume hash_order day st db1)"

lemma built_db_frame:
  "cursor_timestamp (built_db h curve closed ms db) = cursor_timestamp db"
  "event_log (built_db h curve closed ms db) = event_log db"
  "stake_boundary_state (built_db h curve closed ms db) = stake_boundary_state db"
  "stake_boundary_balances (built_db h curve closed ms db) = stake_boundary_balances db"
  "staking_progress_dailies (built_db h curve closed ms db)
     = upsert_stake_snapshot_daily_points curve (staking_progress_dailies db)"
  by (simp_all add: built_db_def Let_def split: option.splits)

lemma built_db_chain:
  "projected_chain from_str seed_day seed tip (built_db h curve closed ms db) = projected_chain from_str seed_day seed tip db"
  "curve_rows from_str seed_day (built_db h curve closed ms db) = curve_rows from_str seed_day db"
  by (simp_all add: projected_chain_def load_stake_boundary_slice_def log_ok_def log_rows_def curve_rows_def built_db_frame
        cong: option.case_cong)

text \<open>The projection's outcome on a projected chain: it never fails, and it either skips or builds
  from the day the resume rule chooses.\<close>

lemma project_outcome:
  assumes ctx: "projected_chain from_str seed_day seed tip db"
    and resume: "load_stake_snapshot_resume from_str db = Inr resume"
  defines "C \<equiv> stake_snapshot_day_start tip"
  shows "if C \<le> seed_day \<or> (\<exists>d. load_max_projected_daily_day db = Some d \<and> C \<le> d)
     then \<exists>rep. project_stake_snapshots_forward_in_tx from_str h rollup chain_id db = Inr (db, rep)
            \<and> fr_skipped_reason rep \<noteq> None
     else \<exists>from_day st resumed an curve closed an' ms rep.
            replay_start seed_day seed resume (load_max_projected_daily_day db) = (from_day, st, resumed)
          \<and> build_stake_snapshot_daily_points st (after (from_day - 1) (log_rows from_str db)) from_day
              (C + STAKE_SNAPSHOT_SECONDS_PER_DAY) an = (curve, closed, an')
          \<and> project_stake_snapshots_forward_in_tx from_str h rollup chain_id db
              = Inr (built_db h curve closed ms db, rep)"
proof -
  have seed: "load_stake_boundary_slice from_str db = Inr (Some (seed_day, seed))"
    and cur: "cursor_timestamp db = Some tip" and log: "log_ok from_str tip db"
    using ctx by (simp_all add: projected_chain_def)
  show ?thesis
  proof (cases "C \<le> seed_day \<or> (\<exists>d. load_max_projected_daily_day db = Some d \<and> C \<le> d)")
    case True
    then show ?thesis
      by (auto simp: project_stake_snapshots_forward_in_tx_def seed cur C_def skip_report_def Let_def)
  next
    case False
    obtain from_day st resumed where start:
        "replay_start seed_day seed resume (load_max_projected_daily_day db) = (from_day, st, resumed)"
      by (metis prod.collapse)
    obtain an where ev: "load_stake_snapshot_events from_str (event_log db) from_day tip no_anomalies
        = Inr (after (from_day - 1) (log_rows from_str db), an)"
      using load_events_after [OF log] by blast
    obtain curve closed an' where build:
        "build_stake_snapshot_daily_points st (after (from_day - 1) (log_rows from_str db)) from_day
              (C + STAKE_SNAPSHOT_SECONDS_PER_DAY) an = (curve, closed, an')"
      by (metis prod.collapse)
    obtain ms n where ms: "rollup seed_day (C + STAKE_SNAPSHOT_SECONDS_PER_DAY)
        (upsert_stake_snapshot_daily_points curve (staking_progress_dailies db)) (soul_masters_monthlies db) = (ms, n)"
      by force
    have "\<exists>rep. project_stake_snapshots_forward_in_tx from_str h rollup chain_id db = Inr (built_db h curve closed ms db, rep)"
      using False start ev build ms
      by (auto simp: project_stake_snapshots_forward_in_tx_def seed cur resume C_def [symmetric] built_db_def Let_def
            split: option.splits)
    with False start build show ?thesis by (simp only: if_False) blast
  qed
qed

lemma max_day_range:
  assumes "a \<le> c" "(c - a) mod STAKE_SNAPSHOT_SECONDS_PER_DAY = 0"
  shows "Max (set (day_range a (c + STAKE_SNAPSHOT_SECONDS_PER_DAY))) = c"
proof (rule Max_eqI)
  fix d
  assume d: "d \<in> set (day_range a (c + STAKE_SNAPSHOT_SECONDS_PER_DAY))"
  show "d \<le> c"
  proof (rule ccontr)
    assume "\<not> d \<le> c"
    moreover from d assms(2) have "(d - c) mod STAKE_SNAPSHOT_SECONDS_PER_DAY = 0"
      using aligned_diff [of "d - a" "c - a"] by (simp add: day_range_iff)
    ultimately show False
      using d aligned_step [of 0 "d - c"] by (simp add: day_range_iff)
  qed
qed (use assms day_length_pos in \<open>auto simp: day_range_iff simp del: day_length_pos\<close>)

lemma built_max:
  assumes "curve = map (\<lambda>d. daily_point_of d (f d)) (day_range from_day (C + STAKE_SNAPSHOT_SECONDS_PER_DAY))"
    and "from_day \<le> C" "(C - from_day) mod STAKE_SNAPSHOT_SECONDS_PER_DAY = 0"
    and "\<forall>d. load_max_projected_daily_day db = Some d \<longrightarrow> d < C"
  shows "load_max_projected_daily_day (built_db h curve closed ms db) = Some C"
proof -
  let ?old = "projected_days (staking_progress_dailies db)"
  let ?new = "set (day_range from_day (C + STAKE_SNAPSHOT_SECONDS_PER_DAY))"
  have days: "projected_days (staking_progress_dailies (built_db h curve closed ms db)) = ?old \<union> ?new"
    by (simp add: built_db_frame upsert_points_days assms(1) image_image daily_point_of_def)
  have "C \<in> ?new" using assms(2,3) by (simp add: day_range_iff)
  then have ne: "?new \<noteq> {}" by (metis emptyE)
  have "Max (?old \<union> ?new) = C"
  proof (cases "?old = {}")
    case True
    then show ?thesis using max_day_range [OF assms(2,3)] by simp
  next
    case False
    then have "Max ?old < C" using assms(4) by (simp add: load_max_spec)
    then show ?thesis
      using False ne finite_projected_days max_day_range [OF assms(2,3)] by (simp add: Max_Un)
  qed
  with ne show ?thesis by (simp add: load_max_spec days)
qed

lemma load_resume_built:
  assumes "reads_decimals from_str" "lists_keys h" "\<And>d s. closed = Some (d, s) \<Longrightarrow> stake_inv s"
  shows "load_stake_snapshot_resume from_str (built_db h curve closed ms db) =
     (case closed of None \<Rightarrow> load_stake_snapshot_resume from_str db | Some c \<Rightarrow> Inr (Some c))"
proof (cases closed)
  case None
  then show ?thesis
    by (simp add: built_db_def load_stake_snapshot_resume_def cong: option.case_cong)
next
  case (Some c)
  with assms(3) [of "fst c" "snd c"] resume_round_trip [OF assms(1,2), of "snd c" "fst c"] show ?thesis
    by (simp add: built_db_def case_prod_beta)
qed

lemma curve_faithful_built:
  assumes reads: "reads_decimals from_str" and keys: "lists_keys h"
    and ctx: "projected_chain from_str seed_day seed tip db" and ok: "curve_faithful from_str seed_day seed tip db"
    and C: "C = stake_snapshot_day_start tip" "seed_day < C" "\<forall>d. load_max_projected_daily_day db = Some d \<longrightarrow> d < C"
    and day: "seed_day \<le> day" "day mod STAKE_SNAPSHOT_SECONDS_PER_DAY = 0"
      "day = seed_day \<or> load_max_projected_daily_day db = Some (day + STAKE_SNAPSHOT_SECONDS_PER_DAY)"
    and curve: "curve = map (\<lambda>d. daily_point_of d (state_at (curve_rows from_str seed_day db) seed d))
                          (day_range (day + STAKE_SNAPSHOT_SECONDS_PER_DAY) (C + STAKE_SNAPSHOT_SECONDS_PER_DAY))"
    and closed: "closed = (if C + STAKE_SNAPSHOT_SECONDS_PER_DAY - 2 * STAKE_SNAPSHOT_SECONDS_PER_DAY
                       \<in> set (day_range (day + STAKE_SNAPSHOT_SECONDS_PER_DAY) (C + STAKE_SNAPSHOT_SECONDS_PER_DAY))
                   then Some (C + STAKE_SNAPSHOT_SECONDS_PER_DAY - 2 * STAKE_SNAPSHOT_SECONDS_PER_DAY,
                     state_at (curve_rows from_str seed_day db) seed
                       (C + STAKE_SNAPSHOT_SECONDS_PER_DAY - 2 * STAKE_SNAPSHOT_SECONDS_PER_DAY)) else None)"
  shows "curve_faithful from_str seed_day seed tip (built_db h curve closed ms db)"
proof -
  let ?S = STAKE_SNAPSHOT_SECONDS_PER_DAY and ?rows = "curve_rows from_str seed_day db"
  let ?db = "built_db h curve closed ms db"
  have seed: "seed_day mod ?S = 0" "stake_inv seed" using ctx by (simp_all add: projected_chain_def)
  have Cal: "C mod ?S = 0" unfolding C(1) by (rule day_start_aligned)
  have dayC: "day + ?S \<le> C" using day(3) C(2,3) aligned_step [OF seed(1) Cal] by auto
  have "(C - (day + ?S)) mod ?S = 0" using aligned_diff [OF Cal, of "day + ?S"] day(2) by simp
  then have max: "load_max_projected_daily_day ?db = Some C" by (rule built_max [OF curve dayC _ C(3)])
  have points: "map_of (staking_progress_dailies ?db) d
      = Some (daily_point_of d (state_at ?rows seed d), STAKE_SNAPSHOT_PROJECTOR_SOURCE)"
    if "d \<in> set (day_range (seed_day + ?S) C)" for d
  proof (cases "d \<in> set (day_range (day + ?S) (C + ?S))")
    case True
    then show ?thesis by (simp add: built_db_frame curve upsert_points_lookup)
  next
    case False
    have d: "seed_day + ?S \<le> d" "d < C" "(d - (seed_day + ?S)) mod ?S = 0" using that by (simp_all add: day_range_iff)
    have "(d - (day + ?S)) mod ?S = 0"
      using aligned_diff [of "d - (seed_day + ?S)" "day - seed_day"] d(3) aligned_diff [OF day(2) seed(1)]
      by (simp add: algebra_simps)
    with False d have lt: "d < day + ?S" using day_length_pos by (simp add: day_range_iff)
    with d have "day \<noteq> seed_day" by auto
    with day(3) have "load_max_projected_daily_day db = Some (day + ?S)" by simp
    moreover have "d \<in> set (day_range (seed_day + ?S) (day + ?S))" using d lt by (simp add: day_range_iff)
    ultimately have "map_of (staking_progress_dailies db) d
        = Some (daily_point_of d (state_at ?rows seed d), STAKE_SNAPSHOT_PROJECTOR_SOURCE)"
      using ok by (auto simp: curve_faithful_def)
    with False show ?thesis by (simp add: built_db_frame curve upsert_points_lookup)
  qed
  obtain resume where old: "load_stake_snapshot_resume from_str db = Inr resume"
    using ok by (auto simp: curve_faithful_def)
  have new: "load_stake_snapshot_resume from_str ?db = Inr (case closed of None \<Rightarrow> resume | Some c \<Rightarrow> Some c)"
    using load_resume_built [OF reads keys, of closed curve ms db] closed state_at_inv [OF seed(2)] old
    by (auto split: option.splits if_splits)
  have anchor: "s = state_at ?rows seed d"
    if "(case closed of None \<Rightarrow> resume | Some c \<Rightarrow> Some c) = Some (d, s)" "d + ?S = C" "seed_day < d" for d s
  proof (cases "closed = None")
    case False
    with that(1) closed show ?thesis by (auto split: if_splits)
  next
    case True
    then have "C - ?S \<notin> set (day_range (day + ?S) (C + ?S))" using closed by (auto split: if_splits)
    moreover have "(C - ?S - (day + ?S)) mod ?S = 0" using aligned_diff [of "C - ?S" "day + ?S"] Cal day(2) by simp
    ultimately have "C < day + ?S + ?S" using day_length_pos by (simp add: day_range_iff)
    with dayC have "C = day + ?S" using aligned_step [of "day + ?S" C] Cal day(2) by force
    with that day(3) C(3) show ?thesis by auto
  qed
  show ?thesis
    unfolding curve_faithful_def built_db_chain(2)
    using new max Cal C(1,2) points anchor by (intro exI [of _ "case closed of None \<Rightarrow> resume | Some c \<Rightarrow> Some c"]) auto
qed

lemma project_keeps_faithful:
  assumes reads: "reads_decimals from_str" and keys: "lists_keys h"
    and ctx: "projected_chain from_str seed_day seed tip db" and ok: "curve_faithful from_str seed_day seed tip db"
  shows "\<exists>db' rep. project_stake_snapshots_forward_in_tx from_str h rollup chain_id db = Inr (db', rep)
     \<and> projected_chain from_str seed_day seed tip db' \<and> curve_faithful from_str seed_day seed tip db'"
proof -
  let ?S = STAKE_SNAPSHOT_SECONDS_PER_DAY and ?rows = "curve_rows from_str seed_day db"
  define C where "C = stake_snapshot_day_start tip"
  obtain resume where resume: "load_stake_snapshot_resume from_str db = Inr resume"
    using ok by (auto simp: curve_faithful_def)
  note outcome = project_outcome [OF ctx resume, of h rollup chain_id, folded C_def]
  show ?thesis
  proof (cases "C \<le> seed_day \<or> (\<exists>d. load_max_projected_daily_day db = Some d \<and> C \<le> d)")
    case True
    with outcome ctx ok show ?thesis by auto
  next
    case False
    with outcome obtain from_day st resumed an curve closed an' ms rep where
        start: "replay_start seed_day seed resume (load_max_projected_daily_day db) = (from_day, st, resumed)"
      and build: "build_stake_snapshot_daily_points st (after (from_day - 1) (log_rows from_str db)) from_day
              (C + ?S) an = (curve, closed, an')"
      and proj: "project_stake_snapshots_forward_in_tx from_str h rollup chain_id db
              = Inr (built_db h curve closed ms db, rep)" by auto
    obtain day where day: "from_day = day + ?S" "seed_day \<le> day" "st = state_at ?rows seed day" "day mod ?S = 0"
        "day = seed_day \<or> load_max_projected_daily_day db = Some (day + ?S)"
      using replay_start_faithful [OF ctx ok resume start] .
    have "from_day - 1 = stake_snapshot_day_end day" by (simp add: day(1) stake_snapshot_day_end_def)
    note built = build_from_day [OF ctx day(2,3) build [unfolded this, unfolded day(1)]]
    have "curve_faithful from_str seed_day seed tip (built_db h curve closed ms db)"
      using False day by (intro curve_faithful_built [OF reads keys ctx ok C_def _ _ day(2,4,5) built]) auto
    with proj ctx show ?thesis by (auto simp: built_db_chain)
  qed
qed

text \<open>The life of a projected chain: it starts with a captured seed and no projected day; blocks
  arrive, whose stake events are not older than the tip; and projection passes run.\<close>

definition grow :: "event_record list \<Rightarrow> int \<Rightarrow> stake_db \<Rightarrow> stake_db" where
  "grow new tip db = db\<lparr>event_log := event_log db @ new, cursor_timestamp := Some tip\<rparr>"

inductive projector_run ::
    "(string \<Rightarrow> int option) \<Rightarrow> ((string \<rightharpoonup> int) \<Rightarrow> string list) \<Rightarrow> monthly_rollup \<Rightarrow> int \<Rightarrow> int \<Rightarrow> stake_state \<Rightarrow>
     int \<Rightarrow> stake_db \<Rightarrow> bool"
  for from_str hash_order rollup chain_id seed_day seed where
  start: "projected_chain from_str seed_day seed tip db \<Longrightarrow> load_max_projected_daily_day db = None \<Longrightarrow>
     stake_snapshot_resume db = None \<Longrightarrow>
     projector_run from_str hash_order rollup chain_id seed_day seed tip db"
| blocks: "projector_run from_str hash_order rollup chain_id seed_day seed tip db \<Longrightarrow>
     \<forall>r\<in>set new. tip \<le> rec_timestamp r \<Longrightarrow> tip \<le> tip' \<Longrightarrow> log_ok from_str tip' (grow new tip' db) \<Longrightarrow>
     projector_run from_str hash_order rollup chain_id seed_day seed tip' (grow new tip' db)"
| pass: "projector_run from_str hash_order rollup chain_id seed_day seed tip db \<Longrightarrow>
     project_stake_snapshots_forward_in_tx from_str hash_order rollup chain_id db = Inr (db', rep) \<Longrightarrow>
     projector_run from_str hash_order rollup chain_id seed_day seed tip db'"

lemma day_start_le: "stake_snapshot_day_start t \<le> t"
  by (simp add: stake_snapshot_day_start_def STAKE_SNAPSHOT_SECONDS_PER_DAY_def)

lemma day_start_mono: "t \<le> t' \<Longrightarrow> stake_snapshot_day_start t \<le> stake_snapshot_day_start t'"
  unfolding stake_snapshot_day_start_def STAKE_SNAPSHOT_SECONDS_PER_DAY_def minus_mod_eq_div_mult
  by (simp add: zdiv_mono1)

lemma state_at_append_later:
  assumes "\<forall>r\<in>set new. stake_snapshot_day_end day < row_timestamp r"
  shows "state_at (rows @ new) st day = state_at rows st day"
proof -
  have "until (stake_snapshot_day_end day) new = []"
    using assms by (force simp: until_def filter_empty_conv)
  then show ?thesis by (simp add: state_at_def until_def)
qed

lemma state_at_grow:
  assumes "\<forall>r\<in>set new. tip \<le> rec_timestamp r" "log_ok from_str tip' (grow new tip' db)"
    and "day + STAKE_SNAPSHOT_SECONDS_PER_DAY \<le> tip"
  shows "state_at (curve_rows from_str seed_day (grow new tip' db)) seed day
       = state_at (curve_rows from_str seed_day db) seed day"
proof -
  let ?new = "after (stake_snapshot_day_end seed_day) (map (row_of from_str) new)"
  have "curve_rows from_str seed_day (grow new tip' db) = curve_rows from_str seed_day db @ ?new"
    by (simp add: curve_rows_def log_rows_def grow_def after_def)
  moreover have "\<forall>r\<in>set ?new. stake_snapshot_day_end day < row_timestamp r"
    using assms by (auto simp: after_def log_ok_def grow_def row_of_timestamp stake_snapshot_day_end_def)
  ultimately show ?thesis by (simp add: state_at_append_later)
qed

lemma grow_chain:
  assumes "projected_chain from_str seed_day seed tip db" "log_ok from_str tip' (grow new tip' db)"
  shows "projected_chain from_str seed_day seed tip' (grow new tip' db)"
  using assms by (simp add: projected_chain_def load_stake_boundary_slice_def grow_def cong: option.case_cong)

lemma day_range_step:
  assumes "d \<in> set (day_range (a + STAKE_SNAPSHOT_SECONDS_PER_DAY) b)"
    and "a mod STAKE_SNAPSHOT_SECONDS_PER_DAY = 0" "b mod STAKE_SNAPSHOT_SECONDS_PER_DAY = 0"
  shows "d + STAKE_SNAPSHOT_SECONDS_PER_DAY \<le> b"
proof -
  have "STAKE_SNAPSHOT_SECONDS_PER_DAY dvd (d - (a + STAKE_SNAPSHOT_SECONDS_PER_DAY)) + (a + STAKE_SNAPSHOT_SECONDS_PER_DAY)"
    using assms by (intro dvd_add) (simp_all add: day_range_iff mod_eq_0_iff_dvd)
  then show ?thesis using assms by (intro aligned_step) (simp_all add: day_range_iff mod_eq_0_iff_dvd)
qed

lemma grow_faithful:
  assumes "curve_faithful from_str seed_day seed tip db" "\<forall>r\<in>set new. tip \<le> rec_timestamp r" "tip \<le> tip'"
    and "log_ok from_str tip' (grow new tip' db)" "seed_day mod STAKE_SNAPSHOT_SECONDS_PER_DAY = 0"
  shows "curve_faithful from_str seed_day seed tip' (grow new tip' db)"
proof -
  have frame: "load_stake_snapshot_resume from_str (grow new tip' db) = load_stake_snapshot_resume from_str db"
      "load_max_projected_daily_day (grow new tip' db) = load_max_projected_daily_day db"
      "staking_progress_dailies (grow new tip' db) = staking_progress_dailies db"
    by (simp_all add: load_stake_snapshot_resume_def load_max_projected_daily_day_def grow_def cong: option.case_cong)
  have state: "state_at (curve_rows from_str seed_day (grow new tip' db)) seed day
      = state_at (curve_rows from_str seed_day db) seed day"
    if "day + STAKE_SNAPSHOT_SECONDS_PER_DAY \<le> stake_snapshot_day_start tip" for day
    using state_at_grow [OF assms(2,4)] that day_start_le [of tip] by simp
  have points: "state_at (curve_rows from_str seed_day (grow new tip' db)) seed day
      = state_at (curve_rows from_str seed_day db) seed day"
    if "day \<in> set (day_range (seed_day + STAKE_SNAPSHOT_SECONDS_PER_DAY) last)"
      "last mod STAKE_SNAPSHOT_SECONDS_PER_DAY = 0" "last \<le> stake_snapshot_day_start tip" for day last
    using day_range_step [OF that(1) assms(5) that(2)] that(3) state by simp
  show ?thesis
    using assms(1) day_start_mono [OF assms(3)] state points unfolding curve_faithful_def frame by auto
qed

lemma projector_run_faithful:
  assumes "projector_run from_str h rollup chain_id seed_day seed tip db" "reads_decimals from_str" "lists_keys h"
  shows "projected_chain from_str seed_day seed tip db \<and> curve_faithful from_str seed_day seed tip db"
  using assms(1)
proof (induction rule: projector_run.induct)
  case (start tip db)
  then show ?case by (simp add: curve_faithful_def load_stake_snapshot_resume_def)
next
  case (blocks tip db new tip')
  then have "seed_day mod STAKE_SNAPSHOT_SECONDS_PER_DAY = 0" by (simp add: projected_chain_def)
  with blocks show ?case by (auto intro: grow_chain grow_faithful)
next
  case (pass tip db db' rep)
  then show ?case using project_keeps_faithful [OF assms(2,3), of seed_day seed tip db rollup chain_id] by auto
qed

section \<open>Properties of the projection\<close>

lemma first_pass:
  assumes ctx: "projected_chain from_str seed_day seed tip db" and none: "load_max_projected_daily_day db = None"
    and fresh: "stake_snapshot_resume db = None" and "seed_day < stake_snapshot_day_start tip"
  shows "\<exists>db' rep. project_stake_snapshots_forward_in_tx from_str h rollup chain_id db = Inr (db', rep)
     \<and> load_max_projected_daily_day db' = Some (stake_snapshot_day_start tip) \<and> event_log db' = event_log db"
proof -
  let ?C = "stake_snapshot_day_start tip" and ?S = STAKE_SNAPSHOT_SECONDS_PER_DAY
  have r: "load_stake_snapshot_resume from_str db = Inr None" using fresh by (simp add: load_stake_snapshot_resume_def)
  have s: "replay_start seed_day seed None None = (seed_day + ?S, seed, None)" by (simp add: replay_start_def)
  have al: "seed_day mod ?S = 0" using ctx by (simp add: projected_chain_def)
  from project_outcome [OF ctx r, of h rollup chain_id] none assms(4) s
  obtain an curve closed an' ms rep where
      b: "build_stake_snapshot_daily_points seed (after (seed_day + ?S - 1) (log_rows from_str db)) (seed_day + ?S)
            (?C + ?S) an = (curve, closed, an')"
    and p: "project_stake_snapshots_forward_in_tx from_str h rollup chain_id db = Inr (built_db h curve closed ms db, rep)"
    by auto
  have "curve = map (\<lambda>d. daily_point_of d (state_at (curve_rows from_str seed_day db) seed d))
                  (day_range (seed_day + ?S) (?C + ?S))"
    using build_from_day(1) [OF ctx order_refl state_at_seed [symmetric], of _ an] b
    by (simp add: stake_snapshot_day_end_def)
  from built_max [OF this] none aligned_step [OF al day_start_aligned assms(4)]
    aligned_diff [OF day_start_aligned [of tip], of "seed_day + ?S"] al
  have "load_max_projected_daily_day (built_db h curve closed ms db) = Some ?C" by simp
  with p show ?thesis by (auto simp: built_db_frame)
qed

text \<open>A concrete instance: a decimal reader, the key listing of a hash map, a chain with one stake.\<close>

definition decimal_from_str :: "string \<Rightarrow> int option" where
  "decimal_from_str s = (case parse_int (- (10 ^ length s)) (10 ^ length s) s of Inl _ \<Rightarrow> None | Inr n \<Rightarrow> Some n)"

lemma show_nat_bound: "n < 10 ^ length (show_nat n)"
proof (induction n rule: show_nat.induct)
  case (1 n)
  show ?case
  proof (cases "n < 10")
    case True
    then show ?thesis by (subst show_nat.simps) simp
  next
    case False
    with 1 have "n div 10 < 10 ^ length (show_nat (n div 10))" by simp
    with False show ?thesis by (subst show_nat.simps) (simp add: less_mult_imp_div_less div_less_iff_less_mult)
  qed
qed

lemma show_int_bound: "\<bar>n\<bar> \<le> 10 ^ length (show_int n)"
proof -
  have "\<bar>n\<bar> = int (nat \<bar>n\<bar>)" by simp
  also have "\<dots> < int (10 ^ length (show_nat (nat \<bar>n\<bar>)))" using show_nat_bound by (simp only: of_nat_less_iff)
  also have "\<dots> \<le> 10 ^ length (show_int n)" by (simp add: show_int_def)
  finally show ?thesis by simp
qed

lemma decimal_reads: "reads_decimals decimal_from_str"
proof -
  have "decimal_from_str (show_int n) = Some n" for n
    using parse_int_show_int [of "- (10 ^ length (show_int n))" n "10 ^ length (show_int n)"] show_int_bound [of n]
    by (simp add: decimal_from_str_def)
  then show ?thesis by (simp add: reads_decimals_def)
qed

definition key_list :: "(string \<rightharpoonup> int) \<Rightarrow> string list" where
  "key_list m = sorted_list_of_set (dom m)"

lemma key_list_keys: "lists_keys key_list"
  by (simp add: lists_keys_def key_list_def)

definition demo_rollup :: monthly_rollup where
  "demo_rollup seed_day to_day dailies monthlies = (monthlies, 0)"

definition demo_record :: event_record where
  "demo_record = \<lparr>rec_event_id = 1, rec_tx_id = 1, rec_kind = ''TokenStake'', rec_timestamp = 86410,
     rec_payload_identity = '''', rec_payload_format = 2, rec_token_symbol = Some ''SOUL'',
     rec_value_raw = Some ''50'', rec_address = Some ''PTESTA'', rec_market_quote_symbol = None,
     rec_has_stake_call = False, rec_has_unstake_call = False, rec_has_claim_call = False,
     rec_is_soul_apply_inflation = False, rec_tx_result = None\<rparr>"

definition demo_db :: stake_db where
  "demo_db = \<lparr>block_timestamps = Map.empty, cursor_timestamp = Some 172810, soul_token_supply = None,
     address_stakes = [], event_log = [demo_record],
     stake_boundary_state = Some \<lparr>boundary_day_unix_seconds = 0, boundary_soul_supply_raw = ''0'',
       boundary_masters_count = 0, boundary_stakers_count = 0, boundary_staked_soul_raw = ''0'',
       boundary_captured_at = 0, boundary_source = ''boundary-unwind.v1''\<rparr>,
     stake_boundary_balances = [], staking_progress_dailies = [], soul_masters_monthlies = [],
     stake_snapshot_resume = None, stake_snapshot_resume_stakes = []\<rparr>"

lemma demo_fresh: "load_max_projected_daily_day demo_db = None" "stake_snapshot_resume demo_db = None"
  by (simp_all add: load_max_projected_daily_day_def demo_db_def)

lemma demo_chain: "projected_chain decimal_from_str 0 (empty_stakes 0) 172810 demo_db"
proof -
  have "decimal_from_str ''0'' = Some 0" "converts decimal_from_str demo_record" by code_simp+
  then show ?thesis
    by (simp add: projected_chain_def load_stake_boundary_slice_def demo_db_def parse_stake_snapshot_raw_def
          stake_inv_empty log_ok_def log_rows_def ordered_rows_def tx_uniform_def)
       (simp add: demo_record_def)
qed

text \<open>C2. Resuming only shortens the replay, it never changes the curve: at every moment of the life of
  a projected chain, with blocks arriving and projection passes running in any order, a projection
  pass succeeds, and every closed day of the stored curve holds exactly the point that a full
  rebuild from the seed over the whole current event log computes for it.\<close>

theorem projection_equals_full_rebuild:
  assumes "projector_run from_str h rollup chain_id seed_day seed tip db"
    and "reads_decimals from_str" "lists_keys h"
    and "load_max_projected_daily_day db = Some last_day"
    and "load_stake_snapshot_events from_str (event_log db) (seed_day + STAKE_SNAPSHOT_SECONDS_PER_DAY) tip no_anomalies
           = Inr (events, an)"
    and "build_stake_snapshot_daily_points seed events (seed_day + STAKE_SNAPSHOT_SECONDS_PER_DAY) last_day an
           = (points, closed, an')"
  shows "(\<exists>db' rep. project_stake_snapshots_forward_in_tx from_str h rollup chain_id db = Inr (db', rep))
    \<and> map point_date points = day_range (seed_day + STAKE_SNAPSHOT_SECONDS_PER_DAY) last_day
    \<and> (\<forall>p\<in>set points. map_of (staking_progress_dailies db) (point_date p) = Some (p, STAKE_SNAPSHOT_PROJECTOR_SOURCE))"
proof -
  have ctx: "projected_chain from_str seed_day seed tip db" and ok: "curve_faithful from_str seed_day seed tip db"
    using projector_run_faithful [OF assms(1-3)] by simp_all
  have "log_ok from_str tip db" using ctx by (simp add: projected_chain_def)
  from load_events_after [OF this, of "seed_day + STAKE_SNAPSHOT_SECONDS_PER_DAY" no_anomalies] assms(5)
  have ev: "events = after (stake_snapshot_day_end seed_day) (log_rows from_str db)"
    by (auto simp: stake_snapshot_day_end_def)
  have points: "points = map (\<lambda>d. daily_point_of d (state_at (curve_rows from_str seed_day db) seed d))
                    (day_range (seed_day + STAKE_SNAPSHOT_SECONDS_PER_DAY) last_day)"
    by (rule build_from_day(1) [OF ctx order_refl state_at_seed [symmetric] assms(6) [unfolded ev]])
  then have dates: "map point_date points = day_range (seed_day + STAKE_SNAPSHOT_SECONDS_PER_DAY) last_day"
    by (simp add: daily_point_of_def o_def)
  have "\<forall>p\<in>set points. map_of (staking_progress_dailies db) (point_date p) = Some (p, STAKE_SNAPSHOT_PROJECTOR_SOURCE)"
    using ok assms(4) by (auto simp: points curve_faithful_def daily_point_of_def)
  with dates project_keeps_faithful [OF assms(2,3) ctx ok, of rollup chain_id] show ?thesis by blast
qed

theorem projection_equals_full_rebuild_witness:
  "\<exists>db. projector_run decimal_from_str key_list demo_rollup 1 0 (empty_stakes 0) 172810 db
     \<and> load_max_projected_daily_day db = Some 172800
     \<and> (\<exists>p. point_date p = 86400 \<and> point_staked_soul_raw p = ''50''
           \<and> map_of (staking_progress_dailies db) 86400 = Some (p, STAKE_SNAPSHOT_PROJECTOR_SOURCE))"
proof -
  let ?from = "0 + STAKE_SNAPSHOT_SECONDS_PER_DAY"
  obtain db rep where pass: "project_stake_snapshots_forward_in_tx decimal_from_str key_list demo_rollup 1 demo_db = Inr (db, rep)"
      and last: "load_max_projected_daily_day db = Some 172800" and log: "event_log db = event_log demo_db"
    using first_pass [OF demo_chain demo_fresh, of key_list demo_rollup 1]
    by (auto simp: stake_snapshot_day_start_def STAKE_SNAPSHOT_SECONDS_PER_DAY_def)
  have run: "projector_run decimal_from_str key_list demo_rollup 1 0 (empty_stakes 0) 172810 db"
    by (rule projector_run.pass [OF projector_run.start [OF demo_chain demo_fresh] pass])
  obtain events an where ev: "load_stake_snapshot_events decimal_from_str (event_log demo_db) ?from 172810 no_anomalies
      = Inr (events, an)"
    using load_events_after [of decimal_from_str 172810 demo_db] demo_chain by (force simp: projected_chain_def)
  obtain points closed an' where b: "build_stake_snapshot_daily_points (empty_stakes 0) events ?from 172800 an
      = (points, closed, an')" by (metis prod.collapse)
  have "map point_staked_soul_raw (fst (build_stake_snapshot_daily_points (empty_stakes 0)
      (fst (projr (load_stake_snapshot_events decimal_from_str (event_log demo_db) 86400 172810 no_anomalies))) 86400 172800
      (snd (projr (load_stake_snapshot_events decimal_from_str (event_log demo_db) 86400 172810 no_anomalies))))) = [''50'']"
    by code_simp
  then have "map point_staked_soul_raw points = [''50'']"
    using ev b by (simp add: STAKE_SNAPSHOT_SECONDS_PER_DAY_def)
  then obtain p where p: "points = [p]" "point_staked_soul_raw p = ''50''" by auto
  have "day_range ?from 172800 = [86400]"
    by (simp add: day_range.simps [of "86400"] day_range.simps [of "172800"] STAKE_SNAPSHOT_SECONDS_PER_DAY_def)
  with projection_equals_full_rebuild [OF run decimal_reads key_list_keys last ev [folded log] b] p
  show ?thesis using run last by auto
qed

text \<open>A state that satisfies the counter invariant survives persistence: what the resume tables
  give back after a save is the saved day and exactly the saved state, whatever order the hash map
  is written in.\<close>

theorem resume_state_round_trip:
  assumes "reads_decimals from_str" "lists_keys h" "stake_inv st"
  shows "load_stake_snapshot_resume from_str (save_stake_snapshot_resume h day st db) = Inr (Some (day, st))"
  using assms by (rule resume_round_trip)

theorem resume_state_round_trip_witness:
  "stake_inv demo_state
   \<and> load_stake_snapshot_resume decimal_from_str (save_stake_snapshot_resume key_list 86400 demo_state demo_db)
     = Inr (Some (86400, demo_state))"
  using resume_state_round_trip [OF decimal_reads key_list_keys demo_state_inv] demo_state_inv by simp

text \<open>Every 64-bit value written in the eight-byte Carbon form, negative or not, is decoded to
  itself.\<close>

theorem carbon_intx_round_trip:
  assumes "- (2 ^ 63) \<le> n" "n < 2 ^ 63"
  shows "parse_carbon_intx_i64_raw field (carbon_intx n) = Inr n"
  using assms by (rule parse_carbon_intx)

theorem carbon_intx_round_trip_witness:
  "carbon_intx (-1) = ''88FFFFFFFFFFFFFFFF'' \<and> parse_carbon_intx_i64_raw ''tx.result'' (carbon_intx (-1)) = Inr (-1)"
proof -
  have "carbon_intx (-1) = ''88FFFFFFFFFFFFFFFF''" by code_simp
  then show ?thesis using carbon_intx_round_trip [of "-1" "''tx.result''"] by simp
qed

end
