(* ===== verification/Load_Shed.thy ===== *)
theory Load_Shed
  imports Config Domain
begin

text \<open>
  The worker's automatic RPC load-shed mode and its waits
  (\<open>src/crates/ingestion/src/driver.rs\<close>), the ingestion errors and the planning of a fetch window
  (\<open>src/crates/ingestion/src/lib.rs\<close>).

  Durations are in seconds.  The atomics of \<open>RpcReliefState\<close> are fields of a record: one block loop
  writes them, so every operation is one step.  A nested error value is its rendered text.
\<close>

section \<open>Ingestion errors\<close>

datatype ingestion_error =
    Rpc string
  | PriceFeed string
  | Ttrs string
  | Db string
  | Sqlx string
  | EmptyFetchBatch
  | FetchTask string
  | PayloadTooLarge nat
  | RawBlockMissing nat
  | MissingBlockField nat string
  | BlockFieldOutOfRange nat string
  | MissingTransactionField nat nat string
  | TransactionFieldOutOfRange nat nat string
  | EventFieldOutOfRange nat nat string nat string
  | EventPayloadDecode nat nat nat string
  | ProtectedZeroStateCursorBelowBoundary string nat nat
  | ProtectedZeroStateBlock string nat nat
  | NodeChainMismatch nat string string string string
  | LegacyRawMissingData int
  | LegacyRawTokenIdConflict int string string

definition is_database_failure :: "ingestion_error \<Rightarrow> bool" where
  "is_database_failure error = (case error of Db _ \<Rightarrow> True | Sqlx _ \<Rightarrow> True | _ \<Rightarrow> False)"

definition keeps_committed_prefix :: "nat \<Rightarrow> ingestion_error \<Rightarrow> bool" where
  "keeps_committed_prefix projected_blocks error \<longleftrightarrow> 0 < projected_blocks \<and> \<not> is_database_failure error"

section \<open>Waits\<close>

definition RELIEF_RECOVERY_COMMIT_BLOCKS :: nat where "RELIEF_RECOVERY_COMMIT_BLOCKS = 4"
definition RELIEF_STALL_BACKOFF_BASE :: nat where "RELIEF_STALL_BACKOFF_BASE = 30"
definition RELIEF_STALL_BACKOFF_MAX :: nat where "RELIEF_STALL_BACKOFF_MAX = 300"
definition RELIEF_STALL_BACKOFF_MAX_DOUBLINGS :: nat where "RELIEF_STALL_BACKOFF_MAX_DOUBLINGS = 5"

definition relief_stall_backoff :: "nat \<Rightarrow> nat" where
  "relief_stall_backoff stall_count =
     (if stall_count = 0 then 0
      else min (RELIEF_STALL_BACKOFF_BASE * 2 ^ min (stall_count - 1) RELIEF_STALL_BACKOFF_MAX_DOUBLINGS)
             RELIEF_STALL_BACKOFF_MAX)"

definition failed_pass_backoff :: "nat \<Rightarrow> nat \<Rightarrow> bool \<Rightarrow> nat" where
  "failed_pass_backoff consecutive_failures stall_count database_failure =
     (let generic = min consecutive_failures 6 * 5 in
      if database_failure then generic else max generic (relief_stall_backoff stall_count))"

section \<open>The load-shed state\<close>

record relief_state =
  relief_active :: bool
  committed_streak :: nat
  stalled_height :: nat
  stall_count :: nat

definition relief_default :: relief_state where
  "relief_default = \<lparr>relief_active = False, committed_streak = 0, stalled_height = 0, stall_count = 0\<rparr>"

text \<open>\<open>fetch_add\<close> on an \<open>AtomicU32\<close> wraps; the returned count is the old value plus one.\<close>

definition register_stall :: "nat \<Rightarrow> relief_state \<Rightarrow> relief_state \<times> nat \<times> bool" where
  "register_stall height r =
     (let stalls = (if stalled_height r = height then wrapping_add 32 (stall_count r) 1 else 1)
      in (r\<lparr>stalled_height := height, stall_count := stalls, committed_streak := 0, relief_active := True\<rparr>,
          stalls, \<not> relief_active r))"

definition register_progress :: "nat \<Rightarrow> relief_state \<Rightarrow> relief_state \<times> bool" where
  "register_progress blocks r =
     (let r = r\<lparr>stall_count := 0\<rparr> in
      if \<not> relief_active r \<or> blocks = 0 then (r, False)
      else let blocks = min blocks (2 ^ 32 - 1);
               streak = saturating_add 32 (committed_streak r) blocks;
               r = r\<lparr>committed_streak := wrapping_add 32 (committed_streak r) blocks\<rparr>
           in if streak < RELIEF_RECOVERY_COMMIT_BLOCKS then (r, False)
              else (r\<lparr>committed_streak := 0, relief_active := False\<rparr>, relief_active r))"

definition relief_clear :: "relief_state \<Rightarrow> relief_state \<times> bool" where
  "relief_clear r = (r\<lparr>stall_count := 0, committed_streak := 0, relief_active := False\<rparr>, relief_active r)"

definition rpc_maintenance_paused :: "relief_state \<Rightarrow> bool" where
  "rpc_maintenance_paused r = relief_active r"

section \<open>Planning a fetch window\<close>

record fetch_window =
  from_height :: nat
  to_height :: nat
  window_concurrency :: nat

definition plan_fetch_window ::
    "nat \<Rightarrow> nat \<Rightarrow> worker_config \<Rightarrow> bool \<Rightarrow> ingestion_error + fetch_window option" where
  "plan_fetch_window current_height rpc_tip settings load_shed =
     (if fetch_batch_size settings = 0 then Inl EmptyFetchBatch
      else let target_tip = (case height_limit settings of None \<Rightarrow> rpc_tip | Some limit \<Rightarrow> min limit rpc_tip);
               next_height = saturating_add 64 current_height 1
           in if target_tip < next_height then Inr None
              else let batch_size = (if load_shed then 1 else effective_fetch_batch_size settings);
                       to = min (saturating_add 64 next_height (batch_size - 1)) target_tip;
                       block_count = saturating_add 64 (to - next_height) 1;
                       requested = (if load_shed then 1 else effective_fetch_concurrency settings)
                   in Inr (Some \<lparr>from_height = next_height, to_height = to,
                                 window_concurrency = min requested block_count\<rparr>))"

section \<open>Properties\<close>

text \<open>The tip a window may not pass.\<close>

definition target_tip :: "worker_config \<Rightarrow> nat \<Rightarrow> nat" where
  "target_tip settings rpc_tip = (case height_limit settings of None \<Rightarrow> rpc_tip | Some limit \<Rightarrow> min limit rpc_tip)"

lemma target_tip_le: "target_tip settings rpc_tip \<le> rpc_tip"
  by (simp add: target_tip_def split: option.splits)

lemma plan_unfold:
  assumes "0 < fetch_batch_size settings" "current < 2 ^ 64 - 1" "rpc_tip < 2 ^ 64"
  shows "plan_fetch_window current rpc_tip settings load_shed =
     (if target_tip settings rpc_tip \<le> current then Inr None
      else let batch = (if load_shed then 1 else effective_fetch_batch_size settings);
               to = min (current + batch) (target_tip settings rpc_tip)
           in Inr (Some \<lparr>from_height = current + 1, to_height = to,
             window_concurrency = min (if load_shed then 1 else effective_fetch_concurrency settings) (to - current)\<rparr>))"
proof -
  let ?batch = "if load_shed then 1 else effective_fetch_batch_size settings"
  have nxt: "saturating_add 64 current 1 = current + 1" using assms by (simp add: saturating_add_def)
  have batch: "0 < ?batch" using assms by (auto split: sync_mode.splits)
  have tt: "target_tip settings rpc_tip < 2 ^ 64" using target_tip_le [of settings rpc_tip] assms(3) by linarith
  have to: "min (saturating_add 64 (current + 1) (?batch - 1)) (target_tip settings rpc_tip)
      = min (current + ?batch) (target_tip settings rpc_tip)"
    using batch tt by (auto simp: saturating_add_def)
  show ?thesis
  proof (cases "target_tip settings rpc_tip \<le> current")
    case True
    then show ?thesis using assms(1) by (simp add: plan_fetch_window_def nxt [simplified] target_tip_def [symmetric] Let_def)
  next
    case False
    define to where "to = min (current + ?batch) (target_tip settings rpc_tip)"
    have gt: "current < to" "to < 2 ^ 64" using False batch tt by (auto simp: to_def)
    have "saturating_add 64 (to - (current + 1)) 1 = to - current" using gt by (simp add: saturating_add_def)
    with False assms(1) to show ?thesis
      by (simp add: plan_fetch_window_def nxt [simplified] target_tip_def [symmetric] Let_def to_def)
  qed
qed

text \<open>The heights of a window.\<close>

definition window_heights :: "fetch_window \<Rightarrow> nat list" where
  "window_heights w = [from_height w ..< Suc (to_height w)]"

lemma plan_window_contract:
  assumes "0 < fetch_batch_size settings" "current < 2 ^ 64 - 1" "rpc_tip < 2 ^ 64"
    and "plan_fetch_window current rpc_tip settings load_shed = Inr (Some w)"
  shows "from_height w = current + 1" "from_height w \<le> to_height w" "to_height w \<le> rpc_tip"
    "1 \<le> window_concurrency w" "window_concurrency w \<le> length (window_heights w)"
proof -
  let ?batch = "if load_shed then 1 else effective_fetch_batch_size settings"
  from assms(4) have lt: "\<not> target_tip settings rpc_tip \<le> current"
    and w: "w = \<lparr>from_height = current + 1, to_height = min (current + ?batch) (target_tip settings rpc_tip),
        window_concurrency = min (if load_shed then 1 else effective_fetch_concurrency settings)
          (min (current + ?batch) (target_tip settings rpc_tip) - current)\<rparr>"
    by (simp_all add: plan_unfold [OF assms(1-3)] Let_def split: if_splits)
  have batch: "0 < ?batch" and conc: "0 < (if load_shed then 1 else effective_fetch_concurrency settings)"
    using assms(1) by (auto split: sync_mode.splits)
  show "from_height w = current + 1" "from_height w \<le> to_height w" "to_height w \<le> rpc_tip"
    using w lt batch target_tip_le [of settings rpc_tip] by auto
  show "1 \<le> window_concurrency w" using w lt batch conc by auto
  show "window_concurrency w \<le> length (window_heights w)" using w lt batch by (auto simp: window_heights_def)
qed

text \<open>A planned window starts at the height after the cursor, is not empty, stays below the node's
  tip and the configured limit, holds no more blocks than the effective batch and never asks for more
  requests in flight than blocks or fewer than one; under load shedding it is one block with one
  request; and no window is planned exactly when the cursor has reached the target.\<close>

theorem fetch_window_contract:
  assumes "0 < fetch_batch_size settings" "current < 2 ^ 64 - 1" "rpc_tip < 2 ^ 64"
  shows "case plan_fetch_window current rpc_tip settings load_shed of
     Inl e \<Rightarrow> False
   | Inr None \<Rightarrow> target_tip settings rpc_tip \<le> current
   | Inr (Some w) \<Rightarrow>
       hd (window_heights w) = current + 1 \<and> last (window_heights w) \<le> target_tip settings rpc_tip
       \<and> 1 \<le> window_concurrency w \<and> window_concurrency w \<le> length (window_heights w)
       \<and> length (window_heights w) \<le> effective_fetch_batch_size settings
       \<and> (load_shed \<longrightarrow> window_heights w = [current + 1] \<and> window_concurrency w = 1)
       \<and> (length (window_heights w) < (if load_shed then 1 else effective_fetch_batch_size settings)
            \<longrightarrow> to_height w = target_tip settings rpc_tip)"
proof (cases "target_tip settings rpc_tip \<le> current")
  case True
  then show ?thesis by (simp add: plan_unfold [OF assms])
next
  case False
  let ?eff = "effective_fetch_batch_size settings" and ?batch = "if load_shed then 1 else effective_fetch_batch_size settings"
  have batch: "0 < ?batch" "?batch \<le> ?eff" using assms(1) by (auto split: sync_mode.splits)
  from False obtain w where w: "plan_fetch_window current rpc_tip settings load_shed = Inr (Some w)"
      "w = \<lparr>from_height = current + 1, to_height = min (current + ?batch) (target_tip settings rpc_tip),
        window_concurrency = min (if load_shed then 1 else effective_fetch_concurrency settings)
          (min (current + ?batch) (target_tip settings rpc_tip) - current)\<rparr>"
    by (simp add: plan_unfold [OF assms] Let_def)
  note plan = plan_window_contract [OF assms w(1)]
  have len: "length (window_heights w) = to_height w - current" using plan(1,2) by (simp add: window_heights_def)
  have "hd (window_heights w) = current + 1" "last (window_heights w) = to_height w"
    using plan(1,2) by (simp_all add: window_heights_def del: upt_Suc)
  moreover have "to_height w \<le> target_tip settings rpc_tip" "to_height w \<le> current + ?batch" using w(2) by auto
  moreover have "window_heights w = [current + 1] \<and> window_concurrency w = 1" if load_shed
    using w(2) False that by (auto simp: window_heights_def min_def upt_rec)
  moreover have "to_height w = target_tip settings rpc_tip" if "to_height w - current < ?batch"
    using w(2) that False by auto
  ultimately show ?thesis unfolding w(1) using len plan(4,5) batch by auto
qed

definition demo_settings :: worker_config where
  "demo_settings = \<lparr>poll_interval = 1000, queue_capacity = 8, fetch_batch_size = 10, fetch_concurrency = 4,
     project_concurrency = 1, sync_mode = Normal_Mode, inter_block_delay = 0, batch_delay = 0, height_limit = None\<rparr>"

theorem fetch_window_contract_witness:
  "0 < fetch_batch_size demo_settings
   \<and> plan_fetch_window 5 8 demo_settings False
       = Inr (Some \<lparr>from_height = 6, to_height = 8, window_concurrency = 3\<rparr>)
   \<and> last (window_heights \<lparr>from_height = 6, to_height = 8, window_concurrency = 3\<rparr>) \<le> target_tip demo_settings 8"
proof -
  have "plan_fetch_window 5 8 demo_settings False
      = Inr (Some \<lparr>from_height = 6, to_height = 8, window_concurrency = 3\<rparr>)"
    by (simp add: plan_fetch_window_def demo_settings_def saturating_add_def)
  moreover have "0 < fetch_batch_size demo_settings" by (simp add: demo_settings_def)
  ultimately show ?thesis using fetch_window_contract [of demo_settings 5 8 False] by simp
qed

text \<open>The load-shed events of the block loop.\<close>

datatype relief_event = Stall nat | Progress nat | Clear

fun relief_step :: "relief_event \<Rightarrow> relief_state \<Rightarrow> relief_state" where
  "relief_step (Stall height) r = fst (register_stall height r)"
| "relief_step (Progress blocks) r = fst (register_progress blocks r)"
| "relief_step Clear r = fst (relief_clear r)"

lemma progress_inactive: "\<not> relief_active r \<Longrightarrow> \<not> relief_active (fst (register_progress n r))"
  by (simp add: register_progress_def)

lemma progress_active:
  fixes n :: nat
  assumes "relief_active r" "committed_streak r < RELIEF_RECOVERY_COMMIT_BLOCKS"
  defines "r' \<equiv> fst (register_progress n r)"
  shows "if committed_streak r + n < RELIEF_RECOVERY_COMMIT_BLOCKS
     then relief_active r' \<and> committed_streak r' = committed_streak r + n
     else \<not> relief_active r'"
  using assms(1,2) unfolding r'_def RELIEF_RECOVERY_COMMIT_BLOCKS_def
  by (auto simp: register_progress_def RELIEF_RECOVERY_COMMIT_BLOCKS_def saturating_add_def wrapping_add_def Let_def min_def)

lemma fold_progress_inactive:
  "\<not> relief_active r \<Longrightarrow> \<not> relief_active (fold relief_step (map Progress ns) r)"
  by (induction ns arbitrary: r) (simp_all add: progress_inactive)

lemma fold_progress_active:
  "relief_active r \<Longrightarrow> committed_streak r < RELIEF_RECOVERY_COMMIT_BLOCKS \<Longrightarrow>
   relief_active (fold relief_step (map Progress ns) r) \<longleftrightarrow>
     committed_streak r + sum_list ns < RELIEF_RECOVERY_COMMIT_BLOCKS"
proof (induction ns arbitrary: r)
  case (Cons n ns)
  let ?r = "fst (register_progress n r)"
  show ?case
  proof (cases "committed_streak r + n < RELIEF_RECOVERY_COMMIT_BLOCKS")
    case True
    with progress_active [OF Cons.prems, of n] have "relief_active ?r" "committed_streak ?r = committed_streak r + n" by auto
    with True Cons.IH [of ?r] show ?thesis by (simp add: add.assoc)
  next
    case False
    with progress_active [OF Cons.prems, of n] fold_progress_inactive [of ?r ns] show ?thesis by simp
  qed
qed simp


lemma fold_same_stall:
  assumes "stall_count r + n < 2 ^ 32" "stalled_height r = height"
  shows "stall_count (fold relief_step (replicate n (Stall height)) r) = stall_count r + n"
  using assms
proof (induction n arbitrary: r)
  case (Suc n)
  let ?r = "fst (register_stall height r)"
  have "stalled_height ?r = height" "stall_count ?r = stall_count r + 1"
    using Suc.prems by (simp_all add: register_stall_def wrapping_add_def Let_def)
  with Suc.IH [of ?r] Suc.prems(1) show ?case by simp
qed simp

text \<open>Consecutive stalls on one height escalate the wait from 30 seconds by doubling up to five
  minutes; a stall on another height starts the schedule over; a failed pass waits at least that
  long unless the database failed, in which case it never waits more than 30 seconds.\<close>

theorem stall_backoff_escalates:
  assumes "stalled_height r \<noteq> height" "0 < n" "n < 2 ^ 32"
  defines "r' \<equiv> fold relief_step (replicate n (Stall height)) r"
  shows "stall_count r' = n
    \<and> relief_stall_backoff (stall_count r') = min (30 * 2 ^ min (n - 1) 5) 300
    \<and> relief_stall_backoff n \<le> relief_stall_backoff (n + 1)
    \<and> 30 \<le> relief_stall_backoff n \<and> relief_stall_backoff n \<le> 300
    \<and> relief_stall_backoff (stall_count r') \<le> failed_pass_backoff failures (stall_count r') False
    \<and> failed_pass_backoff failures (stall_count r') True \<le> 30"
proof -
  obtain k where k: "n = Suc k" using assms(2) by (cases n) auto
  let ?r = "fst (register_stall height r)"
  have "stalled_height ?r = height" "stall_count ?r = 1" using assms(1) by (simp_all add: register_stall_def Let_def)
  with fold_same_stall [of ?r k height] assms(3) have cnt: "stall_count r' = n" by (simp add: r'_def k)
  have bo: "relief_stall_backoff m = min (30 * 2 ^ min (m - 1) 5) 300" if "0 < m" for m
    using that by (simp add: relief_stall_backoff_def RELIEF_STALL_BACKOFF_BASE_def RELIEF_STALL_BACKOFF_MAX_def
        RELIEF_STALL_BACKOFF_MAX_DOUBLINGS_def)
  have "30 * (2::nat) ^ min (n - 1) 5 \<le> 30 * 2 ^ min (n + 1 - 1) 5" by (intro mult_left_mono power_increasing) auto
  then have mono: "relief_stall_backoff n \<le> relief_stall_backoff (n + 1)"
    unfolding bo [OF assms(2)] bo [of "n + 1", OF add_pos_pos [OF assms(2) zero_less_one]] by (rule min.mono) simp
  have one: "1 \<le> (2::nat) ^ min (n - 1) 5" by simp
  show ?thesis
    unfolding cnt using mono one bo [OF assms(2)] by (simp add: failed_pass_backoff_def)
qed

theorem stall_backoff_escalates_witness:
  "stalled_height relief_default \<noteq> 7
   \<and> relief_stall_backoff (stall_count (fold relief_step (replicate 3 (Stall 7)) relief_default)) = 120"
proof -
  have "stalled_height relief_default \<noteq> 7" by (simp add: relief_default_def)
  moreover have "(0::nat) < 3" "(3::nat) < 2 ^ 32" by simp_all
  ultimately have "relief_stall_backoff (stall_count (fold relief_step (replicate 3 (Stall 7)) relief_default))
      = min (30 * 2 ^ min (3 - 1) 5) 300"
    by (blast dest: stall_backoff_escalates [of relief_default 7 3 0])
  then show ?thesis by (simp add: relief_default_def del: fold_replicate)
qed

end
