(* ===== verification/Sync_Pipeline.thy ===== *)
theory Sync_Pipeline
  imports Load_Shed
begin

text \<open>
  Projection of one fetch window (\<open>src/crates/ingestion/src/driver.rs\<close>): the strictly serial path and
  the fetch/process pipeline, with the cursor handling they share
  (\<open>src/crates/db/src/lib.rs\<close>).

  The database is the stored cursor and the projected tables.  Fetching and decoding a block and
  projecting a decoded block inside its transaction are arguments of the model: \<open>fetch_block\<close> gives
  what the node serves for a height, \<open>project_block\<close> the effect of the block's transaction (a failed
  begin or commit is one of its errors).  A transaction that fails leaves the database unchanged.

  The pipeline is a step relation over the phases of its loop: the order in which fetch tasks finish,
  the race between an abort and a completion, and task panics are the choices of the relation.
\<close>

section \<open>Cursor and guards\<close>

record 't chain_db =
  current_height :: "int option"
  db_tables :: 't

definition get_cursor_height :: "'t chain_db \<Rightarrow> ingestion_error + nat option" where
  "get_cursor_height db =
     (case current_height db of
        None \<Rightarrow> Inr None
      | Some v \<Rightarrow> if v < 0 then Inl (Db (''stored block height '' @ show_int v
                      @ '' cannot be represented as unsigned block height''))
                  else Inr (Some (nat v)))"

definition block_height_to_i64 :: "nat \<Rightarrow> ingestion_error + int" where
  "block_height_to_i64 height =
     (if height < 2 ^ 63 then Inr (int height)
      else Inl (Db (''block height '' @ show_nat height @ '' exceeds PostgreSQL bigint range'')))"

definition advance_cursor :: "nat \<Rightarrow> 't chain_db \<Rightarrow> ingestion_error + nat \<times> 't chain_db" where
  "advance_cursor height db =
     and_then (block_height_to_i64 height) (\<lambda>h.
       case current_height db of
         None \<Rightarrow> Inl (Db ''database operation failed'')
       | Some v \<Rightarrow> let stored = max v h in Inr (nat stored, db\<lparr>current_height := Some stored\<rparr>))"

definition validate_zero_state_scope :: "string \<Rightarrow> nat \<Rightarrow> ingestion_error + unit" where
  "validate_zero_state_scope chain cursor =
     (if chain = ''main'' \<and> cursor < MAIN_ZERO_STATE_BOUNDARY_HEIGHT
      then Inl (ProtectedZeroStateCursorBelowBoundary chain cursor MAIN_ZERO_STATE_BOUNDARY_HEIGHT)
      else Inr ())"

definition validate_projected_height :: "string \<Rightarrow> nat \<Rightarrow> ingestion_error + unit" where
  "validate_projected_height chain height =
     (if chain = ''main'' \<and> height \<le> MAIN_ZERO_STATE_BOUNDARY_HEIGHT
      then Inl (ProtectedZeroStateBlock chain height MAIN_ZERO_STATE_BOUNDARY_HEIGHT)
      else Inr ())"

section \<open>Writing one block\<close>

record ('b, 't) node_env =
  fetch_block :: "nat \<Rightarrow> ingestion_error + 'b"
  project_block :: "nat \<Rightarrow> 'b \<Rightarrow> 't \<Rightarrow> ingestion_error + 't"

definition write_decoded_block ::
    "('b, 't) node_env \<Rightarrow> nat \<Rightarrow> 'b \<Rightarrow> 't chain_db \<Rightarrow> ingestion_error + nat \<times> 't chain_db" where
  "write_decoded_block env height block db =
     and_then (project_block env height block (db_tables db)) (\<lambda>tables.
       advance_cursor height (db\<lparr>db_tables := tables\<rparr>))"

definition project_raw_block_and_advance_cursor ::
    "string \<Rightarrow> ('b, 't) node_env \<Rightarrow> nat \<Rightarrow> 't chain_db \<Rightarrow> ingestion_error + nat \<times> 't chain_db" where
  "project_raw_block_and_advance_cursor chain env height db =
     and_then (get_cursor_height db) (\<lambda>cursor.
     and_then (validate_zero_state_scope chain (unwrap_or cursor 0)) (\<lambda>_.
     and_then (validate_projected_height chain height) (\<lambda>_.
     and_then (fetch_block env height) (\<lambda>block.
       write_decoded_block env height block db))))"

section \<open>The serial path\<close>

record window_outcome =
  projected_blocks :: nat
  cursor_height_after :: nat
  outcome_stalled_height :: "nat option"

fun project_heights ::
    "string \<Rightarrow> ('b, 't) node_env \<Rightarrow> nat list \<Rightarrow> nat \<Rightarrow> nat \<Rightarrow> 't chain_db \<Rightarrow>
     (ingestion_error + window_outcome) \<times> 't chain_db" where
  "project_heights chain env [] projected cursor db =
     (Inr \<lparr>projected_blocks = projected, cursor_height_after = cursor, outcome_stalled_height = None\<rparr>, db)"
| "project_heights chain env (height # heights) projected cursor db =
     (case project_raw_block_and_advance_cursor chain env height db of
        Inr (advanced, db') \<Rightarrow> project_heights chain env heights (projected + 1) advanced db'
      | Inl error \<Rightarrow>
          (if keeps_committed_prefix projected error
           then Inr \<lparr>projected_blocks = projected, cursor_height_after = cursor,
                     outcome_stalled_height = Some height\<rparr>
           else Inl error, db))"

definition project_window_sequentially ::
    "string \<Rightarrow> ('b, 't) node_env \<Rightarrow> fetch_window \<Rightarrow> nat \<Rightarrow> 't chain_db \<Rightarrow>
     (ingestion_error + window_outcome) \<times> 't chain_db" where
  "project_window_sequentially chain env window cursor db =
     project_heights chain env (window_heights window) 0 cursor db"

section \<open>The pipeline\<close>

text \<open>A task of the \<open>JoinSet\<close> is its height and whether it has been aborted.\<close>

record ('b, 't) pipe =
  pipe_tasks :: "(nat \<times> bool) list"
  pipe_in_flight :: "nat list"
  pipe_ready :: "(nat \<times> 'b) list"
  next_to_spawn :: nat
  next_to_write :: nat
  pipe_projected :: nat
  pipe_cursor :: nat
  fetch_error :: "(nat \<times> ingestion_error) option"
  pipe_db :: "'t chain_db"

datatype 'b joined = Joined nat "ingestion_error + 'b" | Cancelled | Panicked string

definition record_fetched :: "'b joined \<Rightarrow> ('b, 't) pipe \<Rightarrow> ingestion_error + ('b, 't) pipe" where
  "record_fetched j s =
     (case j of
        Cancelled \<Rightarrow> Inr s
      | Panicked reason \<Rightarrow> Inl (FetchTask reason)
      | Joined height result \<Rightarrow>
          (let s = s\<lparr>pipe_in_flight := removeAll height (pipe_in_flight s)\<rparr> in
           case result of
             Inr block \<Rightarrow> Inr (s\<lparr>pipe_ready := (height, block) # filter (\<lambda>e. fst e \<noteq> height) (pipe_ready s)\<rparr>)
           | Inl error \<Rightarrow>
               (if (case fetch_error s of None \<Rightarrow> True | Some (failed_height, _) \<Rightarrow> height < failed_height)
                then let aborted = filter (\<lambda>h. height \<le> h) (pipe_in_flight s)
                     in Inr (s\<lparr>pipe_in_flight := filter (\<lambda>h. h < height) (pipe_in_flight s),
                               pipe_tasks := map (\<lambda>(h, a). (h, a \<or> h \<in> set aborted)) (pipe_tasks s),
                               fetch_error := Some (height, error)\<rparr>)
                else Inr s)))"

record pipe_config =
  cfg_from :: nat
  cfg_to :: nat
  cfg_concurrency :: nat
  cfg_read_ahead :: nat

definition pipe_config_of :: "worker_config \<Rightarrow> fetch_window \<Rightarrow> pipe_config" where
  "pipe_config_of settings window =
     (let concurrency = max (window_concurrency window) 1
      in \<lparr>cfg_from = from_height window, cfg_to = to_height window, cfg_concurrency = concurrency,
          cfg_read_ahead = max (queue_capacity settings) concurrency\<rparr>)"

definition pipe_start :: "pipe_config \<Rightarrow> nat \<Rightarrow> 't chain_db \<Rightarrow> ('b, 't) pipe" where
  "pipe_start cfg cursor db =
     \<lparr>pipe_tasks = [], pipe_in_flight = [], pipe_ready = [], next_to_spawn = cfg_from cfg,
      next_to_write = cfg_from cfg, pipe_projected = 0, pipe_cursor = cursor, fetch_error = None,
      pipe_db = db\<rparr>"

definition can_spawn :: "pipe_config \<Rightarrow> ('b, 't) pipe \<Rightarrow> bool" where
  "can_spawn cfg s \<longleftrightarrow>
     fetch_error s = None \<and> next_to_spawn s \<le> cfg_to cfg \<and> length (pipe_tasks s) < cfg_concurrency cfg
     \<and> next_to_spawn s - next_to_write s < cfg_read_ahead cfg"

definition spawn_next :: "('b, 't) pipe \<Rightarrow> ('b, 't) pipe" where
  "spawn_next s =
     s\<lparr>pipe_tasks := (next_to_spawn s, False) # pipe_tasks s,
       pipe_in_flight := next_to_spawn s # pipe_in_flight s,
       next_to_spawn := next_to_spawn s + 1\<rparr>"

text \<open>The outcome of a task: its fetch result; a cancellation when it was aborted; or a panic.\<close>

inductive task_outcome :: "('b, 't) node_env \<Rightarrow> bool \<Rightarrow> nat \<times> bool \<Rightarrow> 'b joined \<Rightarrow> bool"
  for env panics where
  completed: "task_outcome env panics (height, aborted) (Joined height (fetch_block env height))"
| cancelled: "task_outcome env panics (height, True) Cancelled"
| panicked: "panics \<Longrightarrow> task_outcome env panics task (Panicked reason)"

datatype 'r phase = Top_Up | Harvest | Drain | Check | Wait | Finished 'r

definition stalled_outcome :: "('b, 't) pipe \<Rightarrow> nat \<Rightarrow> window_outcome" where
  "stalled_outcome s height =
     \<lparr>projected_blocks = pipe_projected s, cursor_height_after = pipe_cursor s,
      outcome_stalled_height = Some height\<rparr>"

text \<open>The end of the loop: a fetch error is a stall once anything was written.\<close>

definition pipe_finish :: "('b, 't) pipe \<Rightarrow> ingestion_error + window_outcome" where
  "pipe_finish s =
     (case fetch_error s of
        Some (height, error) \<Rightarrow> if pipe_projected s = 0 then Inl error else Inr (stalled_outcome s height)
      | None \<Rightarrow> Inr \<lparr>projected_blocks = pipe_projected s, cursor_height_after = pipe_cursor s,
                     outcome_stalled_height = None\<rparr>)"

text \<open>The writer's step on a block that has become contiguous.\<close>

definition write_next ::
    "('b, 't) node_env \<Rightarrow> 'b \<Rightarrow> ('b, 't) pipe \<Rightarrow> (ingestion_error + window_outcome) phase \<times> ('b, 't) pipe" where
  "write_next env block s =
     (let height = next_to_write s;
          s = s\<lparr>pipe_ready := filter (\<lambda>e. fst e \<noteq> height) (pipe_ready s)\<rparr>
      in case write_decoded_block env height block (pipe_db s) of
           Inr (advanced, db) \<Rightarrow>
             (Drain, s\<lparr>pipe_db := db, pipe_cursor := advanced, pipe_projected := pipe_projected s + 1,
                       next_to_write := height + 1\<rparr>)
         | Inl error \<Rightarrow>
             (Finished (if keeps_committed_prefix (pipe_projected s) error
                        then Inr (stalled_outcome s height) else Inl error), s))"

type_synonym ('b, 't) pipe_point = "(ingestion_error + window_outcome) phase \<times> ('b, 't) pipe"

inductive pipe_step ::
    "('b, 't) node_env \<Rightarrow> bool \<Rightarrow> pipe_config \<Rightarrow> ('b, 't) pipe_point \<Rightarrow> ('b, 't) pipe_point \<Rightarrow> bool"
  for env panics cfg where
  spawn: "can_spawn cfg s \<Longrightarrow> pipe_step env panics cfg (Top_Up, s) (Top_Up, spawn_next s)"
| topped: "\<not> can_spawn cfg s \<Longrightarrow> pipe_step env panics cfg (Top_Up, s) (Harvest, s)"
| harvest: "task \<in> set (pipe_tasks s) \<Longrightarrow> task_outcome env panics task j \<Longrightarrow>
    record_fetched j (s\<lparr>pipe_tasks := remove1 task (pipe_tasks s)\<rparr>) = Inr s' \<Longrightarrow>
    pipe_step env panics cfg (Harvest, s) (Harvest, s')"
| harvest_fail: "task \<in> set (pipe_tasks s) \<Longrightarrow> task_outcome env panics task j \<Longrightarrow>
    record_fetched j (s\<lparr>pipe_tasks := remove1 task (pipe_tasks s)\<rparr>) = Inl error \<Longrightarrow>
    pipe_step env panics cfg (Harvest, s) (Finished (Inl error), s)"
| harvested: "pipe_step env panics cfg (Harvest, s) (Drain, s)"
| write_block: "map_of (pipe_ready s) (next_to_write s) = Some block \<Longrightarrow>
    pipe_step env panics cfg (Drain, s) (write_next env block s)"
| drained: "map_of (pipe_ready s) (next_to_write s) = None \<Longrightarrow> pipe_step env panics cfg (Drain, s) (Check, s)"
| finish: "pipe_tasks s = [] \<Longrightarrow> fetch_error s \<noteq> None \<or> cfg_to cfg < next_to_spawn s \<Longrightarrow>
    pipe_step env panics cfg (Check, s) (Finished (pipe_finish s), s)"
| go_on: "\<not> (pipe_tasks s = [] \<and> (fetch_error s \<noteq> None \<or> cfg_to cfg < next_to_spawn s)) \<Longrightarrow>
    pipe_step env panics cfg (Check, s) (Wait, s)"
| wait: "task \<in> set (pipe_tasks s) \<Longrightarrow> task_outcome env panics task j \<Longrightarrow>
    record_fetched j (s\<lparr>pipe_tasks := remove1 task (pipe_tasks s)\<rparr>) = Inr s' \<Longrightarrow>
    pipe_step env panics cfg (Wait, s) (Top_Up, s')"
| wait_fail: "task \<in> set (pipe_tasks s) \<Longrightarrow> task_outcome env panics task j \<Longrightarrow>
    record_fetched j (s\<lparr>pipe_tasks := remove1 task (pipe_tasks s)\<rparr>) = Inl error \<Longrightarrow>
    pipe_step env panics cfg (Wait, s) (Finished (Inl error), s)"
| nothing_to_wait: "pipe_tasks s = [] \<Longrightarrow> pipe_step env panics cfg (Wait, s) (Top_Up, s)"

inductive pipe_reachable ::
    "('b, 't) node_env \<Rightarrow> bool \<Rightarrow> pipe_config \<Rightarrow> nat \<Rightarrow> 't chain_db \<Rightarrow> ('b, 't) pipe_point \<Rightarrow> bool"
  for env panics cfg cursor db where
  start: "pipe_reachable env panics cfg cursor db (Top_Up, pipe_start cfg cursor db)"
| step: "pipe_reachable env panics cfg cursor db x \<Longrightarrow> pipe_step env panics cfg x y \<Longrightarrow>
    pipe_reachable env panics cfg cursor db y"

inductive_cases pipe_step_TopE: "pipe_step env panics cfg (Top_Up, s) y"
inductive_cases pipe_step_HarvestE: "pipe_step env panics cfg (Harvest, s) y"
inductive_cases pipe_step_DrainE: "pipe_step env panics cfg (Drain, s) y"
inductive_cases pipe_step_CheckE: "pipe_step env panics cfg (Check, s) y"
inductive_cases pipe_step_WaitE: "pipe_step env panics cfg (Wait, s) y"
inductive_cases pipe_step_FinishedE: "pipe_step env panics cfg (Finished r, s) y"
inductive_cases task_outcomeE: "task_outcome env panics task j"

section \<open>The pipeline invariant\<close>

text \<open>What the serial path commits when nothing fails: fetch and write, height by height.\<close>

fun commit_blocks ::
    "('b, 't) node_env \<Rightarrow> nat list \<Rightarrow> nat \<Rightarrow> 't chain_db \<Rightarrow> (nat \<times> 't chain_db) option" where
  "commit_blocks env [] cursor db = Some (cursor, db)"
| "commit_blocks env (h # hs) cursor db =
     (case fetch_block env h of
        Inl _ \<Rightarrow> None
      | Inr block \<Rightarrow>
          (case write_decoded_block env h block db of
             Inl _ \<Rightarrow> None
           | Inr (advanced, db') \<Rightarrow> commit_blocks env hs advanced db'))"

lemma commit_blocks_snoc:
  "commit_blocks env hs cursor db = Some (c1, db1) \<Longrightarrow> fetch_block env h = Inr block \<Longrightarrow>
   write_decoded_block env h block db1 = Inr (c2, db2) \<Longrightarrow>
   commit_blocks env (hs @ [h]) cursor db = Some (c2, db2)"
  by (induction hs arbitrary: cursor db) (auto split: sum.splits prod.splits)

text \<open>The part of the invariant that survives a crash: what has been written is a gap-free prefix of
  the window, written in order.\<close>

definition prefix_inv ::
    "('b, 't) node_env \<Rightarrow> pipe_config \<Rightarrow> nat \<Rightarrow> 't chain_db \<Rightarrow> ('b, 't) pipe \<Rightarrow> bool" where
  "prefix_inv env cfg cursor db s \<longleftrightarrow>
     cfg_from cfg \<le> next_to_write s \<and> next_to_write s \<le> next_to_spawn s \<and> next_to_spawn s \<le> cfg_to cfg + 1
     \<and> pipe_projected s = next_to_write s - cfg_from cfg
     \<and> commit_blocks env [cfg_from cfg..<next_to_write s] cursor db = Some (pipe_cursor s, pipe_db s)"

abbreviation task_heights :: "('b, 't) pipe \<Rightarrow> nat set" where
  "task_heights s \<equiv> fst ` set (pipe_tasks s)"

abbreviation ready_heights :: "('b, 't) pipe \<Rightarrow> nat set" where
  "ready_heights s \<equiv> fst ` set (pipe_ready s)"

text \<open>The bookkeeping: every spawned height that is not yet written is being fetched, waits in the
  reorder buffer, or lies at or above the lowest failed height.\<close>

definition tasks_inv :: "('b, 't) node_env \<Rightarrow> ('b, 't) pipe \<Rightarrow> bool" where
  "tasks_inv env s \<longleftrightarrow>
     distinct (map fst (pipe_tasks s)) \<and> distinct (map fst (pipe_ready s))
     \<and> task_heights s \<inter> ready_heights s = {}
     \<and> task_heights s \<subseteq> {next_to_write s..<next_to_spawn s}
     \<and> ready_heights s \<subseteq> {next_to_write s..<next_to_spawn s}
     \<and> (\<forall>(h, block)\<in>set (pipe_ready s). fetch_block env h = Inr block)
     \<and> set (pipe_in_flight s) = {h. (h, False) \<in> set (pipe_tasks s)}"

definition failure_inv :: "('b, 't) node_env \<Rightarrow> ('b, 't) pipe \<Rightarrow> bool" where
  "failure_inv env s \<longleftrightarrow>
     (case fetch_error s of
        None \<Rightarrow> (\<forall>h. (h, True) \<notin> set (pipe_tasks s))
          \<and> {next_to_write s..<next_to_spawn s} \<subseteq> task_heights s \<union> ready_heights s
      | Some (f, e) \<Rightarrow> next_to_write s \<le> f \<and> f < next_to_spawn s \<and> fetch_block env f = Inl e
          \<and> f \<notin> task_heights s \<and> (\<forall>h. (h, True) \<in> set (pipe_tasks s) \<longrightarrow> f < h)
          \<and> {next_to_write s..<f} \<subseteq> task_heights s \<union> ready_heights s)"

definition pipe_inv ::
    "('b, 't) node_env \<Rightarrow> pipe_config \<Rightarrow> nat \<Rightarrow> 't chain_db \<Rightarrow> ('b, 't) pipe \<Rightarrow> bool" where
  "pipe_inv env cfg cursor db s \<longleftrightarrow> prefix_inv env cfg cursor db s \<and> tasks_inv env s \<and> failure_inv env s"

lemma pipe_start_inv:
  "cfg_from cfg \<le> cfg_to cfg + 1 \<Longrightarrow> pipe_inv env cfg cursor db (pipe_start cfg cursor db)"
  by (simp add: pipe_inv_def prefix_inv_def tasks_inv_def failure_inv_def pipe_start_def)

lemma spawn_inv:
  assumes "pipe_inv env cfg cursor db s" "can_spawn cfg s"
  shows "pipe_inv env cfg cursor db (spawn_next s)"
proof -
  have t: "tasks_inv env s" and f: "failure_inv env s" and p: "prefix_inv env cfg cursor db s"
    using assms(1) by (simp_all add: pipe_inv_def)
  have "prefix_inv env cfg cursor db (spawn_next s)"
    using p assms(2) by (auto simp: prefix_inv_def spawn_next_def can_spawn_def)
  moreover have "tasks_inv env (spawn_next s)"
    using t p unfolding tasks_inv_def prefix_inv_def by (auto simp: spawn_next_def)
  moreover have "failure_inv env (spawn_next s)"
    using f assms(2) by (force simp: failure_inv_def spawn_next_def can_spawn_def less_Suc_eq)
  ultimately show ?thesis by (simp add: pipe_inv_def)
qed

lemma distinct_remove1_fst:
  "distinct (map fst xs) \<Longrightarrow> x \<in> set xs \<Longrightarrow>
   distinct (map fst (remove1 x xs)) \<and> set (remove1 x xs) = {y \<in> set xs. fst y \<noteq> fst x}"
proof (induction xs)
  case (Cons y ys)
  show ?case
  proof (cases "x = y")
    case True
    with Cons.prems show ?thesis by (auto simp: rev_image_eqI)
  next
    case False
    with Cons show ?thesis by (auto simp: rev_image_eqI)
  qed
qed simp

lemma record_ok_inv:
  assumes "tasks_inv env s" "failure_inv env s" "(h, a) \<in> set (pipe_tasks s)" "fetch_block env h = Inr block"
  defines "s' \<equiv> s\<lparr>pipe_tasks := remove1 (h, a) (pipe_tasks s), pipe_in_flight := removeAll h (pipe_in_flight s),
                 pipe_ready := (h, block) # filter (\<lambda>e. fst e \<noteq> h) (pipe_ready s)\<rparr>"
  shows "tasks_inv env s'" "failure_inv env s'"
proof -
  have d: "distinct (map fst (remove1 (h, a) (pipe_tasks s)))"
      "set (remove1 (h, a) (pipe_tasks s)) = {y \<in> set (pipe_tasks s). fst y \<noteq> h}"
    using distinct_remove1_fst [of "pipe_tasks s" "(h, a)"] assms(1,3) by (auto simp: tasks_inv_def)
  show "tasks_inv env s'"
    using assms(1,3,4) d unfolding tasks_inv_def s'_def
    by (auto simp: distinct_map_filter subset_iff image_iff)
  have heights: "task_heights s' \<union> ready_heights s' = task_heights s \<union> ready_heights s"
    using assms(3) d(2) unfolding s'_def by (auto simp: image_iff) (metis fst_conv)+
  have "task_heights s' \<subseteq> task_heights s" "set (pipe_tasks s') \<subseteq> set (pipe_tasks s)"
    using d(2) unfolding s'_def by auto
  with assms(2) heights show "failure_inv env s'"
    unfolding failure_inv_def by (auto simp: s'_def split: option.splits)
qed

lemma record_cancel_inv:
  assumes "tasks_inv env s" "failure_inv env s" "(h, True) \<in> set (pipe_tasks s)"
  defines "s' \<equiv> s\<lparr>pipe_tasks := remove1 (h, True) (pipe_tasks s)\<rparr>"
  shows "tasks_inv env s'" "failure_inv env s'"
proof -
  have d: "distinct (map fst (remove1 (h, True) (pipe_tasks s)))"
      "set (remove1 (h, True) (pipe_tasks s)) = {y \<in> set (pipe_tasks s). fst y \<noteq> h}"
    using distinct_remove1_fst [of "pipe_tasks s" "(h, True)"] assms(1,3) by (auto simp: tasks_inv_def)
  have uniq: "(h, False) \<notin> set (pipe_tasks s)"
    using assms(1,3) by (auto simp: tasks_inv_def dest: eq_key_imp_eq_value)
  show "tasks_inv env s'"
    using assms(1) d uniq unfolding tasks_inv_def s'_def by (auto simp: subset_iff image_iff)
  from assms(2,3) obtain f e where fe: "fetch_error s = Some (f, e)" "f < h"
    by (cases "fetch_error s") (auto simp: failure_inv_def)
  have "task_heights s' = task_heights s - {h}" using d(2) unfolding s'_def by auto
  with assms(2) fe d(2) show "failure_inv env s'" unfolding failure_inv_def s'_def by auto
qed

lemma record_error_inv:
  assumes t: "tasks_inv env s" and f: "failure_inv env s" and h: "(h, a) \<in> set (pipe_tasks s)"
    and e: "fetch_block env h = Inl e"
    and r: "record_fetched (Joined h (Inl e)) (s\<lparr>pipe_tasks := remove1 (h, a) (pipe_tasks s)\<rparr>) = Inr s'"
  shows "tasks_inv env s'" "failure_inv env s'"
proof -
  have d: "distinct (map fst (remove1 (h, a) (pipe_tasks s)))"
      "set (remove1 (h, a) (pipe_tasks s)) = {y \<in> set (pipe_tasks s). fst y \<noteq> h}"
    using distinct_remove1_fst [of "pipe_tasks s" "(h, a)"] t h by (auto simp: tasks_inv_def)
  have th: "h \<in> task_heights s" using imageI [OF h, of fst] by simp
  with t have range: "next_to_write s \<le> h" "h < next_to_spawn s" "h \<notin> ready_heights s"
    unfolding tasks_inv_def by (blast dest: atLeastLessThan_iff [THEN iffD1])+
  have "tasks_inv env s' \<and> failure_inv env s'"
  proof (cases "case fetch_error s of None \<Rightarrow> True | Some (g, _) \<Rightarrow> h < g")
    case False
    then obtain g e' where g: "fetch_error s = Some (g, e')" "g \<le> h" by (auto split: option.splits)
    with r have s': "s' = s\<lparr>pipe_tasks := remove1 (h, a) (pipe_tasks s), pipe_in_flight := removeAll h (pipe_in_flight s)\<rparr>"
      by (auto simp: record_fetched_def Let_def)
    have "g < h" using f g th by (auto simp: failure_inv_def le_less)
    moreover have "task_heights s' = task_heights s - {h}" using d(2) by (auto simp: s')
    moreover have "tasks_inv env s'" using t d unfolding tasks_inv_def s' by (auto simp: subset_iff image_iff)
    ultimately show ?thesis using f g d(2) unfolding failure_inv_def s' by auto
  next
    case True
    define ab where "ab = filter (\<lambda>k. h \<le> k) (removeAll h (pipe_in_flight s))"
    have s': "s' = s\<lparr>pipe_tasks := map (\<lambda>(k, b). (k, b \<or> k \<in> set ab)) (remove1 (h, a) (pipe_tasks s)),
        pipe_in_flight := filter (\<lambda>k. k < h) (removeAll h (pipe_in_flight s)), fetch_error := Some (h, e)\<rparr>"
      using r True by (auto simp: record_fetched_def Let_def ab_def split: option.splits)
    have th: "map fst (pipe_tasks s') = map fst (remove1 (h, a) (pipe_tasks s))"
      by (simp add: s' case_prod_beta o_def)
    have heights: "task_heights s' = task_heights s - {h}"
      using arg_cong [OF th, of set] d(2) by auto
    have old: "(k, True) \<in> set (pipe_tasks s) \<Longrightarrow> h < k" for k
      using f True by (auto simp: failure_inv_def split: option.splits)
    have inb: "set (pipe_in_flight s) = {k. (k, False) \<in> set (pipe_tasks s)}" using t by (simp add: tasks_inv_def)
    have ab: "k \<in> set ab \<longleftrightarrow> h < k \<and> (k, False) \<in> set (pipe_tasks s)" for k
      by (auto simp: ab_def inb)
    have aborted: "(k, True) \<in> set (pipe_tasks s') \<Longrightarrow> h < k" for k
      using d(2) old ab by (auto simp: s')
    have running: "(k, False) \<in> set (pipe_tasks s') \<longleftrightarrow> k < h \<and> (k, False) \<in> set (pipe_tasks s)" for k
      using d(2) ab by (auto simp: s' image_iff)
    have below: "{next_to_write s..<h} \<subseteq> task_heights s \<union> ready_heights s"
      using f True range by (auto simp: failure_inv_def subset_iff split: option.splits)
    have frame: "pipe_ready s' = pipe_ready s" "next_to_write s' = next_to_write s" "next_to_spawn s' = next_to_spawn s"
      "set (pipe_in_flight s') = {k. k < h \<and> (k, False) \<in> set (pipe_tasks s)}" by (auto simp: s' inb)
    have "distinct (map fst (pipe_tasks s'))" using d(1) by (simp only: th)
    moreover have "set (pipe_in_flight s') = {k. (k, False) \<in> set (pipe_tasks s')}" by (simp add: frame(4) running)
    ultimately have "tasks_inv env s'" using t unfolding tasks_inv_def frame(1-3) heights by (intro conjI) auto
    moreover have "failure_inv env s'"
      using aborted below e range heights unfolding failure_inv_def by (auto simp: s')
    ultimately show ?thesis ..
  qed
  then show "tasks_inv env s'" "failure_inv env s'" by simp_all
qed

lemma record_inv:
  assumes inv: "pipe_inv env cfg cursor db s" and task: "task \<in> set (pipe_tasks s)"
    and out: "task_outcome env panics task j"
    and r: "record_fetched j (s\<lparr>pipe_tasks := remove1 task (pipe_tasks s)\<rparr>) = Inr s'"
  shows "pipe_inv env cfg cursor db s'"
proof -
  have t: "tasks_inv env s" "failure_inv env s" and p: "prefix_inv env cfg cursor db s"
    using inv by (simp_all add: pipe_inv_def)
  have "prefix_inv env cfg cursor db s'"
    using p r by (auto simp: prefix_inv_def record_fetched_def Let_def split: joined.splits sum.splits option.splits if_splits)
  moreover have "tasks_inv env s' \<and> failure_inv env s'"
    using out
  proof cases
    case (completed height aborted)
    show ?thesis
    proof (cases "fetch_block env height")
      case (Inl e)
      then show ?thesis using record_error_inv [OF t, of height aborted e s'] completed task r by simp
    next
      case (Inr block)
      then show ?thesis
        using record_ok_inv [OF t, of height aborted block] completed task r by (simp add: record_fetched_def)
    qed
  next
    case (cancelled height)
    then show ?thesis using record_cancel_inv [OF t, of height] task r by (simp add: record_fetched_def)
  next
    case (panicked reason)
    then show ?thesis using r by (simp add: record_fetched_def)
  qed
  ultimately show ?thesis by (simp add: pipe_inv_def)
qed

lemma ready_block:
  assumes "tasks_inv env s" "map_of (pipe_ready s) h = Some block"
  shows "fetch_block env h = Inr block" "(h, block) \<in> set (pipe_ready s)" "h < next_to_spawn s"
proof -
  show m: "(h, block) \<in> set (pipe_ready s)" using assms(2) by (rule map_of_SomeD)
  with assms(1) show "fetch_block env h = Inr block" by (auto simp: tasks_inv_def)
  show "h < next_to_spawn s" using assms(1) imageI [OF m, of fst] unfolding tasks_inv_def by auto
qed

lemma write_inv:
  assumes inv: "pipe_inv env cfg cursor db s" and b: "map_of (pipe_ready s) (next_to_write s) = Some block"
    and w: "write_decoded_block env (next_to_write s) block (pipe_db s) = Inr (advanced, db')"
  defines "s' \<equiv> s\<lparr>pipe_ready := filter (\<lambda>e. fst e \<noteq> next_to_write s) (pipe_ready s), pipe_db := db',
      pipe_cursor := advanced, pipe_projected := pipe_projected s + 1, next_to_write := next_to_write s + 1\<rparr>"
  shows "pipe_inv env cfg cursor db s'"
proof -
  let ?h = "next_to_write s"
  have t: "tasks_inv env s" and f: "failure_inv env s" and p: "prefix_inv env cfg cursor db s"
    using inv by (simp_all add: pipe_inv_def)
  note ready = ready_block [OF t b]
  have rh: "?h \<in> ready_heights s" using imageI [OF ready(2), of fst] by simp
  have notask: "?h \<notin> task_heights s" using t rh by (auto simp: tasks_inv_def)
  have "commit_blocks env ([cfg_from cfg..<?h] @ [?h]) cursor db = Some (advanced, db')"
    using p w ready(1) by (intro commit_blocks_snoc) (auto simp: prefix_inv_def)
  then have "prefix_inv env cfg cursor db s'" using p ready(3) by (auto simp: prefix_inv_def s'_def)
  moreover have rh': "ready_heights s' = ready_heights s - {?h}" by (auto simp: s'_def)
  have "tasks_inv env s'"
    using t notask rh' unfolding tasks_inv_def
    by (auto simp: s'_def distinct_map_filter subset_iff Suc_le_eq le_less)
  moreover have "failure_inv env s'"
  proof (cases "fetch_error s")
    case None
    with f rh' show ?thesis unfolding failure_inv_def by (auto simp: s'_def subset_iff)
  next
    case (Some fe)
    obtain g e where fe: "fe = (g, e)" by force
    have "fetch_block env g = Inl e" "?h \<le> g" using f Some fe by (auto simp: failure_inv_def)
    with ready(1) have "?h < g" by (cases "?h = g") auto
    with f Some fe rh' show ?thesis unfolding failure_inv_def by (auto simp: s'_def subset_iff)
  qed
  ultimately show ?thesis by (simp add: pipe_inv_def)
qed

text \<open>Where the writer stands when the loop ends: at the failed height, or behind the window.\<close>

lemma pipe_end:
  assumes "pipe_inv env cfg cursor db s" "map_of (pipe_ready s) (next_to_write s) = None" "pipe_tasks s = []"
    and "fetch_error s \<noteq> None \<or> cfg_to cfg < next_to_spawn s"
  shows "case fetch_error s of None \<Rightarrow> next_to_write s = cfg_to cfg + 1
     | Some (h, e) \<Rightarrow> h = next_to_write s \<and> fetch_block env h = Inl e \<and> h \<le> cfg_to cfg"
proof -
  have p: "prefix_inv env cfg cursor db s" and f: "failure_inv env s" using assms(1) by (simp_all add: pipe_inv_def)
  have nr: "next_to_write s \<notin> ready_heights s" using assms(2) by (simp add: map_of_eq_None_iff)
  show ?thesis
  proof (cases "fetch_error s")
    case None
    then have "{next_to_write s..<next_to_spawn s} \<subseteq> ready_heights s"
      using f assms(3) by (simp add: failure_inv_def)
    with nr have "next_to_write s = next_to_spawn s" using p by (auto simp: prefix_inv_def subset_iff le_less)
    with None assms(4) p show ?thesis by (auto simp: prefix_inv_def)
  next
    case (Some fe)
    obtain h e where fe: "fe = (h, e)" by force
    have "{next_to_write s..<h} \<subseteq> ready_heights s" "next_to_write s \<le> h" "h < next_to_spawn s" "fetch_block env h = Inl e"
      using f Some fe assms(3) by (simp_all add: failure_inv_def)
    moreover from this nr have "h = next_to_write s" by (auto simp: subset_iff le_less)
    ultimately show ?thesis using Some fe p by (auto simp: prefix_inv_def)
  qed
qed

section \<open>The pipeline against the serial path\<close>

text \<open>The zero-state guards hold: the cursor is stored and a main chain stands at or above its boundary.\<close>

definition guards_hold :: "string \<Rightarrow> nat \<Rightarrow> 't chain_db \<Rightarrow> bool" where
  "guards_hold chain height db \<longleftrightarrow>
     (\<exists>v\<ge>0. current_height db = Some v \<and> (chain = ''main'' \<longrightarrow> int MAIN_ZERO_STATE_BOUNDARY_HEIGHT \<le> v))
     \<and> (chain = ''main'' \<longrightarrow> MAIN_ZERO_STATE_BOUNDARY_HEIGHT < height)"

lemma guarded_project:
  "guards_hold chain height db \<Longrightarrow>
   project_raw_block_and_advance_cursor chain env height db =
     and_then (fetch_block env height) (\<lambda>block. write_decoded_block env height block db)"
  by (auto simp: guards_hold_def project_raw_block_and_advance_cursor_def get_cursor_height_def
        validate_zero_state_scope_def validate_projected_height_def nat_less_iff)

lemma write_cursor:
  assumes "write_decoded_block env height block db = Inr (advanced, db')"
  obtains v where "current_height db = Some v" "current_height db' = Some (max v (int height))"
    "advanced = nat (max v (int height))"
  using assms by (auto simp: write_decoded_block_def advance_cursor_def block_height_to_i64_def result_eqs Let_def
      split: option.splits if_splits)

lemma write_guards:
  assumes "guards_hold chain height db" "write_decoded_block env height block db = Inr (advanced, db')"
    and "height \<le> height'"
  shows "guards_hold chain height' db'"
  using assms(1,3) by (rule_tac write_cursor [OF assms(2)]) (auto simp: guards_hold_def)

lemma project_heights_commit:
  assumes "commit_blocks env [i..<j] cursor db = Some (cursor', db')" "guards_hold chain i db" "i \<le> j" "j \<le> k"
  shows "project_heights chain env [i..<k] n cursor db = project_heights chain env [j..<k] (n + (j - i)) cursor' db'
    \<and> guards_hold chain j db'"
  using assms
proof (induction "j - i" arbitrary: i n cursor db)
  case 0
  then show ?case by simp
next
  case (Suc d)
  then have lt: "i < j" "i < k" by auto
  from Suc.prems(1) lt obtain block c1 db1 where b: "fetch_block env i = Inr block"
      and w: "write_decoded_block env i block db = Inr (c1, db1)"
      and rest: "commit_blocks env [Suc i..<j] c1 db1 = Some (cursor', db')"
    by (auto simp: upt_conv_Cons split: sum.splits prod.splits)
  have g: "guards_hold chain (Suc i) db1" using Suc.prems(2) w by (rule write_guards) simp
  have "project_heights chain env [i..<k] n cursor db = project_heights chain env [Suc i..<k] (n + 1) c1 db1"
    using lt(2) b w guarded_project [OF Suc.prems(2), of env] by (simp add: upt_conv_Cons)
  also have "\<dots> = project_heights chain env [j..<k] (n + 1 + (j - Suc i)) cursor' db'"
    using Suc.hyps(1) [of "Suc i" c1 db1 "n + 1"] Suc.hyps(2) rest g lt Suc.prems(4) by simp
  also have "n + 1 + (j - Suc i) = n + (j - i)" using lt by simp
  finally show ?case using Suc.hyps(1) [of "Suc i" c1 db1] Suc.hyps(2) rest g lt Suc.prems(4) by simp
qed

text \<open>What a finished pipeline owes the serial path: from where the writer stopped, the serial path
  ends at once with the same result.\<close>

definition serial_end ::
    "string \<Rightarrow> ('b, 't) node_env \<Rightarrow> pipe_config \<Rightarrow> ('b, 't) pipe \<Rightarrow> ingestion_error + window_outcome \<Rightarrow> bool" where
  "serial_end chain env cfg s r \<longleftrightarrow>
     (guards_hold chain (next_to_write s) (pipe_db s) \<longrightarrow>
      project_heights chain env [next_to_write s..<cfg_to cfg + 1] (pipe_projected s) (pipe_cursor s) (pipe_db s)
        = (r, pipe_db s))"

definition node_side_fetches :: "('b, 't) node_env \<Rightarrow> bool" where
  "node_side_fetches env \<longleftrightarrow> (\<forall>h e. fetch_block env h = Inl e \<longrightarrow> \<not> is_database_failure e)"

lemma finish_serial:
  assumes "pipe_inv env cfg cursor db s" "map_of (pipe_ready s) (next_to_write s) = None" "pipe_tasks s = []"
    and "fetch_error s \<noteq> None \<or> cfg_to cfg < next_to_spawn s" "node_side_fetches env"
  shows "serial_end chain env cfg s (pipe_finish s)"
proof (cases "fetch_error s")
  case None
  with pipe_end [OF assms(1-4)] show ?thesis by (simp add: serial_end_def pipe_finish_def)
next
  case (Some fe)
  with pipe_end [OF assms(1-4)] obtain e where e: "fetch_error s = Some (next_to_write s, e)"
      "fetch_block env (next_to_write s) = Inl e" "next_to_write s \<le> cfg_to cfg" by (cases fe) auto
  with assms(5) have "\<not> is_database_failure e" by (auto simp: node_side_fetches_def)
  then have "keeps_committed_prefix (pipe_projected s) e \<longleftrightarrow> pipe_projected s \<noteq> 0"
    by (simp add: keeps_committed_prefix_def)
  with e show ?thesis
    by (simp add: serial_end_def pipe_finish_def stalled_outcome_def upt_conv_Cons guarded_project del: upt_Suc)
qed

lemma write_fail_serial:
  assumes "pipe_inv env cfg cursor db s" "map_of (pipe_ready s) (next_to_write s) = Some block"
    and "write_decoded_block env (next_to_write s) block (pipe_db s) = Inl e"
  shows "serial_end chain env cfg s
    (if keeps_committed_prefix (pipe_projected s) e then Inr (stalled_outcome s (next_to_write s)) else Inl e)"
proof -
  have "fetch_block env (next_to_write s) = Inr block" "next_to_write s \<le> cfg_to cfg"
    using ready_block [OF _ assms(2), of env] assms(1) by (auto simp: pipe_inv_def prefix_inv_def)
  with assms(3) show ?thesis
    by (simp add: serial_end_def stalled_outcome_def upt_conv_Cons guarded_project del: upt_Suc)
qed

text \<open>The invariant of every point of the loop.\<close>

fun point_inv ::
    "('b, 't) node_env \<Rightarrow> bool \<Rightarrow> pipe_config \<Rightarrow> nat \<Rightarrow> 't chain_db \<Rightarrow> ('b, 't) pipe_point \<Rightarrow> bool" where
  "point_inv env panics cfg cursor db (Finished r, s) \<longleftrightarrow>
     prefix_inv env cfg cursor db s
     \<and> (panics \<and> (\<exists>reason. r = Inl (FetchTask reason))
        \<or> (node_side_fetches env \<longrightarrow> (\<forall>chain. serial_end chain env cfg s r)))"
| "point_inv env panics cfg cursor db (Check, s) \<longleftrightarrow>
     pipe_inv env cfg cursor db s \<and> map_of (pipe_ready s) (next_to_write s) = None"
| "point_inv env panics cfg cursor db (phase, s) \<longleftrightarrow> pipe_inv env cfg cursor db s"

lemma record_fail:
  "task_outcome env panics task j \<Longrightarrow> record_fetched j s = Inl e \<Longrightarrow> panics \<and> (\<exists>reason. e = FetchTask reason)"
  by (erule task_outcomeE)
     (auto simp: record_fetched_def Let_def split: sum.splits if_splits option.splits)

lemma write_next_point:
  assumes "pipe_inv env cfg cursor db s" "map_of (pipe_ready s) (next_to_write s) = Some block"
  shows "point_inv env panics cfg cursor db (write_next env block s)"
proof (cases "write_decoded_block env (next_to_write s) block (pipe_db s)")
  case (Inl e)
  have "prefix_inv env cfg cursor db s" using assms(1) by (simp add: pipe_inv_def)
  with write_fail_serial [OF assms Inl] Inl show ?thesis
    by (simp add: write_next_def Let_def prefix_inv_def serial_end_def stalled_outcome_def)
next
  case (Inr r)
  with write_inv [OF assms, of "fst r" "snd r"] show ?thesis
    by (cases r) (simp add: write_next_def Let_def)
qed

lemma point_inv_step:
  assumes "point_inv env panics cfg cursor db x" "pipe_step env panics cfg x y"
  shows "point_inv env panics cfg cursor db y"
  using assms(2,1)
proof cases
  case (finish s)
  with assms(1) finish_serial [of env cfg cursor db s] show ?thesis by (auto simp: pipe_inv_def)
next
  case (harvest_fail task s j error)
  with assms(1) record_fail [of env panics task j] show ?thesis by (auto simp: pipe_inv_def)
next
  case (wait_fail task s j error)
  with assms(1) record_fail [of env panics task j] show ?thesis by (auto simp: pipe_inv_def)
qed (use assms(1) in \<open>auto intro: spawn_inv record_inv write_next_point\<close>)

lemma pipe_reachable_inv:
  "pipe_reachable env panics cfg cursor db x \<Longrightarrow> cfg_from cfg \<le> cfg_to cfg + 1 \<Longrightarrow>
   point_inv env panics cfg cursor db x"
proof (induction rule: pipe_reachable.induct)
  case start
  then show ?case by (simp add: pipe_start_inv)
next
  case (step x y)
  then show ?case by (blast intro: point_inv_step)
qed

section \<open>Termination of the pipeline\<close>

text \<open>Work left: a height counts three while it waits to be spawned, two while it is fetched and one
  while it waits for the writer; the phase breaks ties.\<close>

fun phase_rank :: "pipe_config \<Rightarrow> ('b, 't) pipe_point \<Rightarrow> nat" where
  "phase_rank cfg (Top_Up, s) = (if can_spawn cfg s then 1 else 6)"
| "phase_rank cfg (Harvest, s) = 5"
| "phase_rank cfg (Drain, s) = 4"
| "phase_rank cfg (Check, s) = 3"
| "phase_rank cfg (Wait, s) = 2"
| "phase_rank cfg (Finished r, s) = 0"

definition pipe_work :: "pipe_config \<Rightarrow> ('b, 't) pipe \<Rightarrow> nat" where
  "pipe_work cfg s = 3 * (cfg_to cfg + 1 - next_to_spawn s) + 2 * length (pipe_tasks s) + length (pipe_ready s)"

definition pipe_measure :: "pipe_config \<Rightarrow> ('b, 't) pipe_point \<Rightarrow> nat" where
  "pipe_measure cfg x = 10 * pipe_work cfg (snd x) + phase_rank cfg x"

lemma record_work:
  assumes "task \<in> set (pipe_tasks s)" "record_fetched j (s\<lparr>pipe_tasks := remove1 task (pipe_tasks s)\<rparr>) = Inr s'"
  shows "pipe_work cfg s' < pipe_work cfg s"
proof -
  let ?s = "s\<lparr>pipe_tasks := remove1 task (pipe_tasks s)\<rparr>"
  have "length (remove1 task (pipe_tasks s)) + 1 = length (pipe_tasks s)"
    using assms(1) length_pos_if_in_set [OF assms(1)] by (simp add: length_remove1)
  moreover have "length (pipe_tasks s') = length (remove1 task (pipe_tasks s))" "next_to_spawn s' = next_to_spawn s"
      "length (pipe_ready s') \<le> length (pipe_ready s) + 1"
    using assms(2) by (auto simp: record_fetched_def Let_def le_SucI
        split: joined.splits sum.splits if_splits option.splits)
  ultimately show ?thesis by (simp add: pipe_work_def)
qed

lemma ready_remove_work:
  "map_of (pipe_ready s) h = Some b \<Longrightarrow> length (filter (\<lambda>e. fst e \<noteq> h) (pipe_ready s)) < length (pipe_ready s)"
  by (rule length_filter_less [of "(h, b)"]) (auto dest: map_of_SomeD)

text \<open>An empty task set with work left means that the writer has caught up with the spawner, so the
  next top-up spawns.\<close>

lemma idle_can_spawn:
  assumes "pipe_inv env cfg cursor db s" "map_of (pipe_ready s) (next_to_write s) = None" "pipe_tasks s = []"
    and "\<not> (fetch_error s \<noteq> None \<or> cfg_to cfg < next_to_spawn s)"
    and "0 < cfg_concurrency cfg" "0 < cfg_read_ahead cfg"
  shows "can_spawn cfg s"
proof -
  have "next_to_write s \<notin> ready_heights s" using assms(2) by (simp add: map_of_eq_None_iff)
  moreover have none: "fetch_error s = None" using assms(4) by blast
  then have "{next_to_write s..<next_to_spawn s} \<subseteq> ready_heights s"
    using assms(1,3) by (simp add: pipe_inv_def failure_inv_def)
  ultimately have "next_to_spawn s \<le> next_to_write s" by (auto simp: subset_iff)
  with assms(3-6) none show ?thesis by (simp add: can_spawn_def)
qed

text \<open>The point invariant with what the Check phase established kept while waiting.\<close>

fun wait_inv :: "pipe_config \<Rightarrow> ('b, 't) pipe_point \<Rightarrow> bool" where
  "wait_inv cfg (Wait, s) \<longleftrightarrow> map_of (pipe_ready s) (next_to_write s) = None
     \<and> \<not> (pipe_tasks s = [] \<and> (fetch_error s \<noteq> None \<or> cfg_to cfg < next_to_spawn s))"
| "wait_inv cfg x \<longleftrightarrow> True"

lemma wait_inv_step:
  "point_inv env panics cfg cursor db x \<Longrightarrow> pipe_step env panics cfg x y \<Longrightarrow> wait_inv cfg y"
  by (erule pipe_step.cases) (auto simp: write_next_def Let_def split: sum.splits)

lemma pipe_reachable_wait:
  assumes "pipe_reachable env panics cfg cursor db x" "cfg_from cfg \<le> cfg_to cfg + 1"
  shows "wait_inv cfg x"
  using assms(1)
proof cases
  case (step x')
  then show ?thesis by (blast intro: wait_inv_step pipe_reachable_inv [OF _ assms(2)])
qed simp

lemma pipe_step_decreases:
  assumes "point_inv env panics cfg cursor db x" "wait_inv cfg x" "pipe_step env panics cfg x y"
    and "0 < cfg_concurrency cfg" "0 < cfg_read_ahead cfg"
  shows "pipe_measure cfg y < pipe_measure cfg x"
  using assms(3,1,2)
proof cases
  case (spawn s)
  then have "pipe_work cfg (spawn_next s) < pipe_work cfg s"
    by (auto simp: pipe_work_def spawn_next_def can_spawn_def)
  then show ?thesis unfolding spawn by (simp add: pipe_measure_def)
next
  case (harvest task s j s')
  then show ?thesis using record_work [OF harvest(3,5), of cfg] by (simp add: pipe_measure_def)
next
  case (wait task s j s')
  then show ?thesis using record_work [OF wait(3,5), of cfg] by (simp add: pipe_measure_def)
next
  case (write_block s block)
  have "pipe_work cfg (snd (write_next env block s)) < pipe_work cfg s"
    using ready_remove_work [OF write_block(3)]
    by (auto simp: write_next_def Let_def pipe_work_def split: sum.splits)
  moreover have "phase_rank cfg (write_next env block s) \<le> 4"
    by (auto simp: write_next_def Let_def split: sum.splits)
  ultimately show ?thesis unfolding write_block by (simp add: pipe_measure_def)
next
  case (nothing_to_wait s)
  then have "can_spawn cfg s" using idle_can_spawn [of env cfg cursor db s] assms by auto
  then show ?thesis unfolding nothing_to_wait by (simp add: pipe_measure_def)
qed (simp_all add: pipe_measure_def)

lemma pipe_progress:
  assumes "\<And>r. phase \<noteq> Finished r"
  shows "\<exists>y. pipe_step env panics cfg (phase, s) y"
proof (cases phase)
  case Top_Up
  then show ?thesis by (cases "can_spawn cfg s") (auto intro: pipe_step.spawn pipe_step.topped)
next
  case Harvest
  then show ?thesis by (auto intro: pipe_step.harvested)
next
  case Drain
  then show ?thesis
    using pipe_step.write_block [of s _ env panics cfg] pipe_step.drained [of s env panics cfg]
    by (cases "map_of (pipe_ready s) (next_to_write s)") blast+
next
  case Check
  then show ?thesis
    using pipe_step.finish [of s cfg env panics] pipe_step.go_on [of s cfg env panics]
    by (cases "pipe_tasks s = [] \<and> (fetch_error s \<noteq> None \<or> cfg_to cfg < next_to_spawn s)") blast+
next
  case Wait
  show ?thesis
  proof (cases "pipe_tasks s")
    case Nil
    with Wait show ?thesis by (auto intro: pipe_step.nothing_to_wait)
  next
    case (Cons task tasks)
    obtain h a where task: "task = (h, a)" by force
    let ?s = "s\<lparr>pipe_tasks := remove1 task (pipe_tasks s)\<rparr>"
    have t: "task \<in> set (pipe_tasks s)" using Cons by simp
    have o: "task_outcome env panics task (Joined h (fetch_block env h))" unfolding task by (rule task_outcome.completed)
    show ?thesis
    proof (cases "record_fetched (Joined h (fetch_block env h)) ?s")
      case (Inl e)
      from pipe_step.wait_fail [OF t o this] Wait show ?thesis by blast
    next
      case (Inr s')
      from pipe_step.wait [OF t o this] Wait show ?thesis by blast
    qed
  qed
qed (use assms in auto)

lemma no_infinite_pipe:
  assumes "pipe_reachable env panics cfg cursor db (run 0)" "\<And>i. pipe_step env panics cfg (run i) (run (Suc i))"
    and "cfg_from cfg \<le> cfg_to cfg + 1" "0 < cfg_concurrency cfg" "0 < cfg_read_ahead cfg"
  shows False
proof -
  have reach: "pipe_reachable env panics cfg cursor db (run i)" for i
    by (induction i) (auto intro: assms(1) pipe_reachable.step assms(2))
  have "pipe_measure cfg (run (Suc i)) < pipe_measure cfg (run i)" for i
    by (rule pipe_step_decreases [OF pipe_reachable_inv [OF reach assms(3)] pipe_reachable_wait [OF reach assms(3)]
          assms(2,4,5)])
  then have "\<forall>i. (run (Suc i), run i) \<in> measure (pipe_measure cfg)" by simp
  with wf_measure [of "pipe_measure cfg"] show False unfolding wf_iff_no_infinite_down_chain by blast
qed

lemma commit_blocks_cursor:
  assumes "commit_blocks env [i..<j] cursor db = Some (cursor', db')" "i \<le> j" "0 < i"
    and "current_height db = Some (int (i - 1))" "cursor = i - 1"
  shows "current_height db' = Some (int (j - 1)) \<and> cursor' = j - 1"
  using assms
proof (induction "j - i" arbitrary: i cursor db)
  case 0
  then show ?case by simp
next
  case (Suc d)
  then have lt: "i < j" by auto
  from Suc.prems(1) lt obtain block c1 db1 where w: "write_decoded_block env i block db = Inr (c1, db1)"
      and rest: "commit_blocks env [Suc i..<j] c1 db1 = Some (cursor', db')"
    by (auto simp: upt_conv_Cons split: sum.splits prod.splits)
  have "current_height db1 = Some (int i)" "c1 = i"
    using write_cursor [OF w] Suc.prems(4) by (auto simp: max_def split: if_splits)
  then show ?case using Suc.hyps(1) [of "Suc i" c1 db1] Suc.hyps(2) rest lt by simp
qed

section \<open>Properties of window projection\<close>

lemma pipe_config_ok:
  assumes "from_height window \<le> to_height window + 1"
  shows "cfg_from (pipe_config_of settings window) \<le> cfg_to (pipe_config_of settings window) + 1"
    "0 < cfg_concurrency (pipe_config_of settings window)" "0 < cfg_read_ahead (pipe_config_of settings window)"
  using assms by (auto simp: pipe_config_of_def Let_def)

text \<open>A pass over two blocks: the second fetch fails before the first one arrives.\<close>

definition demo_env :: "(nat, nat list) node_env" where
  "demo_env = \<lparr>fetch_block = (\<lambda>h. if h = 2 then Inl (Rpc ''timeout'') else Inr h),
     project_block = (\<lambda>h b tables. Inr (tables @ [b]))\<rparr>"

definition demo_window :: fetch_window where
  "demo_window = \<lparr>from_height = 1, to_height = 2, window_concurrency = 2\<rparr>"

definition demo_chain_db :: "nat list chain_db" where
  "demo_chain_db = \<lparr>current_height = Some 0, db_tables = []\<rparr>"

definition demo_end :: "(nat, nat list) pipe" where
  "demo_end = \<lparr>pipe_tasks = [], pipe_in_flight = [], pipe_ready = [], next_to_spawn = 3, next_to_write = 2,
     pipe_projected = 1, pipe_cursor = 1, fetch_error = Some (2, Rpc ''timeout''),
     pipe_db = \<lparr>current_height = Some 1, db_tables = [1]\<rparr>\<rparr>"

definition demo_outcome :: window_outcome where
  "demo_outcome = \<lparr>projected_blocks = 1, cursor_height_after = 1, outcome_stalled_height = Some 2\<rparr>"

lemma demo_run:
  "pipe_reachable demo_env False (pipe_config_of demo_settings demo_window) 0 demo_chain_db (Finished (Inr demo_outcome), demo_end)"
proof -
  let ?cfg = "pipe_config_of demo_settings demo_window"
  let ?R = "pipe_reachable demo_env False ?cfg 0 demo_chain_db"
  have cfg: "?cfg = \<lparr>cfg_from = 1, cfg_to = 2, cfg_concurrency = 2, cfg_read_ahead = 8\<rparr>"
    by (simp add: pipe_config_of_def demo_window_def demo_settings_def)
  define s1 s2 s3 s4 :: "(nat, nat list) pipe" where
    "s1 = spawn_next (pipe_start ?cfg 0 demo_chain_db)" and "s2 = spawn_next s1"
    and "s3 = s2\<lparr>pipe_tasks := [(1, False)], pipe_in_flight := [1], fetch_error := Some (2, Rpc ''timeout'')\<rparr>"
    and "s4 = s3\<lparr>pipe_tasks := [], pipe_in_flight := [], pipe_ready := [(1, 1)]\<rparr>"
  note defs = s1_def s2_def s3_def s4_def cfg pipe_start_def spawn_next_def can_spawn_def demo_chain_db_def
  have "?R (Top_Up, s1)"
    unfolding s1_def by (rule pipe_reachable.step [OF pipe_reachable.start pipe_step.spawn]) (simp add: defs)
  then have "?R (Top_Up, s2)"
    unfolding s2_def by (rule pipe_reachable.step [OF _ pipe_step.spawn]) (simp add: defs)
  then have "?R (Harvest, s2)" by (rule pipe_reachable.step [OF _ pipe_step.topped]) (simp add: defs)
  then have "?R (Harvest, s3)"
    by (rule pipe_reachable.step [OF _ pipe_step.harvest [OF _ task_outcome.completed [of _ _ 2 False]]])
       (simp_all add: defs record_fetched_def demo_env_def)
  then have "?R (Harvest, s4)"
    by (rule pipe_reachable.step [OF _ pipe_step.harvest [OF _ task_outcome.completed [of _ _ 1 False]]])
       (simp_all add: defs record_fetched_def demo_env_def)
  then have "?R (Drain, s4)" by (rule pipe_reachable.step [OF _ pipe_step.harvested])
  moreover have w: "write_next demo_env 1 s4 = (Drain, demo_end)"
    by (simp add: defs write_next_def write_decoded_block_def advance_cursor_def block_height_to_i64_def demo_env_def
          demo_end_def)
  ultimately have "?R (Drain, demo_end)"
    using pipe_step.write_block [of s4 1 demo_env False ?cfg] by (auto simp: defs intro: pipe_reachable.step)
  then have "?R (Check, demo_end)"
    by (rule pipe_reachable.step [OF _ pipe_step.drained]) (simp add: demo_end_def)
  moreover have "pipe_step demo_env False ?cfg (Check, demo_end) (Finished (pipe_finish demo_end), demo_end)"
    by (rule pipe_step.finish) (simp_all add: demo_end_def)
  moreover have "pipe_finish demo_end = Inr demo_outcome"
    by (simp add: pipe_finish_def demo_end_def stalled_outcome_def demo_outcome_def)
  ultimately show ?thesis by (metis pipe_reachable.step)
qed

text \<open>C9. At every point of a pipelined pass, whatever order the fetches finish in, whatever is aborted,
  fails or panics, the database holds a gap-free prefix of the window: exactly the blocks up to some
  height have been written, in height order, each with its transaction, and the cursor is at that
  height.  A crash or a cancelled pass therefore resumes at the next missing block.\<close>

theorem pipeline_gap_free:
  assumes "pipe_reachable env panics (pipe_config_of settings window) cursor db (phase, s)"
    and "from_height window = cursor + 1" "from_height window \<le> to_height window + 1"
    and "current_height db = Some (int cursor)"
  shows "\<exists>k. cursor \<le> k \<and> k \<le> to_height window
     \<and> commit_blocks env [cursor + 1..<k + 1] cursor db = Some (k, pipe_db s)
     \<and> current_height (pipe_db s) = Some (int k)"
proof -
  let ?cfg = "pipe_config_of settings window"
  have "point_inv env panics ?cfg cursor db (phase, s)"
    by (rule pipe_reachable_inv [OF assms(1) pipe_config_ok(1) [OF assms(3)]])
  then have "prefix_inv env ?cfg cursor db s" by (cases phase) (simp_all add: pipe_inv_def)
  then have w: "cursor + 1 \<le> next_to_write s" "next_to_write s \<le> to_height window + 1"
      "commit_blocks env [cursor + 1..<next_to_write s] cursor db = Some (pipe_cursor s, pipe_db s)"
    using assms(2) by (auto simp: prefix_inv_def pipe_config_of_def Let_def)
  have "current_height (pipe_db s) = Some (int (next_to_write s - 1)) \<and> pipe_cursor s = next_to_write s - 1"
    by (rule commit_blocks_cursor [OF w(3,1)]) (simp_all add: assms(4))
  with w show ?thesis by (intro exI [of _ "next_to_write s - 1"]) auto
qed

theorem pipeline_gap_free_witness:
  "\<exists>k. k \<le> 2 \<and> commit_blocks demo_env [1..<k + 1] 0 demo_chain_db = Some (k, pipe_db demo_end)
     \<and> current_height (pipe_db demo_end) = Some (int k) \<and> db_tables (pipe_db demo_end) = [1]"
  using pipeline_gap_free [OF demo_run] by (auto simp: demo_window_def demo_chain_db_def demo_end_def)

text \<open>C1. The pipeline is an optimisation only: every pipelined pass that ends without a task panic
  leaves exactly the database and reports exactly the outcome (blocks, cursor, stalled height or
  error) of the strictly serial path, when the node answers the same, its failures are not database
  failures and the zero-state guards hold.\<close>

theorem pipeline_equals_serial:
  assumes "pipe_reachable env False (pipe_config_of settings window) cursor db (Finished r, s)"
    and "from_height window \<le> to_height window + 1"
    and "node_side_fetches env" "guards_hold chain (from_height window) db"
  shows "project_window_sequentially chain env window cursor db = (r, pipe_db s)"
proof -
  let ?cfg = "pipe_config_of settings window"
  have "point_inv env False ?cfg cursor db (Finished r, s)"
    by (rule pipe_reachable_inv [OF assms(1) pipe_config_ok(1) [OF assms(2)]])
  then have p: "prefix_inv env ?cfg cursor db s" and e: "serial_end chain env ?cfg s r"
    using assms(3) by simp_all
  have cfg: "cfg_from ?cfg = from_height window" "cfg_to ?cfg = to_height window"
    by (simp_all add: pipe_config_of_def Let_def)
  from p have "commit_blocks env [from_height window..<next_to_write s] cursor db = Some (pipe_cursor s, pipe_db s)"
      "from_height window \<le> next_to_write s" "next_to_write s \<le> Suc (to_height window)"
      "pipe_projected s = next_to_write s - from_height window" by (auto simp: prefix_inv_def cfg)
  with project_heights_commit [of env "from_height window" "next_to_write s" cursor db _ _ chain "Suc (to_height window)" 0]
  have "project_heights chain env [from_height window..<Suc (to_height window)] 0 cursor db
        = project_heights chain env [next_to_write s..<Suc (to_height window)] (pipe_projected s) (pipe_cursor s) (pipe_db s)"
      "guards_hold chain (next_to_write s) (pipe_db s)" using assms(4) by simp_all
  with e show ?thesis
    by (simp add: project_window_sequentially_def window_heights_def serial_end_def cfg del: upt_Suc)
qed

theorem pipeline_equals_serial_witness:
  "project_window_sequentially ''test'' demo_env demo_window 0 demo_chain_db = (Inr demo_outcome, pipe_db demo_end)"
proof -
  have "node_side_fetches demo_env"
    by (simp add: node_side_fetches_def demo_env_def is_database_failure_def split: if_splits)
  moreover have "guards_hold ''test'' (from_height demo_window) demo_chain_db" by (simp add: guards_hold_def demo_chain_db_def)
  ultimately show ?thesis using pipeline_equals_serial [OF demo_run] by (simp add: demo_window_def)
qed

text \<open>C36. A pipelined pass always ends: no point of the loop is stuck before the result, and no sequence
  of steps goes on for ever, whatever the schedule and the configured capacities are.\<close>

theorem pipeline_terminates:
  assumes "from_height window \<le> to_height window + 1"
  shows "(\<forall>phase s. pipe_reachable env panics (pipe_config_of settings window) cursor db (phase, s) \<longrightarrow>
            (\<exists>r. phase = Finished r) \<or> (\<exists>y. pipe_step env panics (pipe_config_of settings window) (phase, s) y))
    \<and> \<not> (\<exists>run. pipe_reachable env panics (pipe_config_of settings window) cursor db (run 0)
            \<and> (\<forall>i. pipe_step env panics (pipe_config_of settings window) (run i) (run (Suc i))))"
  using pipe_progress no_infinite_pipe [where cfg = "pipe_config_of settings window"]
    pipe_config_ok [OF assms, of settings] by blast

theorem pipeline_terminates_witness:
  "\<not> (\<exists>run. pipe_reachable demo_env True (pipe_config_of demo_settings demo_window) 0 demo_chain_db (run 0)
        \<and> (\<forall>i. pipe_step demo_env True (pipe_config_of demo_settings demo_window) (run i) (run (Suc i))))"
  using pipeline_terminates [of demo_window demo_env True demo_settings 0 demo_chain_db] by (simp add: demo_window_def)

end
