(* ===== verification/Sync_Driver.thy ===== *)
theory Sync_Driver
  imports Sync_Pipeline
begin

text \<open>
  The block ingestion driver (\<open>src/crates/ingestion/src/driver.rs\<close>): one synchronisation pass
  (\<open>sync_once\<close>) with its guards, planning, projection path and load-shed bookkeeping, and the block
  loop of \<open>run_until_shutdown\<close> around it.

  What the node and the database answer during a pass are arguments: the tip, the rows of the chain,
  stored and served block hashes, and the block environment of the window projection.  A pass is a
  relation because the pipelined path is; the two halves around the window projection are functions.
  The interface between the driver and the projection paths is the locale \<open>window_pass\<close>.
\<close>

section \<open>Driver state and the answers of a pass\<close>

record driver_config =
  drv_nexus :: string
  drv_chain :: string
  drv_endpoints :: "string list"
  drv_settings :: worker_config

record 't driver =
  drv_db :: "'t chain_db"
  drv_relief :: relief_state
  node_guard_checked :: bool

record answers =
  tip_answer :: "ingestion_error + nat"
  chain_rows :: "ingestion_error + int list"
  cursor_read :: "ingestion_error + unit"
  hash_read :: "nat \<Rightarrow> ingestion_error + string option"
  node_hash :: "nat \<Rightarrow> ingestion_error + string"

definition resolve_chain_id :: "string \<Rightarrow> ingestion_error + int list \<Rightarrow> ingestion_error + int" where
  "resolve_chain_id chain rows =
     and_then rows (\<lambda>ids.
       case take 2 ids of
         [i] \<Rightarrow> Inr i
       | [] \<Rightarrow> Inl (Db (''chain '' @ debug_str chain @ '' was not found in the database''))
       | matches \<Rightarrow> Inl (Db (''chain '' @ debug_str chain @ '' is ambiguous: found '' @ show_nat (length matches)
                              @ '' matching rows'')))"

definition block_hash_at_height :: "answers \<Rightarrow> nat \<Rightarrow> ingestion_error + string option" where
  "block_hash_at_height ans height =
     (if height < 2 ^ 63 then hash_read ans height
      else Inl (Db (''stored block height '' @ show_nat (2 ^ 63 - 1)
                    @ '' cannot be represented as unsigned block height'')))"

definition guard_node_matches_db ::
    "driver_config \<Rightarrow> answers \<Rightarrow> nat \<Rightarrow> 't driver \<Rightarrow> (ingestion_error + unit) \<times> 't driver" where
  "guard_node_matches_db cfg ans cursor st =
     (if node_guard_checked st \<or> cursor \<le> MAIN_ZERO_STATE_BOUNDARY_HEIGHT then (Inr (), st)
      else case block_hash_at_height ans cursor of
             Inl e \<Rightarrow> (Inl e, st)
           | Inr None \<Rightarrow> (Inr (), st)
           | Inr (Some db_hash) \<Rightarrow>
               (case node_hash ans cursor of
                  Inl e \<Rightarrow> (Inl e, st)
                | Inr served \<Rightarrow>
                    if \<not> eq_ignore_ascii_case db_hash served
                    then (Inl (NodeChainMismatch cursor db_hash served (drv_chain cfg) (drv_nexus cfg)), st)
                    else (Inr (), st\<lparr>node_guard_checked := True\<rparr>)))"

text \<open>The preamble that the pass and the startup probe share: tip, chain, cursor and the guards.\<close>

definition read_position :: "driver_config \<Rightarrow> answers \<Rightarrow> 't driver \<Rightarrow> ingestion_error + nat \<times> nat" where
  "read_position cfg ans st =
     and_then (tip_answer ans) (\<lambda>tip.
     and_then (resolve_chain_id (drv_chain cfg) (chain_rows ans)) (\<lambda>_.
     and_then (cursor_read ans) (\<lambda>_.
     and_then (get_cursor_height (drv_db st)) (\<lambda>cursor.
     and_then (validate_zero_state_scope (drv_chain cfg) (unwrap_or cursor 0)) (\<lambda>_.
       Inr (tip, unwrap_or cursor 0))))))"

definition guarded_position ::
    "driver_config \<Rightarrow> answers \<Rightarrow> 't driver \<Rightarrow> (ingestion_error + nat \<times> nat) \<times> 't driver" where
  "guarded_position cfg ans st =
     (case read_position cfg ans st of
        Inl e \<Rightarrow> (Inl e, st)
      | Inr (tip, cursor) \<Rightarrow>
          (case guard_node_matches_db cfg ans cursor st of
             (Inl e, st') \<Rightarrow> (Inl e, st')
           | (Inr _, st') \<Rightarrow> (Inr (tip, cursor), st')))"

section \<open>The startup probe\<close>

record startup_probe_report =
  probe_nexus :: string
  probe_chain :: string
  probe_endpoints :: "string list"
  probe_mode :: string
  probe_tip :: nat
  probe_cursor :: nat
  next_planned_height :: "nat option"
  probe_batch_size :: nat
  probe_concurrency :: nat
  inter_block_delay_ms :: nat
  batch_delay_ms :: nat

definition duration_millis_u64 :: "nat \<Rightarrow> nat" where
  "duration_millis_u64 millis = min millis (2 ^ 64 - 1)"

definition startup_probe ::
    "driver_config \<Rightarrow> answers \<Rightarrow> 't driver \<Rightarrow> (ingestion_error + startup_probe_report) \<times> 't driver" where
  "startup_probe cfg ans st =
     (case guarded_position cfg ans st of
        (Inl e, st') \<Rightarrow> (Inl e, st')
      | (Inr (tip, cursor), st') \<Rightarrow>
          (map_ok (\<lambda>window.
             \<lparr>probe_nexus = drv_nexus cfg, probe_chain = drv_chain cfg, probe_endpoints = drv_endpoints cfg,
              probe_mode = sync_mode_as_str (sync_mode (drv_settings cfg)), probe_tip = tip,
              probe_cursor = cursor, next_planned_height = map_option from_height window,
              probe_batch_size = effective_fetch_batch_size (drv_settings cfg),
              probe_concurrency = unwrap_or (map_option window_concurrency window)
                (effective_fetch_concurrency (drv_settings cfg)),
              inter_block_delay_ms = duration_millis_u64 (inter_block_delay (drv_settings cfg)),
              batch_delay_ms = duration_millis_u64 (batch_delay (drv_settings cfg))\<rparr>)
             (plan_fetch_window cursor tip (drv_settings cfg) (relief_active (drv_relief st'))), st'))"

section \<open>One synchronisation pass\<close>

record sync_batch_report =
  report_nexus :: string
  report_chain :: string
  report_endpoints :: "string list"
  report_mode :: string
  report_tip :: nat
  cursor_before :: nat
  report_from :: "nat option"
  report_to :: "nat option"
  report_blocks :: nat
  cursor_after :: nat
  report_concurrency :: nat
  report_load_shed :: bool
  report_stalled :: "nat option"

definition idle_report :: "driver_config \<Rightarrow> nat \<Rightarrow> nat \<Rightarrow> bool \<Rightarrow> sync_batch_report" where
  "idle_report cfg tip cursor load_shed =
     \<lparr>report_nexus = drv_nexus cfg, report_chain = drv_chain cfg, report_endpoints = drv_endpoints cfg,
      report_mode = sync_mode_as_str (sync_mode (drv_settings cfg)), report_tip = tip, cursor_before = cursor,
      report_from = None, report_to = None, report_blocks = 0, cursor_after = cursor, report_concurrency = 0,
      report_load_shed = load_shed, report_stalled = None\<rparr>"

record plan =
  plan_tip :: nat
  plan_cursor :: nat
  plan_load_shed :: bool
  plan_window :: fetch_window

text \<open>The first half of the pass, up to the window: it ends the pass (an error, or nothing to fetch) or
  hands a plan to the window projection.\<close>

definition sync_begin ::
    "driver_config \<Rightarrow> answers \<Rightarrow> 't driver \<Rightarrow> ((ingestion_error + sync_batch_report) + plan) \<times> 't driver" where
  "sync_begin cfg ans st =
     (case guarded_position cfg ans st of
        (Inl e, st') \<Rightarrow> (Inl (Inl e), st')
      | (Inr (tip, cursor), st') \<Rightarrow>
          (let load_shed = relief_active (drv_relief st') in
           case plan_fetch_window cursor tip (drv_settings cfg) load_shed of
             Inl e \<Rightarrow> (Inl (Inl e), st')
           | Inr None \<Rightarrow> (Inl (Inr (idle_report cfg tip cursor load_shed)),
                          st'\<lparr>drv_relief := fst (relief_clear (drv_relief st'))\<rparr>)
           | Inr (Some window) \<Rightarrow>
               (Inr \<lparr>plan_tip = tip, plan_cursor = cursor, plan_load_shed = load_shed, plan_window = window\<rparr>, st')))"

definition note_fetch_stall :: "nat \<Rightarrow> 't driver \<Rightarrow> 't driver" where
  "note_fetch_stall height st = st\<lparr>drv_relief := fst (register_stall height (drv_relief st))\<rparr>"

definition note_fetch_progress :: "nat \<Rightarrow> 't driver \<Rightarrow> 't driver" where
  "note_fetch_progress blocks st = st\<lparr>drv_relief := fst (register_progress blocks (drv_relief st))\<rparr>"

text \<open>The second half: account for the outcome and report it.\<close>

definition sync_end ::
    "driver_config \<Rightarrow> plan \<Rightarrow> ingestion_error + window_outcome \<Rightarrow> 't driver \<Rightarrow>
     (ingestion_error + sync_batch_report) \<times> 't driver" where
  "sync_end cfg plan outcome st =
     (case outcome of
        Inl error \<Rightarrow>
          (Inl error, if \<not> is_database_failure error then note_fetch_stall (from_height (plan_window plan)) st else st)
      | Inr outcome \<Rightarrow>
          (Inr \<lparr>report_nexus = drv_nexus cfg, report_chain = drv_chain cfg, report_endpoints = drv_endpoints cfg,
                report_mode = sync_mode_as_str (sync_mode (drv_settings cfg)), report_tip = plan_tip plan,
                cursor_before = plan_cursor plan, report_from = Some (from_height (plan_window plan)),
                report_to = Some (to_height (plan_window plan)), report_blocks = projected_blocks outcome,
                cursor_after = cursor_height_after outcome,
                report_concurrency = (case sync_mode (drv_settings cfg) of
                  Normal_Mode \<Rightarrow> window_concurrency (plan_window plan) | _ \<Rightarrow> 1),
                report_load_shed = plan_load_shed plan, report_stalled = outcome_stalled_height outcome\<rparr>,
           case outcome_stalled_height outcome of
             Some height \<Rightarrow> note_fetch_stall height st
           | None \<Rightarrow> note_fetch_progress (projected_blocks outcome) st))"

text \<open>The projection path of the configured mode.\<close>

definition sequential_pass ::
    "string \<Rightarrow> ('b, 't) node_env \<Rightarrow> fetch_window \<Rightarrow> nat \<Rightarrow> 't chain_db \<Rightarrow>
     ingestion_error + window_outcome \<Rightarrow> 't chain_db \<Rightarrow> bool" where
  "sequential_pass chain env window cursor db r db' \<longleftrightarrow>
     project_window_sequentially chain env window cursor db = (r, db')"

definition pipelined_pass ::
    "worker_config \<Rightarrow> ('b, 't) node_env \<Rightarrow> bool \<Rightarrow> fetch_window \<Rightarrow> nat \<Rightarrow> 't chain_db \<Rightarrow>
     ingestion_error + window_outcome \<Rightarrow> 't chain_db \<Rightarrow> bool" where
  "pipelined_pass settings env panics window cursor db r db' \<longleftrightarrow>
     (\<exists>s. pipe_reachable env panics (pipe_config_of settings window) cursor db (Finished r, s) \<and> db' = pipe_db s)"

definition mode_pass ::
    "driver_config \<Rightarrow> ('b, 't) node_env \<Rightarrow> bool \<Rightarrow> fetch_window \<Rightarrow> nat \<Rightarrow> 't chain_db \<Rightarrow>
     ingestion_error + window_outcome \<Rightarrow> 't chain_db \<Rightarrow> bool" where
  "mode_pass cfg env panics =
     (case sync_mode (drv_settings cfg) of
        Normal_Mode \<Rightarrow> pipelined_pass (drv_settings cfg) env panics
      | _ \<Rightarrow> sequential_pass (drv_chain cfg) env)"

inductive sync_once ::
    "driver_config \<Rightarrow> ('b, 't) node_env \<Rightarrow> bool \<Rightarrow> answers \<Rightarrow> 't driver \<Rightarrow>
     ingestion_error + sync_batch_report \<Rightarrow> 't driver \<Rightarrow> bool"
  for cfg env panics ans where
  ended: "sync_begin cfg ans st = (Inl r, st') \<Longrightarrow> sync_once cfg env panics ans st r st'"
| projected: "sync_begin cfg ans st = (Inr plan, st1) \<Longrightarrow>
    mode_pass cfg env panics (plan_window plan) (plan_cursor plan) (drv_db st1) outcome db' \<Longrightarrow>
    sync_end cfg plan outcome (st1\<lparr>drv_db := db'\<rparr>) = (r, st') \<Longrightarrow>
    sync_once cfg env panics ans st r st'"

inductive_cases sync_onceE: "sync_once cfg env panics ans st r st'"

section \<open>The contract of a projection path\<close>

definition block_commit :: "('b, 't) node_env \<Rightarrow> nat \<Rightarrow> 't chain_db \<Rightarrow> ingestion_error + nat \<times> 't chain_db" where
  "block_commit env height db = and_then (fetch_block env height) (\<lambda>block. write_decoded_block env height block db)"

definition outcome_of :: "nat \<Rightarrow> nat \<Rightarrow> nat option \<Rightarrow> window_outcome" where
  "outcome_of blocks cursor stalled =
     \<lparr>projected_blocks = blocks, cursor_height_after = cursor, outcome_stalled_height = stalled\<rparr>"

text \<open>What the driver may assume of a pass over the window above \<open>cursor\<close>: the blocks up to some
  height \<open>k\<close> are committed in order; either that is the whole window, or the block above \<open>k\<close> fails and
  the result is the stall or the error that the prefix rule prescribes.  A task panic is an error too.\<close>

definition ends_at ::
    "('b, 't) node_env \<Rightarrow> bool \<Rightarrow> nat \<Rightarrow> nat \<Rightarrow> nat \<Rightarrow> ingestion_error + window_outcome \<Rightarrow> nat \<Rightarrow> 't chain_db \<Rightarrow> bool" where
  "ends_at env panics to n cursor r k db' \<longleftrightarrow>
     panics \<and> (\<exists>reason. r = Inl (FetchTask reason))
     \<or> k = to \<and> r = Inr (outcome_of (n + (k - cursor)) k None)
     \<or> k < to \<and> (\<exists>e. block_commit env (k + 1) db' = Inl e
         \<and> r = (if keeps_committed_prefix (n + (k - cursor)) e
                then Inr (outcome_of (n + (k - cursor)) k (Some (k + 1))) else Inl e))"

definition window_contract ::
    "('b, 't) node_env \<Rightarrow> bool \<Rightarrow> fetch_window \<Rightarrow> nat \<Rightarrow> 't chain_db \<Rightarrow>
     ingestion_error + window_outcome \<Rightarrow> 't chain_db \<Rightarrow> bool" where
  "window_contract env panics window cursor db r db' \<longleftrightarrow>
     (\<exists>k. cursor \<le> k \<and> k \<le> to_height window
        \<and> commit_blocks env [cursor + 1..<k + 1] cursor db = Some (k, db')
        \<and> current_height db' = Some (int k) \<and> ends_at env panics (to_height window) 0 cursor r k db')"

definition window_ready :: "string \<Rightarrow> fetch_window \<Rightarrow> nat \<Rightarrow> 't chain_db \<Rightarrow> bool" where
  "window_ready chain window cursor db \<longleftrightarrow>
     from_height window = cursor + 1 \<and> cursor < to_height window \<and> current_height db = Some (int cursor)
     \<and> (chain = ''main'' \<longrightarrow> MAIN_ZERO_STATE_BOUNDARY_HEIGHT \<le> cursor)"

lemma window_ready_guards: "window_ready chain window cursor db \<Longrightarrow> guards_hold chain (cursor + 1) db"
  by (auto simp: window_ready_def guards_hold_def)

locale window_pass =
  fixes chain :: string and env :: "('b, 't) node_env" and panics :: bool
    and pass :: "fetch_window \<Rightarrow> nat \<Rightarrow> 't chain_db \<Rightarrow> ingestion_error + window_outcome \<Rightarrow> 't chain_db \<Rightarrow> bool"
  assumes contract: "node_side_fetches env \<Longrightarrow> window_ready chain window cursor db \<Longrightarrow>
      pass window cursor db r db' \<Longrightarrow> window_contract env panics window cursor db r db'"
    and ends: "window_ready chain window cursor db \<Longrightarrow> \<exists>r db'. pass window cursor db r db'"

lemma project_heights_ends:
  assumes "project_heights chain env [Suc c..<Suc to] n c db = (r, db')" "guards_hold chain (Suc c) db"
    and "current_height db = Some (int c)" "c \<le> to"
  shows "\<exists>k. c \<le> k \<and> k \<le> to \<and> commit_blocks env [Suc c..<Suc k] c db = Some (k, db')
     \<and> current_height db' = Some (int k) \<and> ends_at env False to n c r k db'"
  using assms
proof (induction "to - c" arbitrary: c n db)
  case 0
  then have "c = to" "r = Inr (outcome_of n c None)" "db' = db" by (auto simp: outcome_of_def)
  then show ?case using 0(4) by (intro exI [of _ c]) (auto simp: ends_at_def)
next
  case (Suc d)
  then have lt: "c < to" by auto
  then have upt: "[Suc c..<Suc to] = Suc c # [Suc (Suc c)..<Suc to]" by (simp add: upt_conv_Cons del: upt_Suc)
  have step: "project_raw_block_and_advance_cursor chain env (Suc c) db = block_commit env (Suc c) db"
    unfolding block_commit_def by (rule guarded_project [OF Suc.prems(2)])
  show ?case
  proof (cases "block_commit env (Suc c) db")
    case (Inl e)
    with Suc.prems(1) upt step have "db' = db"
        "r = (if keeps_committed_prefix n e then Inr (outcome_of n c (Some (Suc c))) else Inl e)"
      by (auto simp: outcome_of_def)
    with lt Inl Suc.prems(3) show ?thesis by (intro exI [of _ c]) (auto simp: ends_at_def)
  next
    case (Inr p)
    obtain c1 db1 where p: "p = (c1, db1)" by force
    from Inr p obtain block where b: "fetch_block env (Suc c) = Inr block"
        and w: "write_decoded_block env (Suc c) block db = Inr (c1, db1)" by (auto simp: block_commit_def result_eqs)
    have cur: "current_height db1 = Some (int (Suc c))" "c1 = Suc c"
      using write_cursor [OF w] Suc.prems(3) by (auto simp: max_def nat_add_distrib split: if_splits)
    have g: "guards_hold chain (Suc (Suc c)) db1" by (rule write_guards [OF Suc.prems(2) w]) simp
    have rest: "project_heights chain env [Suc (Suc c)..<Suc to] (n + 1) (Suc c) db1 = (r, db')"
      using Suc.prems(1) upt step Inr p cur(2) by simp
    have d: "d = to - Suc c" "Suc c \<le> to" using Suc.hyps(2) lt by auto
    obtain k where k: "Suc c \<le> k" "k \<le> to" "commit_blocks env [Suc (Suc c)..<Suc k] (Suc c) db1 = Some (k, db')"
        "current_height db' = Some (int k)" "ends_at env False to (n + 1) (Suc c) r k db'"
      using Suc.hyps(1) [OF d(1) rest g cur(1) d(2)] by blast
    have "[Suc c..<Suc k] = Suc c # [Suc (Suc c)..<Suc k]" using k(1) by (simp add: upt_conv_Cons del: upt_Suc)
    then have "commit_blocks env [Suc c..<Suc k] c db = Some (k, db')" using b w cur(2) k(3) by simp
    moreover have "n + 1 + (k - Suc c) = n + (k - c)" using k(1) by simp
    with k(5) have "ends_at env False to n c r k db'" unfolding ends_at_def by (simp only:)
    ultimately show ?thesis using k by (intro exI [of _ k]) auto
  qed
qed

lemma sequential_contract:
  assumes "window_ready chain window cursor db" "sequential_pass chain env window cursor db r db'"
  shows "window_contract env False window cursor db r db'"
proof -
  from assms have "project_heights chain env [Suc cursor..<Suc (to_height window)] 0 cursor db = (r, db')"
    by (simp add: sequential_pass_def project_window_sequentially_def window_heights_def window_ready_def del: upt_Suc)
  from project_heights_ends [OF this] show ?thesis
    using assms(1) window_ready_guards [OF assms(1)] by (auto simp: window_contract_def window_ready_def)
qed

lemma contract_panics: "window_contract env False window cursor db r db' \<Longrightarrow> window_contract env panics window cursor db r db'"
  by (fastforce simp: window_contract_def ends_at_def)

lemma pipelined_contract:
  assumes "node_side_fetches env" "window_ready chain window cursor db"
    and "pipelined_pass settings env panics window cursor db r db'"
  shows "window_contract env panics window cursor db r db'"
proof -
  from assms(3) obtain s where s: "pipe_reachable env panics (pipe_config_of settings window) cursor db (Finished r, s)"
      "db' = pipe_db s" by (auto simp: pipelined_pass_def)
  have w: "from_height window = cursor + 1" "cursor < to_height window" "current_height db = Some (int cursor)"
      "from_height window \<le> to_height window + 1" using assms(2) by (auto simp: window_ready_def)
  let ?cfg = "pipe_config_of settings window"
  have cfg: "cfg_from ?cfg = cursor + 1" "cfg_to ?cfg = to_height window"
    using w(1) by (simp_all add: pipe_config_of_def Let_def)
  from pipe_reachable_inv [OF s(1) pipe_config_ok(1) [OF w(4)]]
  have p: "prefix_inv env ?cfg cursor db s"
    and e: "panics \<and> (\<exists>reason. r = Inl (FetchTask reason)) \<or> serial_end chain env ?cfg s r" using assms(1) by auto
  from p have n: "cursor + 1 \<le> next_to_write s" "next_to_write s \<le> to_height window + 1"
      "pipe_projected s = next_to_write s - (cursor + 1)"
    and commit: "commit_blocks env [cursor + 1..<next_to_write s] cursor db = Some (pipe_cursor s, pipe_db s)"
    by (auto simp: prefix_inv_def cfg)
  have cur: "current_height (pipe_db s) = Some (int (next_to_write s - 1)) \<and> pipe_cursor s = next_to_write s - 1"
    by (rule commit_blocks_cursor [OF commit n(1)]) (simp_all add: w(3))
  show ?thesis
  proof (cases "panics \<and> (\<exists>reason. r = Inl (FetchTask reason))")
    case True
    then have "ends_at env panics (to_height window) 0 cursor r (next_to_write s - 1) db'" by (simp add: ends_at_def)
    moreover have "next_to_write s - 1 + 1 = next_to_write s" using n(1) by simp
    ultimately show ?thesis unfolding window_contract_def using n commit cur s(2)
      by (intro exI [of _ "next_to_write s - 1"]) (simp del: upt_Suc, linarith)
  next
    case False
    with e have se: "serial_end chain env ?cfg s r" by blast
    note g = project_heights_commit [OF commit window_ready_guards [OF assms(2)] n(1,2), of 0]
    have "project_window_sequentially chain env window cursor db = (r, pipe_db s)"
      using g se w(1) n(3)
      by (simp add: project_window_sequentially_def window_heights_def serial_end_def cfg del: upt_Suc)
    then have "sequential_pass chain env window cursor db r db'" by (simp add: sequential_pass_def s(2))
    then show ?thesis by (rule contract_panics [OF sequential_contract [OF assms(2)]])
  qed
qed

text \<open>A pipelined pass has a result: the loop cannot go on for ever.\<close>

lemma pipelined_ends:
  assumes "from_height window \<le> to_height window + 1"
  shows "\<exists>r db'. pipelined_pass settings env panics window cursor db r db'"
proof (rule ccontr)
  assume no: "\<not> ?thesis"
  let ?cfg = "pipe_config_of settings window"
  let ?R = "pipe_reachable env panics ?cfg cursor db"
  have unfinished: "?R (ph, s) \<Longrightarrow> ph \<noteq> Finished r" for ph s r using no by (auto simp: pipelined_pass_def)
  have "\<exists>y. ?R y \<and> pipe_step env panics ?cfg x y" if "?R x" for x
  proof -
    obtain ph s where x: "x = (ph, s)" by force
    from that x unfinished obtain y where "pipe_step env panics ?cfg x y"
      using pipe_progress [of ph env panics ?cfg s] by blast
    with that show ?thesis by (blast intro: pipe_reachable.step)
  qed
  then obtain f where f: "\<And>x. ?R x \<Longrightarrow> ?R (f x) \<and> pipe_step env panics ?cfg x (f x)" by metis
  let ?run = "\<lambda>i. (f ^^ i) (Top_Up, pipe_start ?cfg cursor db)"
  have reach: "?R (?run i)" for i
    by (induction i) (auto intro: pipe_reachable.start simp: f)
  have "pipe_step env panics ?cfg (?run i) (?run (Suc i))" for i using f [OF reach [of i]] by simp
  from no_infinite_pipe [of env panics ?cfg cursor db ?run, OF reach [of 0] this pipe_config_ok [OF assms]] show False .
qed

interpretation sp: window_pass chain env False "sequential_pass chain env" for chain env
proof unfold_locales
qed (use sequential_contract in \<open>auto simp: sequential_pass_def\<close>)

interpretation pp: window_pass chain env panics "pipelined_pass settings env panics" for chain settings env panics
  by unfold_locales (blast intro: pipelined_contract, simp add: window_ready_def pipelined_ends)

lemma mode_contract:
  assumes "node_side_fetches env" "window_ready (drv_chain cfg) window cursor db"
    and "mode_pass cfg env panics window cursor db r db'"
  shows "window_contract env panics window cursor db r db'"
proof (cases "sync_mode (drv_settings cfg) = Normal_Mode")
  case True
  with assms(3) have "pipelined_pass (drv_settings cfg) env panics window cursor db r db'" by (simp add: mode_pass_def)
  then show ?thesis by (rule pp.contract [OF assms(1,2)])
next
  case False
  with assms(3) have "sequential_pass (drv_chain cfg) env window cursor db r db'"
    by (simp add: mode_pass_def split: sync_mode.splits)
  then show ?thesis by (rule contract_panics [OF sp.contract [OF assms(1,2)]])
qed

interpretation mp: window_pass "drv_chain cfg" env panics "mode_pass cfg env panics" for cfg env panics
  by unfold_locales
     (blast intro: mode_contract, simp add: mode_pass_def sp.ends pp.ends split: sync_mode.splits)

section \<open>What a pass does\<close>

text \<open>The stored cursor is a \<open>bigint\<close> and the tip a 64-bit height.\<close>

definition at_cursor :: "nat \<Rightarrow> 't driver \<Rightarrow> bool" where
  "at_cursor c st \<longleftrightarrow> current_height (drv_db st) = Some (int c) \<and> c < 2 ^ 63"

definition tip_in_range :: "answers \<Rightarrow> bool" where
  "tip_in_range ans \<longleftrightarrow> (case tip_answer ans of Inl _ \<Rightarrow> True | Inr tip \<Rightarrow> tip < 2 ^ 64)"

text \<open>The node agrees with the stored chain at the cursor, or the check is not due.\<close>

definition node_matches :: "answers \<Rightarrow> nat \<Rightarrow> 't driver \<Rightarrow> bool" where
  "node_matches ans c st \<longleftrightarrow>
     node_guard_checked st \<or> c \<le> MAIN_ZERO_STATE_BOUNDARY_HEIGHT
     \<or> (case hash_read ans c of
          Inl _ \<Rightarrow> False
        | Inr None \<Rightarrow> True
        | Inr (Some db_hash) \<Rightarrow> (\<exists>served. node_hash ans c = Inr served \<and> eq_ignore_ascii_case db_hash served))"

lemma read_position_at:
  "at_cursor c st \<Longrightarrow> read_position cfg ans st = Inr (tip, cursor) \<longleftrightarrow>
     tip_answer ans = Inr tip \<and> (\<exists>i. resolve_chain_id (drv_chain cfg) (chain_rows ans) = Inr i)
     \<and> cursor_read ans = Inr () \<and> cursor = c
     \<and> (drv_chain cfg = ''main'' \<longrightarrow> MAIN_ZERO_STATE_BOUNDARY_HEIGHT \<le> c)"
  by (auto simp: read_position_def result_eqs at_cursor_def get_cursor_height_def validate_zero_state_scope_def)

lemma guard_frame:
  "guard_node_matches_db cfg ans c st = (r, st') \<Longrightarrow> drv_db st' = drv_db st \<and> drv_relief st' = drv_relief st"
  by (auto simp: guard_node_matches_db_def split: if_splits sum.splits option.splits)

lemma guard_ok_iff:
  "c < 2 ^ 63 \<Longrightarrow> (\<exists>st'. guard_node_matches_db cfg ans c st = (Inr (), st')) \<longleftrightarrow> node_matches ans c st"
  by (auto simp: guard_node_matches_db_def node_matches_def block_hash_at_height_def split: sum.splits option.splits)

lemma guarded_frame:
  "guarded_position cfg ans st = (r, st') \<Longrightarrow> drv_db st' = drv_db st \<and> drv_relief st' = drv_relief st"
  by (auto simp: guarded_position_def split: sum.splits prod.splits dest: guard_frame)

lemma guarded_position_at:
  assumes "at_cursor c st" "guarded_position cfg ans st = (Inr (tip, cursor), st')"
  shows "tip_answer ans = Inr tip" "cursor = c" "node_matches ans c st"
    "drv_chain cfg = ''main'' \<longrightarrow> MAIN_ZERO_STATE_BOUNDARY_HEIGHT \<le> c"
proof -
  from assms(2) have r: "read_position cfg ans st = Inr (tip, cursor)"
    and g: "guard_node_matches_db cfg ans cursor st = (Inr (), st')"
    by (auto simp: guarded_position_def split: sum.splits prod.splits)
  from r show *: "tip_answer ans = Inr tip" "cursor = c"
    "drv_chain cfg = ''main'' \<longrightarrow> MAIN_ZERO_STATE_BOUNDARY_HEIGHT \<le> c" using read_position_at [OF assms(1)] by auto
  show "node_matches ans c st" using g * guard_ok_iff [of c cfg ans st] assms(1) by (auto simp: at_cursor_def)
qed

lemma sync_begin_plan:
  assumes "at_cursor c st" "tip_in_range ans" "sync_begin cfg ans st = (Inr plan, st1)"
  shows "plan_cursor plan = c" "drv_db st1 = drv_db st" "drv_relief st1 = drv_relief st"
    "window_ready (drv_chain cfg) (plan_window plan) c (drv_db st)" "tip_answer ans = Inr (plan_tip plan)"
    "to_height (plan_window plan) \<le> target_tip (drv_settings cfg) (plan_tip plan)" "node_matches ans c st"
    "plan_load_shed plan = relief_active (drv_relief st)"
proof -
  from assms(3) obtain tip cursor window where g: "guarded_position cfg ans st = (Inr (tip, cursor), st1)"
      and w: "plan_fetch_window cursor tip (drv_settings cfg) (relief_active (drv_relief st1)) = Inr (Some window)"
      and plan: "plan = \<lparr>plan_tip = tip, plan_cursor = cursor, plan_load_shed = relief_active (drv_relief st1), plan_window = window\<rparr>"
    by (auto simp: sync_begin_def Let_def split: prod.splits sum.splits option.splits)
  note at = guarded_position_at [OF assms(1) g]
  have frame: "drv_db st1 = drv_db st" "drv_relief st1 = drv_relief st" using guarded_frame [OF g] by simp_all
  have batch: "0 < fetch_batch_size (drv_settings cfg)"
    using w by (auto simp: plan_fetch_window_def split: if_splits)
  have range: "c < 2 ^ 64 - 1" "tip < 2 ^ 64" using assms(1,2) at(1) by (auto simp: at_cursor_def tip_in_range_def)
  note w' = w [unfolded at(2)]
  note pw = plan_window_contract [OF batch range w']
  have "to_height window \<le> target_tip (drv_settings cfg) tip"
    using w' by (auto simp: plan_unfold [OF batch range] Let_def split: if_splits)
  with pw at frame assms(1) plan
  show "plan_cursor plan = c" "drv_db st1 = drv_db st" "drv_relief st1 = drv_relief st"
    "window_ready (drv_chain cfg) (plan_window plan) c (drv_db st)" "tip_answer ans = Inr (plan_tip plan)"
    "to_height (plan_window plan) \<le> target_tip (drv_settings cfg) (plan_tip plan)" "node_matches ans c st"
    "plan_load_shed plan = relief_active (drv_relief st)"
    by (auto simp: window_ready_def at_cursor_def)
qed

lemma sync_begin_ended:
  assumes "at_cursor c st" "tip_in_range ans" "sync_begin cfg ans st = (Inl r, st')"
  shows "drv_db st' = drv_db st"
    "r = Inl e \<Longrightarrow> drv_relief st' = drv_relief st"
    "r = Inr rep \<Longrightarrow> rep = idle_report cfg (report_tip rep) c (relief_active (drv_relief st))
       \<and> tip_answer ans = Inr (report_tip rep) \<and> target_tip (drv_settings cfg) (report_tip rep) \<le> c
       \<and> drv_relief st' = fst (relief_clear (drv_relief st)) \<and> node_matches ans c st"
proof -
  obtain p st1 where g: "guarded_position cfg ans st = (p, st1)" by force
  have frame: "drv_db st1 = drv_db st" "drv_relief st1 = drv_relief st" using guarded_frame [OF g] by simp_all
  from assms(3) g show "drv_db st' = drv_db st"
    using frame by (auto simp: sync_begin_def Let_def split: sum.splits option.splits)
  from assms(3) g show "r = Inl e \<Longrightarrow> drv_relief st' = drv_relief st"
    using frame by (auto simp: sync_begin_def Let_def split: sum.splits option.splits)
  assume r: "r = Inr rep"
  with assms(3) g obtain tip cursor where p: "p = Inr (tip, cursor)"
      and w: "plan_fetch_window cursor tip (drv_settings cfg) (relief_active (drv_relief st1)) = Inr None"
      and rep: "rep = idle_report cfg tip cursor (relief_active (drv_relief st1))"
        "st' = st1\<lparr>drv_relief := fst (relief_clear (drv_relief st1))\<rparr>"
    by (auto simp: sync_begin_def Let_def split: sum.splits option.splits)
  note at = guarded_position_at [OF assms(1) g [unfolded p]]
  have batch: "0 < fetch_batch_size (drv_settings cfg)"
    using w by (auto simp: plan_fetch_window_def split: if_splits)
  have range: "c < 2 ^ 64 - 1" "tip < 2 ^ 64" using assms(1,2) at(1) by (auto simp: at_cursor_def tip_in_range_def)
  have "target_tip (drv_settings cfg) tip \<le> c"
    using w [unfolded at(2)] by (auto simp: plan_unfold [OF batch range] Let_def split: if_splits)
  with at rep frame show "rep = idle_report cfg (report_tip rep) c (relief_active (drv_relief st))
       \<and> tip_answer ans = Inr (report_tip rep) \<and> target_tip (drv_settings cfg) (report_tip rep) \<le> c
       \<and> drv_relief st' = fst (relief_clear (drv_relief st)) \<and> node_matches ans c st"
    by (simp add: idle_report_def)
qed

lemma sync_end_db: "sync_end cfg plan outcome st = (r, st') \<Longrightarrow> drv_db st' = drv_db st"
  by (auto simp: sync_end_def note_fetch_stall_def note_fetch_progress_def split: sum.splits option.splits if_splits)

text \<open>Every pass commits some prefix of the heights above the cursor; how far, and with which result,
  is the contract of the projection path.\<close>

lemma sync_once_commits:
  assumes "sync_once cfg env panics ans st r st'" "at_cursor c st" "tip_in_range ans" "node_side_fetches env"
  obtains (ended) "sync_begin cfg ans st = (Inl r, st')" "drv_db st' = drv_db st"
  | (projected) plan k outcome where
      "tip_answer ans = Inr (plan_tip plan)" "plan_cursor plan = c" "plan_load_shed plan = relief_active (drv_relief st)"
      "from_height (plan_window plan) = c + 1" "c < to_height (plan_window plan)"
      "to_height (plan_window plan) \<le> target_tip (drv_settings cfg) (plan_tip plan)" "node_matches ans c st"
      "drv_chain cfg = ''main'' \<longrightarrow> MAIN_ZERO_STATE_BOUNDARY_HEIGHT \<le> c"
      "c \<le> k" "k \<le> to_height (plan_window plan)"
      "commit_blocks env [c + 1..<k + 1] c (drv_db st) = Some (k, drv_db st')"
      "current_height (drv_db st') = Some (int k)"
      "ends_at env panics (to_height (plan_window plan)) 0 c outcome k (drv_db st')"
      "\<exists>st1. drv_relief st1 = drv_relief st \<and> sync_end cfg plan outcome st1 = (r, st')"
  using assms(1)
proof cases
  case ended
  then show ?thesis using that(1) sync_begin_ended(1) [OF assms(2,3)] by blast
next
  case (projected plan st1 outcome db')
  note b = sync_begin_plan [OF assms(2,3) projected(1)]
  from mp.contract [OF assms(4) b(4)] projected(2) b(1,2)
  have "window_contract env panics (plan_window plan) c (drv_db st) outcome db'" by simp
  moreover have "drv_db st' = db'" using sync_end_db [OF projected(3)] by simp
  moreover have "drv_relief (st1\<lparr>drv_db := db'\<rparr>) = drv_relief st" using b(3) by simp
  ultimately show ?thesis using that(2) [of plan _ outcome] b projected(3)
    unfolding window_contract_def window_ready_def by blast
qed

lemma register_stall_active: "relief_active (fst (register_stall h r))" "stalled_height (fst (register_stall h r)) = h"
  by (simp_all add: register_stall_def Let_def)


definition demo_sync_config :: "sync_mode \<Rightarrow> driver_config" where
  "demo_sync_config mode = \<lparr>drv_nexus = ''testnet'', drv_chain = ''test'', drv_endpoints = [],
     drv_settings = \<lparr>poll_interval = 5000, queue_capacity = 4, fetch_batch_size = 2, fetch_concurrency = 2,
       project_concurrency = 1, sync_mode = mode, inter_block_delay = 0, batch_delay = 0, height_limit = None\<rparr>\<rparr>"

definition demo_answers :: "nat \<Rightarrow> answers" where
  "demo_answers tip = \<lparr>tip_answer = Inr tip, chain_rows = Inr [1], cursor_read = Inr (),
     hash_read = (\<lambda>h. Inr (Some ''AB'')), node_hash = (\<lambda>h. Inr ''ab'')\<rparr>"

definition demo_driver :: "nat \<Rightarrow> nat list driver" where
  "demo_driver cursor = \<lparr>drv_db = \<lparr>current_height = Some (int cursor), db_tables = []\<rparr>,
     drv_relief = relief_default, node_guard_checked = False\<rparr>"

lemmas demo_driver_defs = demo_sync_config_def demo_answers_def demo_driver_def relief_default_def

lemma demo_sequential_window:
  "sync_begin (demo_sync_config Sequential) (demo_answers 2) (demo_driver 0)
     = (Inr \<lparr>plan_tip = 2, plan_cursor = 0, plan_load_shed = False, plan_window = demo_window\<rparr>, demo_driver 0)"
  by (simp add: demo_driver_defs demo_window_def sync_begin_def guarded_position_def read_position_def resolve_chain_id_def
      get_cursor_height_def validate_zero_state_scope_def guard_node_matches_db_def plan_fetch_window_def
      saturating_add_def Let_def)

lemma demo_sequential_pass:
  "sequential_pass ''test'' demo_env demo_window 0 (drv_db (demo_driver 0)) (Inr demo_outcome) (pipe_db demo_end)"
  by (simp add: sequential_pass_def project_window_sequentially_def window_heights_def demo_window_def demo_env_def
      demo_driver_def demo_end_def demo_outcome_def project_raw_block_and_advance_cursor_def get_cursor_height_def
      validate_zero_state_scope_def validate_projected_height_def write_decoded_block_def advance_cursor_def
      block_height_to_i64_def Let_def keeps_committed_prefix_def is_database_failure_def upt_rec)

lemma demo_sync:
  "\<exists>rep st'. sync_once (demo_sync_config Sequential) demo_env False (demo_answers 2) (demo_driver 0) (Inr rep) st'
     \<and> report_blocks rep = 1 \<and> report_stalled rep = Some 2 \<and> current_height (drv_db st') = Some 1"
proof -
  obtain r st' where e: "sync_end (demo_sync_config Sequential)
      \<lparr>plan_tip = 2, plan_cursor = 0, plan_load_shed = False, plan_window = demo_window\<rparr> (Inr demo_outcome)
      (demo_driver 0\<lparr>drv_db := pipe_db demo_end\<rparr>) = (r, st')" by force
  have "mode_pass (demo_sync_config Sequential) demo_env False demo_window 0 (drv_db (demo_driver 0)) (Inr demo_outcome) (pipe_db demo_end)"
    using demo_sequential_pass by (simp add: mode_pass_def demo_sync_config_def)
  with sync_once.projected [OF demo_sequential_window _ e, of demo_env False]
  have "sync_once (demo_sync_config Sequential) demo_env False (demo_answers 2) (demo_driver 0) r st'" by simp
  moreover have "current_height (drv_db st') = Some 1" using sync_end_db [OF e] by (simp add: demo_end_def)
  moreover obtain rep where "r = Inr rep" "report_blocks rep = 1" "report_stalled rep = Some 2"
    using e by (auto simp: sync_end_def demo_outcome_def)
  ultimately show ?thesis by blast
qed

lemma demo_node_side: "node_side_fetches demo_env"
  by (simp add: node_side_fetches_def demo_env_def is_database_failure_def split: if_splits)



text \<open>A node that does not serve the first block.\<close>

definition mute_env :: "(nat, nat list) node_env" where
  "mute_env = \<lparr>fetch_block = (\<lambda>h. Inl (Rpc ''timeout'')), project_block = (\<lambda>h b tables. Inr (tables @ [b]))\<rparr>"

definition stalled_demo :: "nat list driver" where
  "stalled_demo = note_fetch_stall 1 (demo_driver 0)"

lemma mute_pass:
  "sync_once (demo_sync_config Sequential) mute_env False (demo_answers 2) (demo_driver 0) (Inl (Rpc ''timeout'')) stalled_demo"
proof (rule sync_once.projected [OF demo_sequential_window, of mute_env False "Inl (Rpc ''timeout'')" "drv_db (demo_driver 0)"])
  show "mode_pass (demo_sync_config Sequential) mute_env False
      (plan_window \<lparr>plan_tip = 2, plan_cursor = 0, plan_load_shed = False, plan_window = demo_window\<rparr>)
      (plan_cursor \<lparr>plan_tip = 2, plan_cursor = 0, plan_load_shed = False, plan_window = demo_window\<rparr>)
      (drv_db (demo_driver 0)) (Inl (Rpc ''timeout'')) (drv_db (demo_driver 0))"
    by (simp add: mode_pass_def demo_sync_config_def sequential_pass_def project_window_sequentially_def window_heights_def
        demo_window_def mute_env_def demo_driver_def project_raw_block_and_advance_cursor_def get_cursor_height_def
        validate_zero_state_scope_def validate_projected_height_def keeps_committed_prefix_def upt_rec)
qed (simp add: sync_end_def is_database_failure_def stalled_demo_def demo_window_def demo_driver_def)


text \<open>C16.  The guards come before any write.  A pass on a \<open>main\<close> chain whose cursor lies below the
  zero-state boundary, and a pass against a node whose block at the cursor has another hash than the
  stored one, are refused with the corresponding error and change nothing; and whatever a pass writes
  was preceded by these checks and lies above the boundary.\<close>

theorem sync_guards:
  assumes "sync_once cfg env panics ans st r st'" "at_cursor c st" "tip_in_range ans" "node_side_fetches env"
  shows "(tip_answer ans = Inr tip \<and> chain_rows ans = Inr [i] \<and> cursor_read ans = Inr () \<longrightarrow>
      (drv_chain cfg = ''main'' \<and> c < MAIN_ZERO_STATE_BOUNDARY_HEIGHT \<longrightarrow>
         r = Inl (ProtectedZeroStateCursorBelowBoundary ''main'' c MAIN_ZERO_STATE_BOUNDARY_HEIGHT) \<and> st' = st)
      \<and> (MAIN_ZERO_STATE_BOUNDARY_HEIGHT < c \<and> \<not> node_guard_checked st
           \<and> hash_read ans c = Inr (Some stored) \<and> node_hash ans c = Inr served
           \<and> \<not> eq_ignore_ascii_case stored served \<longrightarrow>
         r = Inl (NodeChainMismatch c stored served (drv_chain cfg) (drv_nexus cfg)) \<and> st' = st))
    \<and> (drv_db st' \<noteq> drv_db st \<longrightarrow> node_matches ans c st
         \<and> (drv_chain cfg = ''main'' \<longrightarrow> MAIN_ZERO_STATE_BOUNDARY_HEIGHT < c + 1))"
proof (intro conjI impI)
  assume "tip_answer ans = Inr tip \<and> chain_rows ans = Inr [i] \<and> cursor_read ans = Inr ()"
    "drv_chain cfg = ''main'' \<and> c < MAIN_ZERO_STATE_BOUNDARY_HEIGHT"
  then have "sync_begin cfg ans st = (Inl (Inl (ProtectedZeroStateCursorBelowBoundary ''main'' c MAIN_ZERO_STATE_BOUNDARY_HEIGHT)), st)"
    using assms(2) by (simp add: sync_begin_def guarded_position_def read_position_def resolve_chain_id_def at_cursor_def
        get_cursor_height_def validate_zero_state_scope_def)
  with assms(1) show "r = Inl (ProtectedZeroStateCursorBelowBoundary ''main'' c MAIN_ZERO_STATE_BOUNDARY_HEIGHT)" "st' = st"
    by (auto elim: sync_onceE)
next
  assume "tip_answer ans = Inr tip \<and> chain_rows ans = Inr [i] \<and> cursor_read ans = Inr ()"
    "MAIN_ZERO_STATE_BOUNDARY_HEIGHT < c \<and> \<not> node_guard_checked st \<and> hash_read ans c = Inr (Some stored)
     \<and> node_hash ans c = Inr served \<and> \<not> eq_ignore_ascii_case stored served"
  then have "sync_begin cfg ans st = (Inl (Inl (NodeChainMismatch c stored served (drv_chain cfg) (drv_nexus cfg))), st)"
    using assms(2) by (simp add: sync_begin_def guarded_position_def read_position_def resolve_chain_id_def at_cursor_def
        get_cursor_height_def validate_zero_state_scope_def guard_node_matches_db_def block_hash_at_height_def)
  with assms(1) show "r = Inl (NodeChainMismatch c stored served (drv_chain cfg) (drv_nexus cfg))" "st' = st"
    by (auto elim: sync_onceE)
next
  assume changed: "drv_db st' \<noteq> drv_db st"
  show "node_matches ans c st" using assms changed by (cases rule: sync_once_commits) auto
  show "MAIN_ZERO_STATE_BOUNDARY_HEIGHT < c + 1" if "drv_chain cfg = ''main''"
    using assms changed that by (cases rule: sync_once_commits) auto
qed

definition foreign_answers :: answers where
  "foreign_answers = demo_answers (MAIN_ZERO_STATE_BOUNDARY_HEIGHT + 9)\<lparr>node_hash := (\<lambda>h. Inr ''cd'')\<rparr>"

abbreviation foreign_driver :: "nat list driver" where
  "foreign_driver \<equiv> demo_driver (MAIN_ZERO_STATE_BOUNDARY_HEIGHT + 5)"

lemma sync_once_exists_ended:
  "\<exists>r. fst (sync_begin cfg ans st) = Inl r \<Longrightarrow> \<exists>r st'. sync_once cfg env panics ans st r st'"
  by (metis prod.collapse sync_once.ended)

theorem sync_guards_witness:
  "\<exists>r st'. sync_once (demo_sync_config Sequential) demo_env False foreign_answers foreign_driver r st'
     \<and> r = Inl (NodeChainMismatch (MAIN_ZERO_STATE_BOUNDARY_HEIGHT + 5) ''AB'' ''cd'' ''test'' ''testnet'')
     \<and> st' = foreign_driver"
proof -
  have hash: "\<not> eq_ignore_ascii_case ''AB'' ''cd''" by code_simp
  have "\<exists>r. fst (sync_begin (demo_sync_config Sequential) foreign_answers foreign_driver) = Inl r"
    using hash by (simp add: foreign_answers_def demo_driver_defs sync_begin_def guarded_position_def read_position_def
        resolve_chain_id_def get_cursor_height_def validate_zero_state_scope_def guard_node_matches_db_def
        block_hash_at_height_def nat_add_distrib MAIN_ZERO_STATE_BOUNDARY_HEIGHT_def)
  then obtain r st' where s: "sync_once (demo_sync_config Sequential) demo_env False foreign_answers foreign_driver r st'"
    using sync_once_exists_ended by blast
  have "at_cursor (MAIN_ZERO_STATE_BOUNDARY_HEIGHT + 5) foreign_driver" "tip_in_range foreign_answers"
    by (simp_all add: at_cursor_def tip_in_range_def foreign_answers_def demo_driver_defs MAIN_ZERO_STATE_BOUNDARY_HEIGHT_def)
  from sync_guards [OF s this demo_node_side, of "MAIN_ZERO_STATE_BOUNDARY_HEIGHT + 9" 1 "''AB''" "''cd''"] s hash
  show ?thesis by (auto simp: foreign_answers_def demo_driver_defs)
qed

section \<open>Progress to the tip\<close>

text \<open>A node that serves every height, a database that accepts every block, and answers that agree.\<close>

definition healthy :: "('b, 't) node_env \<Rightarrow> bool" where
  "healthy env \<longleftrightarrow>
     (\<forall>h. \<exists>block. fetch_block env h = Inr block \<and> (\<forall>tables. \<exists>tables'. project_block env h block tables = Inr tables'))"

definition answers_ok :: "answers \<Rightarrow> nat \<Rightarrow> bool" where
  "answers_ok ans tip \<longleftrightarrow>
     tip_answer ans = Inr tip \<and> tip < 2 ^ 64 \<and> (\<exists>i. chain_rows ans = Inr [i]) \<and> cursor_read ans = Inr ()
     \<and> (\<forall>h. hash_read ans h = Inr None
          \<or> (\<exists>stored served. hash_read ans h = Inr (Some stored) \<and> node_hash ans h = Inr served
                \<and> eq_ignore_ascii_case stored served))"

lemma healthy_node_side: "healthy env \<Longrightarrow> node_side_fetches env"
  by (metis Inl_Inr_False healthy_def node_side_fetches_def)

lemma healthy_commit:
  "healthy env \<Longrightarrow> current_height db \<noteq> None \<Longrightarrow> h < 2 ^ 63 \<Longrightarrow> \<exists>x. block_commit env h db = Inr x"
  unfolding healthy_def block_commit_def write_decoded_block_def
  by (drule spec [of _ h]) (auto simp: advance_cursor_def block_height_to_i64_def Let_def dest: spec [of _ "db_tables db"])

lemma answers_position:
  assumes "answers_ok ans tip" "at_cursor c st" "drv_chain cfg = ''main'' \<longrightarrow> MAIN_ZERO_STATE_BOUNDARY_HEIGHT \<le> c"
  obtains st1 where "guarded_position cfg ans st = (Inr (tip, c), st1)"
proof -
  have r: "read_position cfg ans st = Inr (tip, c)"
    using assms by (auto simp: read_position_at [OF assms(2)] answers_ok_def resolve_chain_id_def)
  have "hash_read ans c = Inr None \<or> (\<exists>stored served. hash_read ans c = Inr (Some stored)
      \<and> node_hash ans c = Inr served \<and> eq_ignore_ascii_case stored served)" using assms(1) unfolding answers_ok_def by blast
  then have "node_matches ans c st" by (auto simp: node_matches_def)
  then obtain st1 where "guard_node_matches_db cfg ans c st = (Inr (), st1)"
    using guard_ok_iff [of c cfg ans st] assms(2) by (auto simp: at_cursor_def)
  with r show ?thesis using that by (simp add: guarded_position_def)
qed

text \<open>A pass in that environment succeeds; it commits at least one block or finds the cursor at the target.\<close>

lemma healthy_pass:
  assumes env: "healthy env" "answers_ok ans tip" "0 < fetch_batch_size (drv_settings cfg)"
    and st: "at_cursor c st" "drv_chain cfg = ''main'' \<longrightarrow> MAIN_ZERO_STATE_BOUNDARY_HEIGHT \<le> c"
    and target: "c \<le> target_tip (drv_settings cfg) tip" "target_tip (drv_settings cfg) tip < 2 ^ 63"
    and pass: "sync_once cfg env False ans st r st'"
  shows "\<exists>rep c'. r = Inr rep \<and> at_cursor c' st' \<and> c \<le> c' \<and> c' \<le> target_tip (drv_settings cfg) tip
    \<and> (if c < target_tip (drv_settings cfg) tip then c < c' else \<not> relief_active (drv_relief st'))"
proof -
  let ?target = "target_tip (drv_settings cfg) tip"
  have tip: "tip_in_range ans" "tip_answer ans = Inr tip" "tip < 2 ^ 64" using env(2) by (auto simp: answers_ok_def tip_in_range_def)
  obtain st1 where g: "guarded_position cfg ans st = (Inr (tip, c), st1)" using answers_position [OF env(2) st] by blast
  have range: "c < 2 ^ 64 - 1" using st(1) by (simp add: at_cursor_def)
  note plan = plan_unfold [OF env(3) range tip(3)]
  from pass st(1) tip(1) healthy_node_side [OF env(1)] show ?thesis
  proof (cases rule: sync_once_commits)
    case ended
    have idle: "?target \<le> c \<and> r = Inr (idle_report cfg tip c (relief_active (drv_relief st1)))"
      using ended(1) by (auto simp: sync_begin_def g plan Let_def split: if_splits)
    with sync_begin_ended(3) [OF st(1) tip(1) ended(1)] ended(2) target st(1)
    show ?thesis by (auto simp: relief_clear_def at_cursor_def)
  next
    case (projected plan k outcome)
    have "plan_tip plan = tip" using projected(1) tip(2) by simp
    with projected(6,10) have le: "to_height (plan_window plan) \<le> ?target" "k \<le> ?target" by simp_all
    have "\<exists>x. block_commit env (k + 1) (drv_db st') = Inr x" if "k < to_height (plan_window plan)"
      using healthy_commit [OF env(1), of "drv_db st'" "k + 1"] projected(12) that le target(2) by auto
    then have k: "k = to_height (plan_window plan)" "outcome = Inr (outcome_of (k - c) k None)"
      using projected(10,13) by (auto simp: ends_at_def)
    obtain st2 where e: "sync_end cfg plan outcome st2 = (r, st')" using projected(14) by blast
    then obtain rep where "r = Inr rep" using k(2) by (auto simp: sync_end_def)
    moreover have "at_cursor k st'" using projected(12) le target(2) by (simp add: at_cursor_def)
    ultimately show ?thesis using projected(5) k(1) le by auto
  qed
qed

lemma sync_once_total:
  assumes "answers_ok ans tip" "at_cursor c st" "drv_chain cfg = ''main'' \<longrightarrow> MAIN_ZERO_STATE_BOUNDARY_HEIGHT \<le> c"
  shows "\<exists>r st'. sync_once cfg env panics ans st r st'"
proof (cases "sync_begin cfg ans st")
  case (Pair a st1)
  have tip: "tip_in_range ans" using assms(1) by (auto simp: answers_ok_def tip_in_range_def)
  show ?thesis
  proof (cases a)
    case (Inl r)
    with Pair show ?thesis by (auto intro: sync_once.ended)
  next
    case (Inr plan)
    with Pair have b: "sync_begin cfg ans st = (Inr plan, st1)" by simp
    note p = sync_begin_plan [OF assms(2) tip b]
    from mp.ends [OF p(4), of env panics] p(1,2) obtain outcome db'
      where "mode_pass cfg env panics (plan_window plan) (plan_cursor plan) (drv_db st1) outcome db'" by auto
    moreover obtain r st' where "sync_end cfg plan outcome (st1\<lparr>drv_db := db'\<rparr>) = (r, st')" by force
    ultimately show ?thesis using sync_once.projected [OF b] by blast
  qed
qed

text \<open>The passes of a worker against a node that keeps its tip.\<close>

definition passes_of ::
    "driver_config \<Rightarrow> ('b, 't) node_env \<Rightarrow> (nat \<Rightarrow> answers) \<Rightarrow> 't driver \<Rightarrow> (nat \<Rightarrow> 't driver) \<Rightarrow> bool" where
  "passes_of cfg env ans st run \<longleftrightarrow>
     run 0 = st \<and> (\<forall>n. \<exists>r. sync_once cfg env False (ans n) (run n) r (run (Suc n)))"

lemma healthy_run:
  assumes env: "healthy env" "\<And>n. answers_ok (ans n) tip" "0 < fetch_batch_size (drv_settings cfg)"
    and st: "at_cursor c st" "drv_chain cfg = ''main'' \<longrightarrow> MAIN_ZERO_STATE_BOUNDARY_HEIGHT \<le> c"
    and target: "c \<le> target_tip (drv_settings cfg) tip" "target_tip (drv_settings cfg) tip < 2 ^ 63"
    and run: "passes_of cfg env ans st run"
  shows "\<exists>k. at_cursor k (run n) \<and> min (c + n) (target_tip (drv_settings cfg) tip) \<le> k \<and> k \<le> target_tip (drv_settings cfg) tip"
proof (induction n)
  case 0
  then show ?case using run st(1) target(1) by (auto simp: passes_of_def)
next
  case (Suc n)
  then obtain k where k: "at_cursor k (run n)" "min (c + n) (target_tip (drv_settings cfg) tip) \<le> k"
      "k \<le> target_tip (drv_settings cfg) tip" by blast
  obtain r where r: "sync_once cfg env False (ans n) (run n) r (run (Suc n))" using run unfolding passes_of_def by blast
  have "drv_chain cfg = ''main'' \<longrightarrow> MAIN_ZERO_STATE_BOUNDARY_HEIGHT \<le> k"
    using st(2) k(2) target(1) by auto
  from healthy_pass [OF env(1,2,3) k(1) this k(3) target(2) r] k show ?case by (auto split: if_splits)
qed


definition good_env :: "(nat, nat list) node_env" where
  "good_env = \<lparr>fetch_block = (\<lambda>h. Inr h), project_block = (\<lambda>h b tables. Inr (tables @ [b]))\<rparr>"


end
