(* ===== verification/Worker_Loop.thy ===== *)
theory Worker_Loop
  imports Sync_Driver
begin

text \<open>
  The block loop of the worker (\<open>run_until_shutdown\<close> in \<open>src/crates/ingestion/src/driver.rs\<close>): ticks,
  passes, cancelled passes, waits and shutdown, the failure counter, the pause of near-tip
  maintenance, the published lag and the wake-up of the balance task.

  The worker's life is a step relation.  In each pass the node may answer differently: the environment
  of a pass is any member of a set.  A pass that the shutdown signal cancels leaves some committed prefix.
\<close>

section \<open>After a pass\<close>

definition BALANCE_SYNC_LAG_THRESHOLD :: nat where "BALANCE_SYNC_LAG_THRESHOLD = 50"

record worker_loop =
  consecutive_sync_failures :: nat
  maintenance_paused :: bool
  caught_up_logged :: bool
  published_lag :: nat
  balance_kicked :: bool

definition worker_loop_start :: worker_loop where
  "worker_loop_start = \<lparr>consecutive_sync_failures = 0, maintenance_paused = False, caught_up_logged = False,
     published_lag = 2 ^ 64 - 1, balance_kicked = False\<rparr>"

definition report_lag :: "sync_batch_report \<Rightarrow> nat" where
  "report_lag report = report_tip report - cursor_after report"

text \<open>The wait before the next tick, in seconds.\<close>

definition pass_wait :: "relief_state \<Rightarrow> ingestion_error + sync_batch_report \<Rightarrow> worker_loop \<Rightarrow> nat" where
  "pass_wait relief result l =
     (case result of
        Inr report \<Rightarrow> (case report_stalled report of None \<Rightarrow> 0 | Some _ \<Rightarrow> relief_stall_backoff (stall_count relief))
      | Inl error \<Rightarrow> failed_pass_backoff (saturating_add 32 (consecutive_sync_failures l) 1) (stall_count relief)
                      (is_database_failure error))"

text \<open>A wait ends early when the shutdown signal arrives during it; no wait at all cannot be interrupted.\<close>

definition wait_or_shutdown :: "nat \<Rightarrow> bool \<Rightarrow> bool" where
  "wait_or_shutdown backoff signalled \<longleftrightarrow> backoff \<noteq> 0 \<and> signalled"

text \<open>What the loop does with a result; \<open>signalled\<close> says that the shutdown signal arrives during the wait.
  The flag of the result tells whether the loop goes on.\<close>

definition after_pass ::
    "relief_state \<Rightarrow> ingestion_error + sync_batch_report \<Rightarrow> bool \<Rightarrow> worker_loop \<Rightarrow> worker_loop \<times> bool" where
  "after_pass relief result signalled l =
     (let interrupted = wait_or_shutdown (pass_wait relief result l) signalled in
      case result of
        Inr report \<Rightarrow>
          (let busy = 0 < report_blocks report \<or> cursor_after report < report_tip report;
               l = l\<lparr>caught_up_logged := \<not> busy, consecutive_sync_failures := 0\<rparr>
           in if report_stalled report \<noteq> None \<and> interrupted then (l, False)
              else let lag = report_lag report;
                       l = l\<lparr>published_lag := lag\<rparr>
                   in if lag \<le> BALANCE_SYNC_LAG_THRESHOLD
                      then (l\<lparr>maintenance_paused := False,
                              balance_kicked := balance_kicked l \<or> 0 < report_blocks report\<rparr>, True)
                      else (l\<lparr>maintenance_paused := True\<rparr>, True))
      | Inl error \<Rightarrow>
          (l\<lparr>consecutive_sync_failures := saturating_add 32 (consecutive_sync_failures l) 1\<rparr>, \<not> interrupted))"

section \<open>The life of a worker\<close>

record 't worker =
  wk_driver :: "'t driver"
  wk_loop :: worker_loop
  wk_running :: bool

inductive worker_step ::
    "driver_config \<Rightarrow> ('b, 't) node_env set \<Rightarrow> 't worker \<Rightarrow> 't worker \<Rightarrow> bool"
  for cfg envs where
  shutdown_at_tick: "wk_running w \<Longrightarrow> worker_step cfg envs w (w\<lparr>wk_running := False\<rparr>)"
| pass_done: "wk_running w \<Longrightarrow> env \<in> envs \<Longrightarrow> tip_in_range ans \<Longrightarrow>
    sync_once cfg env panics ans (wk_driver w) r d \<Longrightarrow>
    after_pass (drv_relief d) r signalled (wk_loop w) = (l, go_on) \<Longrightarrow>
    worker_step cfg envs w \<lparr>wk_driver = d, wk_loop = l, wk_running = go_on\<rparr>"
| pass_cancelled: "wk_running w \<Longrightarrow> env \<in> envs \<Longrightarrow> tip_in_range ans \<Longrightarrow>
    sync_begin cfg ans (wk_driver w) = (Inr plan, d) \<Longrightarrow>
    commit_blocks env [from_height (plan_window plan)..<k + 1] (plan_cursor plan) (drv_db d) = Some (k, db) \<Longrightarrow>
    plan_cursor plan \<le> k \<Longrightarrow> k \<le> to_height (plan_window plan) \<Longrightarrow>
    worker_step cfg envs w (w\<lparr>wk_driver := d\<lparr>drv_db := db\<rparr>, wk_running := False\<rparr>)"
| restart: "\<not> wk_running w \<Longrightarrow>
    worker_step cfg envs w \<lparr>wk_driver = \<lparr>drv_db = drv_db (wk_driver w), drv_relief = relief_default,
      node_guard_checked = False\<rparr>, wk_loop = worker_loop_start, wk_running = True\<rparr>"

definition worker_start :: "'t chain_db \<Rightarrow> 't worker" where
  "worker_start db = \<lparr>wk_driver = \<lparr>drv_db = db, drv_relief = relief_default, node_guard_checked = False\<rparr>,
     wk_loop = worker_loop_start, wk_running = True\<rparr>"

inductive worker_reachable ::
    "driver_config \<Rightarrow> ('b, 't) node_env set \<Rightarrow> 't chain_db \<Rightarrow> 't worker \<Rightarrow> bool"
  for cfg envs db where
  start: "worker_reachable cfg envs db (worker_start db)"
| step: "worker_reachable cfg envs db w \<Longrightarrow> worker_step cfg envs w w' \<Longrightarrow> worker_reachable cfg envs db w'"

section \<open>The committed history\<close>

text \<open>The history of the chain in the database: block after block, each with the block that some pass
  fetched for its height.\<close>

inductive committed ::
    "('b, 't) node_env set \<Rightarrow> nat \<Rightarrow> 't chain_db \<Rightarrow> nat \<Rightarrow> 't chain_db \<Rightarrow> bool"
  for envs c db where
  none: "committed envs c db c db"
| block: "committed envs c db k db1 \<Longrightarrow> env \<in> envs \<Longrightarrow> block_commit env (k + 1) db1 = Inr (k + 1, db2) \<Longrightarrow>
    committed envs c db (k + 1) db2"

lemma commit_blocks_committed:
  assumes "commit_blocks env [Suc k..<Suc j] k db1 = Some (j', db2)" "committed envs c db k db1" "env \<in> envs"
    and "current_height db1 = Some (int k)" "k \<le> j"
  shows "j' = j \<and> committed envs c db j db2 \<and> current_height db2 = Some (int j)"
  using assms
proof (induction "j - k" arbitrary: k db1)
  case 0
  then show ?case by simp
next
  case (Suc n)
  then have lt: "k < j" by simp
  then have "[Suc k..<Suc j] = Suc k # [Suc (Suc k)..<Suc j]" by (simp add: upt_conv_Cons del: upt_Suc)
  with Suc.prems(1) obtain b k1 db3 where b: "fetch_block env (Suc k) = Inr b"
      and w: "write_decoded_block env (Suc k) b db1 = Inr (k1, db3)"
      and rest: "commit_blocks env [Suc (Suc k)..<Suc j] k1 db3 = Some (j', db2)"
    by (auto split: sum.splits prod.splits simp del: upt_Suc)
  have k1: "k1 = Suc k" "current_height db3 = Some (int (Suc k))"
    using write_cursor [OF w] Suc.prems(4) by (auto simp: max_def nat_add_distrib split: if_splits)
  have "block_commit env (k + 1) db1 = Inr (k + 1, db3)" using b w k1 by (simp add: block_commit_def)
  from committed.block [OF Suc.prems(2,3) this] have "committed envs c db (Suc k) db3" by simp
  moreover have "n = j - Suc k" "Suc k \<le> j" using Suc.hyps(2) lt by auto
  ultimately show ?case using Suc.hyps(1) [of "Suc k" db3] rest k1 Suc.prems(3) by blast
qed

definition history_inv :: "('b, 't) node_env set \<Rightarrow> nat \<Rightarrow> 't chain_db \<Rightarrow> 't chain_db \<Rightarrow> bool" where
  "history_inv envs c db db' \<longleftrightarrow> (\<exists>k\<ge>c. committed envs c db k db' \<and> current_height db' = Some (int k))"

lemma history_step:
  assumes "history_inv envs c db (drv_db d)" "env \<in> envs" "node_side_fetches env" "tip_in_range ans"
    and "\<forall>k. current_height (drv_db d) = Some (int k) \<longrightarrow> k < 2 ^ 63"
  shows "sync_once cfg env panics ans d r d' \<Longrightarrow> history_inv envs c db (drv_db d')"
    "sync_begin cfg ans d = (Inr plan, d1) \<Longrightarrow>
     commit_blocks env [from_height (plan_window plan)..<k + 1] (plan_cursor plan) (drv_db d1) = Some (k, db2) \<Longrightarrow>
     plan_cursor plan \<le> k \<Longrightarrow> history_inv envs c db db2"
proof -
  from assms(1) obtain j where j: "c \<le> j" "committed envs c db j (drv_db d)" "current_height (drv_db d) = Some (int j)"
    by (auto simp: history_inv_def)
  with assms(5) have at: "at_cursor j d" by (simp add: at_cursor_def)
  show "history_inv envs c db (drv_db d')" if s: "sync_once cfg env panics ans d r d'"
    using s at assms(4,3)
  proof (cases rule: sync_once_commits)
    case ended
    with assms(1) show ?thesis by simp
  next
    case (projected plan k outcome)
    with commit_blocks_committed [of env j k "drv_db d" k "drv_db d'" envs c db] j assms(2)
    show ?thesis by (auto simp: history_inv_def intro!: exI [of _ k])
  qed
  show "history_inv envs c db db2"
    if s: "sync_begin cfg ans d = (Inr plan, d1)" "plan_cursor plan \<le> k"
      "commit_blocks env [from_height (plan_window plan)..<k + 1] (plan_cursor plan) (drv_db d1) = Some (k, db2)"
  proof -
    note p = sync_begin_plan [OF at assms(4) s(1)]
    have "from_height (plan_window plan) = j + 1" using p(4) by (simp add: window_ready_def)
    with s(2,3) p(1,2) commit_blocks_committed [of env j k "drv_db d" k db2 envs c db] j assms(2)
    show ?thesis by (auto simp: history_inv_def intro!: exI [of _ k])
  qed
qed

text \<open>Stored cursors are \<open>bigint\<close>s: no committed height reaches \<open>2 ^ 63\<close>.\<close>

lemma committed_range: "committed envs c db k db' \<Longrightarrow> c < 2 ^ 63 \<Longrightarrow> k < 2 ^ 63"
  by (induction rule: committed.induct)
     (auto simp: block_commit_def write_decoded_block_def advance_cursor_def block_height_to_i64_def result_eqs
       split: if_splits)

lemma worker_history:
  assumes "worker_reachable cfg envs db w" "current_height db = Some (int c)" "c < 2 ^ 63"
    and "\<And>env. env \<in> envs \<Longrightarrow> node_side_fetches env"
  shows "history_inv envs c db (drv_db (wk_driver w))"
  using assms(1)
proof induction
  case start
  then show ?case using assms(2) by (auto simp: worker_start_def history_inv_def intro: committed.none)
next
  case (step w w')
  have range: "\<forall>k. current_height (drv_db (wk_driver w)) = Some (int k) \<longrightarrow> k < 2 ^ 63"
    using step.IH assms(3) by (auto simp: history_inv_def dest: committed_range)
  from step.hyps(2) show ?case
  proof cases
    case (pass_done env ans panics r d signalled l go_on)
    with history_step(1) [OF step.IH _ assms(4) _ range] show ?thesis by auto
  next
    case (pass_cancelled env ans plan d k db')
    with history_step(2) [OF step.IH _ assms(4) _ range] show ?thesis by auto
  qed (use step.IH in simp_all)
qed


lemma worker_one_pass:
  assumes "sync_once cfg env panics ans (wk_driver w) r d" "env \<in> envs" "tip_in_range ans" "wk_running w"
  shows "\<exists>l go_on. worker_step cfg envs w \<lparr>wk_driver = d, wk_loop = l, wk_running = go_on\<rparr>"
proof -
  obtain l go_on where "after_pass (drv_relief d) r False (wk_loop w) = (l, go_on)" by force
  with worker_step.pass_done [OF assms(4,2,3,1)] show ?thesis by blast
qed


section \<open>Waits of the loop\<close>

lemma relief_stall_backoff_range:
  "relief_stall_backoff n \<le> 300" "0 < n \<Longrightarrow> 30 \<le> relief_stall_backoff n"
  by (auto simp: relief_stall_backoff_def RELIEF_STALL_BACKOFF_BASE_def RELIEF_STALL_BACKOFF_MAX_def)

lemma stall_count_positive:
  "stall_count relief < 2 ^ 32 - 1 \<Longrightarrow> 0 < stall_count (fst (register_stall h relief))"
  by (simp add: register_stall_def Let_def wrapping_add_def)

lemma failed_pass_backoff_range:
  "failed_pass_backoff n stalls db \<le> 300" "0 < n \<Longrightarrow> 5 \<le> failed_pass_backoff n stalls db"
  "failed_pass_backoff n stalls True \<le> 30"
  "relief_stall_backoff stalls \<le> failed_pass_backoff n stalls False"
  using relief_stall_backoff_range(1) [of stalls] by (auto simp: failed_pass_backoff_def Let_def)

lemma saturating_add_positive: "0 < saturating_add 32 n 1"
  by (simp add: saturating_add_def)

lemma pass_stall_count:
  assumes "sync_once cfg env panics ans st r st'" "at_cursor c st" "tip_in_range ans" "node_side_fetches env"
    and "stall_count (drv_relief st) < 2 ^ 32 - 1"
    and "case r of Inl e \<Rightarrow> drv_relief st' \<noteq> drv_relief st | Inr rep \<Rightarrow> report_stalled rep \<noteq> None"
  shows "0 < stall_count (drv_relief st')"
  using assms(1-4)
proof (cases rule: sync_once_commits)
  case ended
  with sync_begin_ended(2,3) [OF assms(2,3) ended(1)] assms(6) have False
    by (cases r) (auto simp: idle_report_def dest: arg_cong [of _ _ report_stalled])
  then show ?thesis ..
next
  case (projected plan k outcome)
  then obtain st1 where "drv_relief st1 = drv_relief st" "sync_end cfg plan outcome st1 = (r, st')" by blast
  with assms(5,6) stall_count_positive show ?thesis
    by (auto simp: sync_end_def note_fetch_stall_def note_fetch_progress_def split: sum.splits option.splits if_splits)
qed

text \<open>The wait after a pass: a failed pass waits between 5 seconds and 5 minutes, and never more than 30
  seconds when the database failed; a pass that met a block the node does not serve waits at least 30
  seconds and at most 5 minutes, whether it failed or kept a prefix; a clean pass does not wait.\<close>

theorem worker_waits:
  assumes "sync_once cfg env panics ans st r st'" "at_cursor c st" "tip_in_range ans" "node_side_fetches env"
    and "stall_count (drv_relief st) < 2 ^ 32 - 1"
  shows "case r of
      Inl e \<Rightarrow> 5 \<le> pass_wait (drv_relief st') r l \<and> pass_wait (drv_relief st') r l \<le> 300
        \<and> (is_database_failure e \<longrightarrow> pass_wait (drv_relief st') r l \<le> 30)
        \<and> (\<not> is_database_failure e \<and> drv_relief st' \<noteq> drv_relief st \<longrightarrow> 30 \<le> pass_wait (drv_relief st') r l)
    | Inr rep \<Rightarrow>
        (if report_stalled rep = None then pass_wait (drv_relief st') r l = 0
         else 30 \<le> pass_wait (drv_relief st') r l \<and> pass_wait (drv_relief st') r l \<le> 300)"
proof (cases r)
  case (Inl e)
  let ?n = "saturating_add 32 (consecutive_sync_failures l) 1" and ?s = "stall_count (drv_relief st')"
  have "30 \<le> failed_pass_backoff ?n ?s False" if "drv_relief st' \<noteq> drv_relief st"
    using pass_stall_count [OF assms] Inl that relief_stall_backoff_range(2) [of ?s]
      failed_pass_backoff_range(4) [of ?s ?n] by simp
  then show ?thesis
    using Inl failed_pass_backoff_range(1) [of ?n ?s] failed_pass_backoff_range(2) [OF saturating_add_positive, of _ ?s]
      failed_pass_backoff_range(3) [of ?n ?s]
    by (cases "is_database_failure e") (auto simp: pass_wait_def)
next
  case (Inr rep)
  show ?thesis
  proof (cases "report_stalled rep")
    case None
    with Inr show ?thesis by (simp add: pass_wait_def)
  next
    case (Some h)
    with pass_stall_count [OF assms] Inr have "0 < stall_count (drv_relief st')" by simp
    with Inr Some relief_stall_backoff_range show ?thesis by (simp add: pass_wait_def)
  qed
qed

theorem worker_waits_witness:
  "30 \<le> pass_wait (drv_relief stalled_demo) (Inl (Rpc ''timeout'')) worker_loop_start
   \<and> pass_wait (drv_relief stalled_demo) (Inl (Rpc ''timeout'')) worker_loop_start \<le> 300"
proof -
  have "at_cursor 0 (demo_driver 0)" "tip_in_range (demo_answers 2)" "node_side_fetches mute_env"
      "stall_count (drv_relief (demo_driver 0)) < 2 ^ 32 - 1"
    by (simp_all add: at_cursor_def tip_in_range_def demo_driver_defs node_side_fetches_def mute_env_def is_database_failure_def)
  from worker_waits [OF mute_pass this, of worker_loop_start] show ?thesis
    by (simp add: is_database_failure_def stalled_demo_def note_fetch_stall_def register_stall_def demo_driver_defs
        wrapping_add_def Let_def)
qed

end
