(* ===== verification/Maintenance.thy ===== *)
theory Maintenance
  imports Worker_Loop
begin

text \<open>
  The maintenance tasks of the worker (\<open>spawn_maintenance_tasks\<close> and the \<open>run_*_maintenance\<close> loops of
  \<open>src/crates/ingestion/src/driver.rs\<close>): when a task starts a job and when it ends.

  A loop is driven by its wake-ups.  A wake-up is the shutdown signal, or a tick (or a kick) at which
  the task reads the published lag and the load-shed state; the shutdown signal may arrive while one
  of the jobs of that wake-up runs.  A job's own result, failures included, is only logged.
\<close>

section \<open>Wake-ups and jobs\<close>

datatype job =
    Sync_Dirty_Balances
  | Project_Stake_Snapshots
  | Sync_Token_Supplies
  | Sync_Token_Metadata
  | Sync_Token_Prices
  | Sync_Ttrs_Offchain_Nfts
  | Sync_Contract_Upgrade_Methods
  | Sync_Contract_Rpc_Metadata
  | Sync_Nft_Rpc_Metadata
  | Sync_Series_Rpc_Metadata
  | Sync_Failed_Transaction_Debug_Comments

datatype wake = Shutdown_Signal | Tick nat relief_state "nat option"

text \<open>\<open>pass_or_shutdown\<close> over the jobs of one wake-up: the index of the job that the signal interrupts, if
  any.  The jobs after it are not started and the task returns.\<close>

definition run_jobs :: "job list \<Rightarrow> nat option \<Rightarrow> job list \<times> bool" where
  "run_jobs jobs interrupted =
     (case interrupted of
        Some i \<Rightarrow> if i < length jobs then (take (i + 1) jobs, False) else (jobs, True)
      | None \<Rightarrow> (jobs, True))"

fun lag_gated :: "job list \<Rightarrow> wake \<Rightarrow> job list \<times> bool" where
  "lag_gated jobs Shutdown_Signal = ([], False)"
| "lag_gated jobs (Tick lag relief interrupted) =
     (if BALANCE_SYNC_LAG_THRESHOLD < lag then ([], True) else run_jobs jobs interrupted)"

fun rpc_gated :: "job list \<Rightarrow> wake \<Rightarrow> job list \<times> bool" where
  "rpc_gated jobs Shutdown_Signal = ([], False)"
| "rpc_gated jobs (Tick lag relief interrupted) =
     (if BALANCE_SYNC_LAG_THRESHOLD < lag then ([], True)
      else if rpc_maintenance_paused relief then ([], True)
      else run_jobs jobs interrupted)"

section \<open>The tasks\<close>

definition run_balance_maintenance :: "wake \<Rightarrow> job list \<times> bool" where
  "run_balance_maintenance = rpc_gated [Sync_Dirty_Balances]"

definition run_stake_projection_maintenance :: "wake \<Rightarrow> job list \<times> bool" where
  "run_stake_projection_maintenance = lag_gated [Project_Stake_Snapshots]"

definition run_token_supply_maintenance :: "wake \<Rightarrow> job list \<times> bool" where
  "run_token_supply_maintenance = rpc_gated [Sync_Token_Supplies]"

definition run_token_metadata_maintenance :: "wake \<Rightarrow> job list \<times> bool" where
  "run_token_metadata_maintenance = rpc_gated [Sync_Token_Metadata]"

definition run_token_price_maintenance :: "wake \<Rightarrow> job list \<times> bool" where
  "run_token_price_maintenance = lag_gated [Sync_Token_Prices]"

definition run_ttrs_maintenance :: "wake \<Rightarrow> job list \<times> bool" where
  "run_ttrs_maintenance = lag_gated [Sync_Ttrs_Offchain_Nfts]"

definition run_contract_metadata_maintenance :: "wake \<Rightarrow> job list \<times> bool" where
  "run_contract_metadata_maintenance = rpc_gated [Sync_Contract_Upgrade_Methods, Sync_Contract_Rpc_Metadata]"

definition run_nft_metadata_maintenance :: "wake \<Rightarrow> job list \<times> bool" where
  "run_nft_metadata_maintenance = rpc_gated [Sync_Nft_Rpc_Metadata]"

definition run_series_metadata_maintenance :: "wake \<Rightarrow> job list \<times> bool" where
  "run_series_metadata_maintenance = rpc_gated [Sync_Series_Rpc_Metadata]"

definition run_failed_tx_maintenance :: "wake \<Rightarrow> job list \<times> bool" where
  "run_failed_tx_maintenance = rpc_gated [Sync_Failed_Transaction_Debug_Comments]"

definition spawn_maintenance_tasks :: "(wake \<Rightarrow> job list \<times> bool) list" where
  "spawn_maintenance_tasks =
     [run_balance_maintenance, run_stake_projection_maintenance, run_token_supply_maintenance,
      run_token_metadata_maintenance, run_token_price_maintenance, run_ttrs_maintenance,
      run_contract_metadata_maintenance, run_nft_metadata_maintenance, run_series_metadata_maintenance,
      run_failed_tx_maintenance]"

text \<open>The loop of a task over its wake-ups: the jobs it starts, each with its wake-up, and whether it
  still runs.\<close>

fun task_loop :: "(wake \<Rightarrow> job list \<times> bool) \<Rightarrow> wake list \<Rightarrow> (job \<times> wake) list \<times> bool" where
  "task_loop task [] = ([], True)"
| "task_loop task (w # ws) =
     (case task w of
        (jobs, False) \<Rightarrow> (map (\<lambda>j. (j, w)) jobs, False)
      | (jobs, True) \<Rightarrow> (let (rest, running) = task_loop task ws in (map (\<lambda>j. (j, w)) jobs @ rest, running)))"

lemmas task_defs =
  run_balance_maintenance_def run_stake_projection_maintenance_def run_token_supply_maintenance_def
  run_token_metadata_maintenance_def run_token_price_maintenance_def run_ttrs_maintenance_def
  run_contract_metadata_maintenance_def run_nft_metadata_maintenance_def run_series_metadata_maintenance_def
  run_failed_tx_maintenance_def

section \<open>Gating\<close>

text \<open>The jobs that ask the node itself for data.\<close>

definition asks_node :: "job \<Rightarrow> bool" where
  "asks_node j \<longleftrightarrow> j \<notin> {Project_Stake_Snapshots, Sync_Token_Prices, Sync_Ttrs_Offchain_Nfts}"

text \<open>What every task owes the block loop, as an interface: a job starts only near the tip, one that asks
  the node only while load is not being shed, and the shutdown signal ends the task at once.\<close>

definition may_start :: "job \<Rightarrow> wake \<Rightarrow> bool" where
  "may_start j w \<longleftrightarrow> (case w of
       Shutdown_Signal \<Rightarrow> False
     | Tick lag relief interrupted \<Rightarrow> lag \<le> BALANCE_SYNC_LAG_THRESHOLD \<and> (asks_node j \<longrightarrow> \<not> relief_active relief))"

locale maintenance_task =
  fixes task :: "wake \<Rightarrow> job list \<times> bool"
  assumes gated: "j \<in> set (fst (task w)) \<Longrightarrow> may_start j w"
    and stops: "\<not> snd (task Shutdown_Signal)"
    and goes_on: "\<not> snd (task (Tick lag relief None)) \<Longrightarrow> False"
begin

lemma loop_gated: "(j, w) \<in> set (fst (task_loop task ws)) \<Longrightarrow> may_start j w \<and> w \<in> set ws"
  by (induction ws) (auto split: prod.splits bool.splits intro: gated dest: gated [of _ w])

lemma no_job_after_shutdown: "task_loop task (ws @ Shutdown_Signal # ws') = task_loop task (ws @ [Shutdown_Signal])"
  using stops by (induction ws) (auto split: prod.splits bool.splits)

lemma loop_runs:
  "\<forall>w\<in>set ws. \<exists>lag relief. w = Tick lag relief None \<Longrightarrow>
   snd (task_loop task ws) \<and> fst (task_loop task ws) = concat (map (\<lambda>w. map (\<lambda>j. (j, w)) (fst (task w))) ws)"
proof (induction ws)
  case (Cons w ws)
  then obtain lag relief where "w = Tick lag relief None" by auto
  then have "snd (task w)" using goes_on by blast
  with Cons show ?case by (auto split: prod.splits bool.splits)
qed simp

end

lemma set_run_jobs: "j \<in> set (fst (run_jobs jobs i)) \<Longrightarrow> j \<in> set jobs"
  by (auto simp: run_jobs_def split: option.splits if_splits dest: in_set_takeD)

lemma lag_gated_task:
  assumes "\<forall>j\<in>set jobs. \<not> asks_node j"
  shows "maintenance_task (lag_gated jobs)"
proof
  fix j w
  assume "j \<in> set (fst (lag_gated jobs w))"
  with assms set_run_jobs [of j jobs] show "may_start j w" by (cases w) (auto simp: may_start_def split: if_splits)
qed (auto simp: run_jobs_def split: if_splits)

lemma rpc_gated_task: "maintenance_task (rpc_gated jobs)"
proof
  fix j w
  assume "j \<in> set (fst (rpc_gated jobs w))"
  then show "may_start j w" by (cases w) (auto simp: may_start_def rpc_maintenance_paused_def split: if_splits)
qed (auto simp: run_jobs_def split: if_splits)

interpretation balance_task: maintenance_task run_balance_maintenance
  unfolding task_defs by (rule rpc_gated_task)

interpretation stake_task: maintenance_task run_stake_projection_maintenance
  unfolding task_defs by (rule lag_gated_task) (simp add: asks_node_def)

interpretation contract_task: maintenance_task run_contract_metadata_maintenance
  unfolding task_defs by (rule rpc_gated_task)

lemma spawned_tasks: "task \<in> set spawn_maintenance_tasks \<Longrightarrow> maintenance_task task"
  unfolding spawn_maintenance_tasks_def
  by (auto simp: task_defs asks_node_def intro: rpc_gated_task lag_gated_task)



end
