(* ===== verification/Json.thy ===== *)
theory Json
  imports Prelude "HOL-Library.Char_ord" "HOL-Library.List_Lexorder"
begin

text \<open>
  JSON values as \<open>serde_json::Value\<close> has them.  An object is the sorted association list of its
  \<open>BTreeMap\<close>: keys ascending in byte order, each once.  A number is its printed text.
\<close>

section \<open>Sorted maps\<close>

type_synonym 'v str_map = "(string \<times> 'v) list"

fun map_insert :: "string \<Rightarrow> 'v \<Rightarrow> 'v str_map \<Rightarrow> 'v str_map" where
  "map_insert k v [] = [(k, v)]"
| "map_insert k v ((k', v') # m) =
     (if k < k' then (k, v) # (k', v') # m
      else if k = k' then (k, v) # m
      else (k', v') # map_insert k v m)"

definition map_remove :: "string \<Rightarrow> 'v str_map \<Rightarrow> 'v str_map" where
  "map_remove k m = filter (\<lambda>e. fst e \<noteq> k) m"

definition map_collect :: "(string \<times> 'v) list \<Rightarrow> 'v str_map" where
  "map_collect entries = fold (\<lambda>(k, v). map_insert k v) entries []"

definition sorted_map :: "'v str_map \<Rightarrow> bool" where
  "sorted_map m \<longleftrightarrow> sorted_wrt (<) (map fst m)"

lemma set_map_insert_keys: "set (map fst (map_insert k v m)) = insert k (set (map fst m))"
proof (induction m)
  case (Cons e m)
  then show ?case by (cases e) (simp add: insert_commute)
qed simp

lemma sorted_map_Nil [simp]: "sorted_map []"
  by (simp add: sorted_map_def)

lemma sorted_map_insert [simp]: "sorted_map m \<Longrightarrow> sorted_map (map_insert k v m)"
proof (induction m)
  case (Cons e m)
  obtain k' v' where e: "e = (k', v')" by force
  have less: "\<forall>x\<in>set (map fst m). k' < x" and m: "sorted_map m" using Cons.prems by (auto simp: sorted_map_def e)
  show ?case
  proof (cases "k < k' \<or> k = k'")
    case True
    with less m show ?thesis by (auto simp: sorted_map_def e)
  next
    case False
    then have "k' < k" by auto
    moreover have "sorted_map (map_insert k v m)" by (rule Cons.IH [OF m])
    moreover have "\<forall>x\<in>set (map fst (map_insert k v m)). k' < x"
      unfolding set_map_insert_keys using less \<open>k' < k\<close> by blast
    ultimately show ?thesis using False by (auto simp: sorted_map_def e)
  qed
qed (simp add: sorted_map_def)

lemma sorted_map_remove [simp]: "sorted_map m \<Longrightarrow> sorted_map (map_remove k m)"
  by (simp add: sorted_map_def map_remove_def sorted_wrt_map sorted_wrt_filter)

lemma map_of_insert: "map_of (map_insert k v m) x = (if x = k then Some v else map_of m x)"
proof (induction m)
  case (Cons e m)
  then show ?case by (cases e) auto
qed simp

lemma map_of_remove: "map_of (map_remove k m) x = (if x = k then None else map_of m x)"
  by (induction m) (auto simp: map_remove_def)

lemma sorted_map_distinct: "sorted_map m \<Longrightarrow> distinct (map fst m)"
  unfolding sorted_map_def by (simp add: strict_sorted_iff)

lemma sorted_map_collect_aux: "sorted_map m \<Longrightarrow> sorted_map (fold (\<lambda>(k, v). map_insert k v) entries m)"
  by (induction entries arbitrary: m) auto

lemma sorted_map_collect [simp]: "sorted_map (map_collect entries)"
  by (simp add: map_collect_def sorted_map_collect_aux)

section \<open>Values\<close>

datatype json =
    JNull
  | JBool bool
  | JNumber string
  | JString string
  | JArray "json list"
  | JObject "(string \<times> json) list"

abbreviation json_object :: "(string \<times> json) list \<Rightarrow> json" where
  "json_object entries \<equiv> JObject (map_collect entries)"

text \<open>\<open>Value::get\<close> with a key, and assignment through \<open>value[key]\<close>; the latter panics on other values,
  which its callers never have.\<close>

fun json_get :: "string \<Rightarrow> json \<Rightarrow> json option" where
  "json_get k (JObject m) = map_of m k"
| "json_get k _ = None"

fun json_set :: "string \<Rightarrow> json \<Rightarrow> json \<Rightarrow> json" where
  "json_set k v (JObject m) = JObject (map_insert k v m)"
| "json_set k v JNull = JObject [(k, v)]"
| "json_set k v j = j"

fun json_as_str :: "json \<Rightarrow> string option" where
  "json_as_str (JString s) = Some s"
| "json_as_str _ = None"

fun json_keys :: "json \<Rightarrow> string list" where
  "json_keys (JObject m) = map fst m"
| "json_keys _ = []"

end
