(* ===== verification/Sdk_Metadata.thy ===== *)
theory Sdk_Metadata
  imports Json Load_Shed "HOL-Library.Multiset"
begin

text \<open>
  Mapping of the node's account, token, NFT and series answers to database rows
  (\<open>src/crates/ingestion/src/lib.rs\<close>): trimming, clamping, image addresses and the metadata objects.

  The answer types belong to the Phantasma SDK; their records here have the fields that the source
  reads.  The serialisation of a whole answer (\<open>serde_json::to_value\<close>) is an argument.
\<close>

section \<open>Text helpers\<close>

definition non_empty_string :: "string \<Rightarrow> string option" where
  "non_empty_string v = (let trimmed = trim v in if trimmed = [] then None else Some trimmed)"

definition normalized_amount_raw :: "string \<Rightarrow> string" where
  "normalized_amount_raw v = unwrap_or (non_empty_string v) ''0''"

definition parse_u64_clamped :: "nat \<Rightarrow> string \<Rightarrow> int option" where
  "parse_u64_clamped bits v =
     (case parse_u64 v of Inl _ \<Rightarrow> None | Inr n \<Rightarrow> Some (min n (2 ^ (bits - 1) - 1)))"

definition parse_i32_clamped :: "string \<Rightarrow> int option" where
  "parse_i32_clamped v = Option.bind (non_empty_string v) (parse_u64_clamped 32)"

definition parse_i64_clamped :: "string \<Rightarrow> int option" where
  "parse_i64_clamped v = Option.bind (non_empty_string v) (parse_u64_clamped 64)"

definition parse_boolish :: "string \<Rightarrow> bool option" where
  "parse_boolish v =
     (case non_empty_string v of
        None \<Rightarrow> None
      | Some v \<Rightarrow>
          if eq_ignore_ascii_case v ''true'' \<or> v = ''1'' then Some True
          else if eq_ignore_ascii_case v ''false'' \<or> v = ''0'' then Some False
          else None)"

definition normalize_series_mode :: "string option \<Rightarrow> string option" where
  "normalize_series_mode v =
     (case Option.bind v non_empty_string of
        None \<Rightarrow> None
      | Some v \<Rightarrow> if v = ''0'' then Some ''Unique'' else if v = ''1'' then Some ''Duplicated'' else Some v)"

text \<open>A text slice that does not end on a character boundary is \<open>None\<close>: in UTF-8, when the byte after it
  continues a character.\<close>

definition char_boundary :: "nat \<Rightarrow> string \<Rightarrow> bool" where
  "char_boundary i s \<longleftrightarrow> i = length s \<or> i < length s \<and> \<not> (128 \<le> code (s ! i) \<and> code (s ! i) < 192)"

definition get_prefix :: "nat \<Rightarrow> string \<Rightarrow> string option" where
  "get_prefix i s = (if char_boundary i s then Some (take i s) else None)"

definition normalize_rpc_image_url :: "string option \<Rightarrow> string option" where
  "normalize_rpc_image_url url =
     (case Option.bind url non_empty_string of
        None \<Rightarrow> None
      | Some trimmed \<Rightarrow>
          if (case get_prefix 5 trimmed of None \<Rightarrow> False | Some p \<Rightarrow> eq_ignore_ascii_case p ''data:'')
             \<or> sublist ''://'' trimmed
          then Some trimmed
          else if prefix ''//'' trimmed then Some (''https:'' @ trimmed)
          else Some (''https://'' @ trimmed))"

section \<open>Metadata objects\<close>

datatype vm_value = Text string | Items "vm_value list" | Fields "(string \<times> vm_value) list"

fun as_text :: "vm_value \<Rightarrow> string option" where
  "as_text (Text t) = Some t"
| "as_text _ = None"

primrec vm_value_to_json :: "vm_value \<Rightarrow> json" where
  "vm_value_to_json (Text t) = JString t"
| "vm_value_to_json (Items items) = JArray (map vm_value_to_json items)"
| "vm_value_to_json (Fields fs) = json_object (map (map_prod id vm_value_to_json) fs)"

record token_property =
  prop_key :: string
  prop_value :: vm_value

definition insert_metadata_value :: "string \<Rightarrow> json \<Rightarrow> json str_map \<Rightarrow> json str_map" where
  "insert_metadata_value key v metadata =
     (case non_empty_string key of
        None \<Rightarrow> metadata
      | Some key \<Rightarrow>
          (let metadata = (case find (\<lambda>existing. eq_ignore_ascii_case existing key) (map fst metadata) of
                             Some existing \<Rightarrow> map_remove existing metadata
                           | None \<Rightarrow> metadata)
           in map_insert key v metadata))"

definition insert_metadata_string :: "string \<Rightarrow> string option \<Rightarrow> json str_map \<Rightarrow> json str_map" where
  "insert_metadata_string key v metadata =
     (case Option.bind v non_empty_string of
        None \<Rightarrow> metadata
      | Some v \<Rightarrow> insert_metadata_value key (JString v) metadata)"

definition add_property :: "token_property \<Rightarrow> json str_map \<Rightarrow> json str_map" where
  "add_property p metadata =
     (if as_text (prop_value p) = Some [] then metadata
      else insert_metadata_value (prop_key p) (vm_value_to_json (prop_value p)) metadata)"

definition token_properties_to_metadata :: "token_property list \<Rightarrow> json str_map" where
  "token_properties_to_metadata properties = fold add_property properties []"

definition token_property_value :: "token_property list \<Rightarrow> string \<Rightarrow> string option" where
  "token_property_value properties key =
     Option.bind (Option.bind (find (\<lambda>p. eq_ignore_ascii_case (prop_key p) key) properties)
       (\<lambda>p. as_text (prop_value p))) non_empty_string"

section \<open>Accounts and tokens\<close>

record sdk_stake =
  stake_amount :: string
  stake_unclaimed :: string
  stake_time :: int

record sdk_account_info =
  account_address :: string
  account_name :: string
  account_stake :: sdk_stake

record sdk_balance =
  balance_symbol :: string
  balance_amount :: string

record fetched_balance_account =
  account_info :: sdk_account_info
  account_balances :: "sdk_balance list"

record address_account_upsert =
  up_address_id :: int
  up_address_name :: "string option"
  up_name_last_updated :: int
  up_stake_timestamp :: int
  up_staked_amount_raw :: string
  up_unclaimed_amount_raw :: string
  up_soul_balance_raw :: string
  up_balances :: "(string \<times> string) list"

definition account_info_to_upsert :: "int \<Rightarrow> fetched_balance_account \<Rightarrow> int \<Rightarrow> address_account_upsert" where
  "account_info_to_upsert address_id account now =
     \<lparr>up_address_id = address_id,
      up_address_name = filter_option (\<lambda>name. \<not> eq_ignore_ascii_case name ''anonymous'')
        (non_empty_string (account_name (account_info account))),
      up_name_last_updated = now,
      up_stake_timestamp = (let t = stake_time (account_stake (account_info account))
        in if - (2 ^ 63) \<le> t \<and> t < 2 ^ 63 then t else 2 ^ 63 - 1),
      up_staked_amount_raw = normalized_amount_raw (stake_amount (account_stake (account_info account))),
      up_unclaimed_amount_raw = normalized_amount_raw (stake_unclaimed (account_stake (account_info account))),
      up_soul_balance_raw = unwrap_or (map_option (\<lambda>b. normalized_amount_raw (balance_amount b))
        (find (\<lambda>b. balance_symbol b = ''SOUL'') (account_balances account))) ''0'',
      up_balances = List.map_filter (\<lambda>b. map_option (\<lambda>symbol. (symbol, normalized_amount_raw (balance_amount b)))
        (non_empty_string (balance_symbol b))) (account_balances account)\<rparr>"

record sdk_token =
  token_symbol :: string
  token_carbon_id :: string
  token_current_supply :: string
  token_max_supply :: string
  token_burned_supply :: string
  token_metadata :: "token_property list option"

record token_supply_upsert =
  ts_symbol :: string
  ts_carbon_id :: "int option"
  ts_current_supply_raw :: string
  ts_max_supply_raw :: string
  ts_burned_supply_raw :: string

text \<open>The Carbon id column is a signed 64-bit integer.\<close>

definition token_result_to_supply_upsert :: "sdk_token \<Rightarrow> token_supply_upsert" where
  "token_result_to_supply_upsert token =
     \<lparr>ts_symbol = token_symbol token,
      ts_carbon_id = Option.bind (non_empty_string (token_carbon_id token))
        (\<lambda>v. case parse_i64 v of Inl _ \<Rightarrow> None | Inr i \<Rightarrow> Some i),
      ts_current_supply_raw = normalized_amount_raw (token_current_supply token),
      ts_max_supply_raw = normalized_amount_raw (token_max_supply token),
      ts_burned_supply_raw = normalized_amount_raw (token_burned_supply token)\<rparr>"

definition token_result_to_metadata_upsert :: "sdk_token \<Rightarrow> (string \<times> json) option" where
  "token_result_to_metadata_upsert token =
     Option.bind (non_empty_string (token_symbol token)) (\<lambda>symbol.
       map_option (\<lambda>properties. (symbol, JObject (token_properties_to_metadata properties))) (token_metadata token))"

section \<open>Contracts\<close>

text \<open>The methods of a contract answer are kept as the JSON value their serialisation gives, if any.\<close>

record sdk_contract =
  contract_address :: string
  contract_script :: string
  contract_methods :: "json option"

record contract_rpc_metadata_upsert =
  cm_contract_id :: int
  cm_address :: "string option"
  cm_script_raw :: "string option"
  cm_methods :: "json option"
  cm_insert_current_method :: bool
  cm_last_updated :: int

definition contract_result_to_rpc_metadata_upsert ::
    "int \<Rightarrow> sdk_contract \<Rightarrow> bool \<Rightarrow> int \<Rightarrow> contract_rpc_metadata_upsert" where
  "contract_result_to_rpc_metadata_upsert contract_id contract insert_current_method now =
     \<lparr>cm_contract_id = contract_id, cm_address = non_empty_string (contract_address contract),
      cm_script_raw = non_empty_string (contract_script contract), cm_methods = contract_methods contract,
      cm_insert_current_method = insert_current_method, cm_last_updated = now\<rparr>"

definition contract_result_to_upgrade_method_upsert ::
    "int \<Rightarrow> sdk_contract \<Rightarrow> int \<Rightarrow> (int \<times> json \<times> int) option" where
  "contract_result_to_upgrade_method_upsert contract_id contract timestamp =
     map_option (\<lambda>methods. (contract_id, methods, timestamp)) (contract_methods contract)"

section \<open>NFTs\<close>

record sdk_nft =
  nft_id :: string
  nft_series :: string
  nft_creator_address :: string
  nft_mint :: string
  nft_rom :: string
  nft_ram :: string
  nft_status :: string
  nft_carbon_token_id :: string
  nft_carbon_series_id :: string
  nft_carbon_nft_address :: string
  nft_properties :: "token_property list"

record nft_metadata_upsert =
  nu_symbol :: string
  nu_token_id :: string
  nu_series_id :: "string option"
  nu_creator_address :: "string option"
  nu_mint_number :: "int option"
  nu_mint_date :: "int option"
  nu_rom :: "string option"
  nu_ram :: "string option"
  nu_name :: "string option"
  nu_description :: "string option"
  nu_image :: "string option"
  nu_info_url :: "string option"
  nu_metadata :: json
  nu_chain_api_response :: json

text \<open>A run of \<open>insert_metadata_string\<close> calls, first call first.\<close>

definition insert_metadata_strings :: "(string \<times> string option) list \<Rightarrow> json str_map \<Rightarrow> json str_map" where
  "insert_metadata_strings entries = fold (\<lambda>(key, v). insert_metadata_string key v) entries"

definition nft_mint_date :: "sdk_nft \<Rightarrow> string option" where
  "nft_mint_date nft = or_else (token_property_value (nft_properties nft) ''mint_date'')
     (token_property_value (nft_properties nft) ''created'')"

definition nft_image :: "sdk_nft \<Rightarrow> string option" where
  "nft_image nft = normalize_rpc_image_url (token_property_value (nft_properties nft) ''imageURL'')"

definition nft_metadata_entries :: "string \<Rightarrow> sdk_nft \<Rightarrow> (string \<times> string option) list" where
  "nft_metadata_entries token_id nft =
     [(''token_id'', Some token_id),
      (''creatorAddress'', non_empty_string (nft_creator_address nft)),
      (''series'', non_empty_string (nft_series nft)),
      (''rom'', non_empty_string (nft_rom nft)),
      (''ram'', non_empty_string (nft_ram nft)),
      (''mint'', non_empty_string (nft_mint nft)),
      (''mint_date'', nft_mint_date nft),
      (''name'', token_property_value (nft_properties nft) ''name''),
      (''description'', token_property_value (nft_properties nft) ''description''),
      (''imageURL'', nft_image nft),
      (''infoURL'', token_property_value (nft_properties nft) ''infoURL''),
      (''status'', non_empty_string (nft_status nft)),
      (''carbonTokenId'', non_empty_string (nft_carbon_token_id nft)),
      (''carbonSeriesId'', non_empty_string (nft_carbon_series_id nft)),
      (''carbonNftAddress'', non_empty_string (nft_carbon_nft_address nft))]"

definition nft_result_to_metadata_upsert ::
    "(sdk_nft \<Rightarrow> json option) \<Rightarrow> string \<Rightarrow> sdk_nft \<Rightarrow> nft_metadata_upsert option" where
  "nft_result_to_metadata_upsert to_value symbol nft =
     map_option (\<lambda>token_id.
       \<lparr>nu_symbol = symbol, nu_token_id = token_id, nu_series_id = non_empty_string (nft_series nft),
        nu_creator_address = non_empty_string (nft_creator_address nft),
        nu_mint_number = Option.bind (non_empty_string (nft_mint nft)) (parse_u64_clamped 32),
        nu_mint_date = Option.bind (nft_mint_date nft) parse_i64_clamped,
        nu_rom = non_empty_string (nft_rom nft), nu_ram = non_empty_string (nft_ram nft),
        nu_name = token_property_value (nft_properties nft) ''name'',
        nu_description = token_property_value (nft_properties nft) ''description'',
        nu_image = nft_image nft, nu_info_url = token_property_value (nft_properties nft) ''infoURL'',
        nu_metadata = JObject (insert_metadata_strings (nft_metadata_entries token_id nft)
          (token_properties_to_metadata (nft_properties nft))),
        nu_chain_api_response = unwrap_or (to_value nft) JNull\<rparr>) (non_empty_string (nft_id nft))"

text \<open>The negative-cache row of an NFT that permanently fails to resolve.\<close>

definition nft_error_to_metadata_upsert :: "string \<Rightarrow> string \<Rightarrow> string \<Rightarrow> nft_metadata_upsert" where
  "nft_error_to_metadata_upsert symbol token_id error =
     \<lparr>nu_symbol = symbol, nu_token_id = token_id, nu_series_id = None, nu_creator_address = None,
      nu_mint_number = None, nu_mint_date = None, nu_rom = None, nu_ram = None, nu_name = None,
      nu_description = None, nu_image = None, nu_info_url = None, nu_metadata = JObject [],
      nu_chain_api_response = json_object [(''error'', JString error), (''method'', JString ''getNFT''),
        (''symbol'', JString symbol), (''tokenId'', JString token_id)]\<rparr>"

definition record_nft_metadata_fetch_failure ::
    "bool \<Rightarrow> string \<Rightarrow> string \<Rightarrow> string \<Rightarrow> nft_metadata_upsert list \<Rightarrow> nft_metadata_upsert list" where
  "record_nft_metadata_fetch_failure transient symbol token_id error upserts =
     (if transient then upserts else upserts @ [nft_error_to_metadata_upsert symbol token_id error])"

section \<open>Series\<close>

record sdk_series =
  series_series_id :: string
  series_owner_address :: string
  series_current_supply :: string
  series_max_supply :: string
  series_max_mint :: string
  series_mint_count :: string
  series_carbon_token_id :: string
  series_carbon_series_id :: string
  series_mode :: "string option"
  series_metadata :: "token_property list"

record series_metadata_upsert =
  su_symbol :: string
  su_series_id :: string
  su_current_supply :: "int option"
  su_max_supply :: "int option"
  su_mode :: "string option"
  su_creator_address :: "string option"
  su_name :: "string option"
  su_description :: "string option"
  su_image :: "string option"
  su_royalties :: "int option"
  su_series_type :: "int option"
  su_has_locked :: "bool option"
  su_metadata :: json
  su_chain_api_response :: json

definition series_image :: "sdk_series \<Rightarrow> string option" where
  "series_image series = normalize_rpc_image_url (or_else (token_property_value (series_metadata series) ''imageURL'')
     (token_property_value (series_metadata series) ''image''))"

definition series_mode_of :: "sdk_series \<Rightarrow> string option" where
  "series_mode_of series = normalize_series_mode (or_else (Option.bind (series_mode series) non_empty_string)
     (token_property_value (series_metadata series) ''mode''))"

definition series_metadata_entries :: "string \<Rightarrow> sdk_series \<Rightarrow> (string \<times> string option) list" where
  "series_metadata_entries series_id series =
     [(''seriesId'', Some series_id),
      (''carbonTokenId'', non_empty_string (series_carbon_token_id series)),
      (''carbonSeriesId'', non_empty_string (series_carbon_series_id series)),
      (''ownerAddress'', non_empty_string (series_owner_address series)),
      (''maxMint'', non_empty_string (series_max_mint series)),
      (''mintCount'', non_empty_string (series_mint_count series)),
      (''currentSupply'', non_empty_string (series_current_supply series)),
      (''maxSupply'', non_empty_string (series_max_supply series)),
      (''mode'', series_mode_of series),
      (''name'', token_property_value (series_metadata series) ''name''),
      (''description'', token_property_value (series_metadata series) ''description''),
      (''imageURL'', series_image series)]"

definition series_result_to_metadata_upsert ::
    "(sdk_series \<Rightarrow> json option) \<Rightarrow> string \<Rightarrow> sdk_series \<Rightarrow> series_metadata_upsert option" where
  "series_result_to_metadata_upsert to_value symbol series =
     (let property = token_property_value (series_metadata series) in
      map_option (\<lambda>series_id.
        \<lparr>su_symbol = symbol, su_series_id = series_id,
         su_current_supply = parse_i32_clamped (series_current_supply series),
         su_max_supply = parse_i32_clamped (series_max_supply series),
         su_mode = series_mode_of series, su_creator_address = non_empty_string (series_owner_address series),
         su_name = property ''name'', su_description = property ''description'', su_image = series_image series,
         su_royalties = Option.bind (property ''royalties'') parse_i32_clamped,
         su_series_type = Option.bind (property ''type'') parse_i32_clamped,
         su_has_locked = Option.bind (or_else (property ''hasLocked'') (property ''has_locked'')) parse_boolish,
         su_metadata = JObject (insert_metadata_strings (series_metadata_entries series_id series)
           (token_properties_to_metadata (series_metadata series))),
         su_chain_api_response = unwrap_or (to_value series) JNull\<rparr>) (non_empty_string (series_series_id series)))"

definition series_error_to_metadata_upsert :: "string \<Rightarrow> string \<Rightarrow> string \<Rightarrow> series_metadata_upsert" where
  "series_error_to_metadata_upsert symbol series_id error =
     \<lparr>su_symbol = symbol, su_series_id = series_id, su_current_supply = None, su_max_supply = None,
      su_mode = None, su_creator_address = None, su_name = None, su_description = None, su_image = None,
      su_royalties = None, su_series_type = None, su_has_locked = None, su_metadata = JObject [],
      su_chain_api_response = json_object [(''error'', JString error), (''method'', JString ''getTokenSeriesById''),
        (''symbol'', JString symbol), (''seriesId'', JString series_id)]\<rparr>"

section \<open>Text properties\<close>

lemma non_empty_string_Some: "non_empty_string v = Some t \<longleftrightarrow> t = trim v \<and> t \<noteq> []"
  by (auto simp: non_empty_string_def Let_def)

lemma non_empty_string_None: "non_empty_string v = None \<longleftrightarrow> trim v = []"
  by (simp add: non_empty_string_def Let_def)

lemma trim_of_non_empty: "non_empty_string v = Some t \<Longrightarrow> trim t = t"
  by (auto simp: non_empty_string_Some)

lemma normalize_image_cases:
  assumes "normalize_rpc_image_url url = Some u"
  shows "trim u = u \<and> u \<noteq> []
    \<and> ((case get_prefix 5 u of None \<Rightarrow> False | Some p \<Rightarrow> eq_ignore_ascii_case p ''data:'') \<or> sublist ''://'' u)"
proof -
  from assms obtain t where t: "Option.bind url non_empty_string = Some t"
    by (cases "Option.bind url non_empty_string") (auto simp: normalize_rpc_image_url_def)
  then have tt: "trim t = t" "t \<noteq> []" by (auto simp: bind_eq_Some_conv non_empty_string_Some)
  have "\<exists>a b. ''https:'' @ ''//'' @ r = a @ ''://'' @ b" for r :: string
    by (intro exI [of _ "''https''"] exI [of _ r]) simp
  then have s: "sublist ''://'' (''https:'' @ ''//'' @ r)" for r unfolding sublist_def by blast
  have v: "list_all visible_ascii ''https:''" "list_all visible_ascii ''https://''" by (simp_all add: visible_ascii_def)
  consider "u = t" "(case get_prefix 5 t of None \<Rightarrow> False | Some p \<Rightarrow> eq_ignore_ascii_case p ''data:'') \<or> sublist ''://'' t"
    | "prefix ''//'' t" "u = ''https:'' @ t" | "u = ''https://'' @ t"
    using assms unfolding normalize_rpc_image_url_def t option.case
    by (metis option.inject)
  then show ?thesis
  proof cases
    case 1
    with tt show ?thesis by simp
  next
    case 2
    then obtain r where "t = ''//'' @ r" by (auto elim: prefixE)
    with 2 s [of r] trim_append_visible [OF _ v(1) tt(2,1)] show ?thesis by simp
  next
    case 3
    with s [of t] trim_append_visible [OF _ v(2) tt(2,1)] show ?thesis by simp
  qed
qed

text \<open>A stored image address is trimmed, not empty and absolute (it has a scheme or is a data URI), and
  normalising it again changes nothing.\<close>

theorem image_url_normal_form:
  "case normalize_rpc_image_url url of
     None \<Rightarrow> (\<forall>u. url = Some u \<longrightarrow> trim u = [])
   | Some u \<Rightarrow> trim u = u \<and> u \<noteq> []
       \<and> ((case get_prefix 5 u of None \<Rightarrow> False | Some p \<Rightarrow> eq_ignore_ascii_case p ''data:'') \<or> sublist ''://'' u)
       \<and> normalize_rpc_image_url (Some u) = Some u"
proof (cases "normalize_rpc_image_url url")
  case None
  then have "Option.bind url non_empty_string = None"
    by (auto simp: normalize_rpc_image_url_def split: option.splits if_splits)
  with None show ?thesis by (auto simp: bind_eq_None_conv non_empty_string_None)
next
  case (Some u)
  note n = normalize_image_cases [OF Some]
  then have "non_empty_string u = Some u" unfolding non_empty_string_Some by metis
  then have b: "Option.bind (Some u) non_empty_string = Some u" by (simp only: bind.simps)
  have "normalize_rpc_image_url (Some u) = Some u"
    unfolding normalize_rpc_image_url_def b option.case by (rule if_P) (use n in blast)
  with n show ?thesis unfolding Some option.case by blast
qed

theorem image_url_normal_form_witness:
  "trim (the (normalize_rpc_image_url (Some '' //cdn/x.png ''))) = ''https://cdn/x.png''
   \<and> normalize_rpc_image_url (Some ''https://cdn/x.png'') = Some ''https://cdn/x.png''"
proof -
  have e: "normalize_rpc_image_url (Some '' //cdn/x.png '') = Some ''https://cdn/x.png''" by code_simp
  from image_url_normal_form [of "Some '' //cdn/x.png ''"] show ?thesis unfolding e option.case by simp
qed

text \<open>The clamping parsers.\<close>

lemma parse_clamped_range:
  assumes "parse_u64_clamped bits v = Some i" "0 < bits"
  shows "0 \<le> i" "i \<le> 2 ^ (bits - 1) - 1"
proof -
  from assms obtain n where n: "parse_u64 v = Inr n" "i = min n (2 ^ (bits - 1) - 1)"
    by (auto simp: parse_u64_clamped_def split: sum.splits)
  have "0 \<le> n" using parse_int_range [OF n(1)] by simp
  moreover have "(0::int) \<le> 2 ^ (bits - 1) - 1" by simp
  ultimately show "0 \<le> i" "i \<le> 2 ^ (bits - 1) - 1" using n(2) by auto
qed

section \<open>Metadata objects ignore the case of their keys\<close>

definition ci_get :: "string \<Rightarrow> json str_map \<Rightarrow> json option" where
  "ci_get key m = map_option snd (find (\<lambda>e. eq_ignore_ascii_case (fst e) key) m)"

definition meta_inv :: "json str_map \<Rightarrow> bool" where
  "meta_inv m \<longleftrightarrow> sorted_map m \<and> distinct (map (to_ascii_lowercase \<circ> fst) m)
     \<and> (\<forall>k\<in>set (map fst m). k \<noteq> [] \<and> trim k = k)"

text \<open>A store whose keys are compared by some equivalence: what writers rely on, and what follows for a
  run of writes.\<close>

locale keyed_store =
  fixes key_of :: "'k \<Rightarrow> 'c option" and put :: "'k \<Rightarrow> 'v \<Rightarrow> 'm \<Rightarrow> 'm" and look :: "'c \<Rightarrow> 'm \<Rightarrow> 'v option"
    and inv :: "'m \<Rightarrow> bool" and empty :: 'm
  assumes inv_empty: "inv empty"
    and look_empty: "look c empty = None"
    and put_inv: "inv m \<Longrightarrow> inv (put k v m)"
    and look_put: "inv m \<Longrightarrow> look c (put k v m) = (if key_of k = Some c then Some v else look c m)"
begin

lemma fold_inv: "inv m \<Longrightarrow> inv (fold (\<lambda>(k, v). put k v) es m)"
  by (induction es arbitrary: m) (auto simp: put_inv)

lemma look_fold:
  "inv m \<Longrightarrow> look c (fold (\<lambda>(k, v). put k v) es m) =
     (case find (\<lambda>(k, v). key_of k = Some c) (rev es) of Some (k, v) \<Rightarrow> Some v | None \<Rightarrow> look c m)"
proof (induction es arbitrary: m)
  case (Cons e es)
  obtain k v where e: "e = (k, v)" by force
  have f: "find P (xs @ [x]) = (case find P xs of None \<Rightarrow> if P x then Some x else None | Some y \<Rightarrow> Some y)"
    for P xs and x :: "'k \<times> 'v" by (induction xs) auto
  from Cons.IH [OF put_inv [OF Cons.prems]] Cons.prems show ?case
    by (auto simp: e f look_put split: option.splits)
qed simp

end

definition ci_key :: "string \<Rightarrow> string option" where
  "ci_key key = map_option to_ascii_lowercase (non_empty_string key)"

definition ci_look :: "string \<Rightarrow> json str_map \<Rightarrow> json option" where
  "ci_look c m = map_option snd (find (\<lambda>e. to_ascii_lowercase (fst e) = c) m)"

lemma find_eq_map_of: "map_option snd (find (\<lambda>e. f (fst e) = c) m) = map_of (map (\<lambda>e. (f (fst e), snd e)) m) c"
  by (induction m) auto

lemma ci_get_look: "ci_get key m = ci_look (to_ascii_lowercase key) m"
  by (simp add: ci_get_def ci_look_def eq_ignore_ascii_case_def)

lemma ci_look_map_of: "ci_look c m = map_of (map (\<lambda>e. (to_ascii_lowercase (fst e), snd e)) m) c"
  unfolding ci_look_def by (rule find_eq_map_of)

text \<open>A key is stored at most once up to case, so removing the key found removes every variant.\<close>

lemma remove_variant:
  fixes key :: string
  assumes "meta_inv m"
  defines "m' \<equiv> (case find (\<lambda>e. eq_ignore_ascii_case e key) (map fst m) of Some k \<Rightarrow> map_remove k m | None \<Rightarrow> m)"
  shows "meta_inv m'" "to_ascii_lowercase key \<notin> to_ascii_lowercase ` fst ` set m'"
    "c \<noteq> to_ascii_lowercase key \<Longrightarrow> ci_look c m' = ci_look c m"
proof -
  have d: "distinct (map (\<lambda>e. to_ascii_lowercase (fst e)) m)" using assms(1) by (simp add: meta_inv_def comp_def)
  show inv: "meta_inv m'"
    using assms(1) unfolding m'_def meta_inv_def
    by (auto simp: map_remove_def distinct_map_filter comp_def split: option.splits
        intro: sorted_map_remove [unfolded map_remove_def])
  have "to_ascii_lowercase key \<notin> to_ascii_lowercase ` fst ` set m' \<and>
      (c \<noteq> to_ascii_lowercase key \<longrightarrow> ci_look c m' = ci_look c m)"
  proof (cases "find (\<lambda>e. eq_ignore_ascii_case e key) (map fst m)")
    case None
    then have "\<forall>e\<in>set m. to_ascii_lowercase (fst e) \<noteq> to_ascii_lowercase key"
      by (auto simp: find_None_iff eq_ignore_ascii_case_def)
    moreover have "m' = m" by (simp add: m'_def None)
    ultimately show ?thesis by auto
  next
    case (Some k)
    then have k: "to_ascii_lowercase k = to_ascii_lowercase key" "k \<in> fst ` set m"
      by (auto simp: find_Some_iff eq_ignore_ascii_case_def nth_mem)
    have "to_ascii_lowercase (fst e) \<noteq> to_ascii_lowercase key" if "e \<in> set m" "fst e \<noteq> k" for e
    proof
      assume eq: "to_ascii_lowercase (fst e) = to_ascii_lowercase key"
      from k(2) obtain e' where "e' \<in> set m" "fst e' = k" by auto
      with that eq k(1) d have "e = e'" by (auto simp: distinct_map inj_on_def)
      with \<open>fst e' = k\<close> that(2) show False by simp
    qed
    moreover have "ci_look c (map_remove k m) = ci_look c m" if "c \<noteq> to_ascii_lowercase key"
      using that k(1) unfolding ci_look_map_of map_remove_def by (induction m) auto
    moreover have m': "m' = map_remove k m" by (simp add: m'_def Some)
    ultimately show ?thesis unfolding m' map_remove_def image_image by force
  qed
  then show "to_ascii_lowercase key \<notin> to_ascii_lowercase ` fst ` set m'"
    "c \<noteq> to_ascii_lowercase key \<Longrightarrow> ci_look c m' = ci_look c m" by blast+
qed

lemma ci_look_insert_new:
  assumes "to_ascii_lowercase key \<notin> to_ascii_lowercase ` fst ` set m"
  shows "ci_look c (map_insert key v m) = (if c = to_ascii_lowercase key then Some v else ci_look c m)"
proof -
  have "map_of (map (\<lambda>e. (f (fst e), snd e)) (map_insert key v m)) c =
      (if c = f key then Some v else map_of (map (\<lambda>e. (f (fst e), snd e)) m) c)"
    if "f key \<notin> f ` fst ` set m" for f :: "string \<Rightarrow> string"
    using that
  proof (induction m)
    case (Cons e m)
    obtain k w where e: "e = (k, w)" by force
    with Cons have "f key \<noteq> f k" "key \<noteq> k" "f key \<notin> f ` fst ` set m" by auto
    with Cons.IH show ?case by (auto simp: e)
  qed simp
  from this [OF assms] show ?thesis unfolding ci_look_map_of .
qed

lemma meta_inv_insert_new:
  assumes "meta_inv m" "to_ascii_lowercase key \<notin> to_ascii_lowercase ` fst ` set m" "key \<noteq> []" "trim key = key"
  shows "meta_inv (map_insert key v m)"
proof -
  have "\<forall>k\<in>set (map fst (map_insert key v m)). k \<noteq> [] \<and> trim k = k"
    using assms(1,3,4) unfolding set_map_insert_keys by (auto simp: meta_inv_def)
  moreover have "mset (map_insert key v m) = add_mset (key, v) (mset m)"
    using assms(2)
  proof (induction m)
    case (Cons e m)
    then show ?case by (cases e) (auto simp: add_mset_commute)
  qed simp
  then have "distinct (map (to_ascii_lowercase \<circ> fst) (map_insert key v m))
      = distinct (map (to_ascii_lowercase \<circ> fst) ((key, v) # m))"
    by (metis mset_map mset.simps(2) mset_eq_imp_distinct_iff)
  then have "distinct (map (to_ascii_lowercase \<circ> fst) (map_insert key v m))"
    using assms(1,2) by (auto simp: meta_inv_def image_comp)
  ultimately show ?thesis using assms(1) unfolding meta_inv_def by (blast intro: sorted_map_insert)
qed

lemma insert_metadata_value_store:
  assumes "meta_inv m"
  shows "meta_inv (insert_metadata_value k v m)"
    "ci_look c (insert_metadata_value k v m) = (if ci_key k = Some c then Some v else ci_look c m)"
proof -
  have "meta_inv (insert_metadata_value k v m) \<and>
      ci_look c (insert_metadata_value k v m) = (if ci_key k = Some c then Some v else ci_look c m)"
  proof (cases "non_empty_string k")
    case None
    with assms show ?thesis by (simp add: insert_metadata_value_def ci_key_def)
  next
    case (Some key)
    define m' where "m' = (case find (\<lambda>e. eq_ignore_ascii_case e key) (map fst m) of Some k \<Rightarrow> map_remove k m | None \<Rightarrow> m)"
    note r = remove_variant [OF assms, where key = key, folded m'_def]
    have "insert_metadata_value k v m = map_insert key v m'" by (simp add: insert_metadata_value_def Some m'_def Let_def)
    moreover have "key \<noteq> []" "trim key = key" using Some by (auto simp: non_empty_string_Some)
    ultimately show ?thesis
      using meta_inv_insert_new [OF r(1,2)] ci_look_insert_new [OF r(2), of c v] r(3) [of c] Some
      by (auto simp: ci_key_def)
  qed
  then show "meta_inv (insert_metadata_value k v m)"
    "ci_look c (insert_metadata_value k v m) = (if ci_key k = Some c then Some v else ci_look c m)" by blast+
qed

interpretation meta: keyed_store ci_key insert_metadata_value ci_look meta_inv "[]"
  by unfold_locales (simp_all add: insert_metadata_value_store, simp_all add: meta_inv_def ci_look_def)

text \<open>The entries that a property list contributes, in order.\<close>

definition property_entries :: "token_property list \<Rightarrow> (string \<times> json) list" where
  "property_entries properties =
     map (\<lambda>p. (prop_key p, vm_value_to_json (prop_value p))) (filter (\<lambda>p. as_text (prop_value p) \<noteq> Some []) properties)"

lemma properties_as_entries:
  "token_properties_to_metadata properties = fold (\<lambda>(k, v). insert_metadata_value k v) (property_entries properties) []"
proof -
  have "fold add_property properties m = fold (\<lambda>(k, v). insert_metadata_value k v) (property_entries properties) m" for m
    by (induction properties arbitrary: m) (simp_all add: property_entries_def add_property_def)
  then show ?thesis by (simp add: token_properties_to_metadata_def)
qed

text \<open>The last entry for a key, whatever its case.\<close>

definition last_entry :: "string \<Rightarrow> (string \<times> json) list \<Rightarrow> json option" where
  "last_entry key entries =
     map_option snd (find (\<lambda>e. trim (fst e) \<noteq> [] \<and> eq_ignore_ascii_case (trim (fst e)) key) (rev entries))"

lemma ci_key_Some: "ci_key k = Some (to_ascii_lowercase key) \<longleftrightarrow> trim k \<noteq> [] \<and> eq_ignore_ascii_case (trim k) key"
  by (cases "trim k = []") (simp_all add: ci_key_def eq_ignore_ascii_case_def non_empty_string_def Let_def)

lemma ci_get_fold:
  "meta_inv m \<Longrightarrow> ci_get key (fold (\<lambda>(k, v). insert_metadata_value k v) es m) =
     (case last_entry key es of Some v \<Rightarrow> Some v | None \<Rightarrow> ci_get key m)"
  unfolding ci_get_look
  by (simp add: meta.look_fold last_entry_def ci_key_Some) (simp add: case_prod_unfold split: option.split)

text \<open>The metadata object of a token, NFT or series keeps one entry per key whatever its case: keys are
  sorted, trimmed, not empty and distinct up to case, and the value found under a key in any casing is
  the one the last property with that key has, in its VM shape; properties with a blank key or an
  empty text are dropped.\<close>

theorem metadata_last_wins:
  "meta_inv (token_properties_to_metadata properties)
   \<and> ci_get key (token_properties_to_metadata properties) = last_entry key (property_entries properties)"
  using meta.fold_inv [OF meta.inv_empty, of "property_entries properties"]
    ci_get_fold [OF meta.inv_empty, of key "property_entries properties"]
  by (auto simp: properties_as_entries ci_get_def split: option.splits)

section \<open>Columns and metadata of NFT and series rows agree\<close>

definition string_entries :: "(string \<times> string option) list \<Rightarrow> (string \<times> json) list" where
  "string_entries es = List.map_filter (\<lambda>(k, v). map_option (\<lambda>s. (k, JString s)) (Option.bind v non_empty_string)) es"

lemma insert_strings_as_entries:
  "insert_metadata_strings es m = fold (\<lambda>(k, v). insert_metadata_value k v) (string_entries es) m"
  unfolding insert_metadata_strings_def
proof (induction es arbitrary: m)
  case (Cons e es)
  then show ?case
    by (cases e) (auto simp: string_entries_def insert_metadata_string_def map_filter_simps split: option.splits)
qed (simp add: string_entries_def map_filter_simps)

lemma string_entries_keys: "map fst (string_entries es) = map fst (filter (\<lambda>(k, v). Option.bind v non_empty_string \<noteq> None) es)"
proof (induction es)
  case (Cons e es)
  then show ?case by (cases e) (auto simp: string_entries_def map_filter_simps split: option.splits)
qed (simp add: string_entries_def map_filter_simps)

lemma find_unique:
  assumes "x \<in> set xs" "P x" "\<And>y. y \<in> set xs \<Longrightarrow> P y \<Longrightarrow> y = x"
  shows "find P xs = Some x"
proof (cases "find P xs")
  case None
  with assms(1,2) show ?thesis by (simp add: find_None_iff)
next
  case (Some y)
  then have "y \<in> set xs" "P y" by (auto simp: find_Some_iff)
  with Some assms(3) show ?thesis by blast
qed

text \<open>Keys of the fixed entries, compared without case.\<close>

definition distinct_keys :: "(string \<times> string option) list \<Rightarrow> bool" where
  "distinct_keys es \<longleftrightarrow> distinct (map (to_ascii_lowercase \<circ> fst) es) \<and> list_all (\<lambda>e. trim (fst e) = fst e \<and> fst e \<noteq> []) es"

lemma ci_get_strings:
  assumes "meta_inv m" "distinct_keys es" "(key, Some v) \<in> set es" "trim v = v" "v \<noteq> []"
  shows "ci_get key (insert_metadata_strings es m) = Some (JString v)"
proof -
  have mem: "(key, JString v) \<in> set (string_entries es)"
  proof -
    have "non_empty_string v = Some v" using assms(4,5) unfolding non_empty_string_Some by metis
    then have "(\<lambda>(k, v). map_option (\<lambda>s. (k, JString s)) (Option.bind v non_empty_string)) (key, Some v) = Some (key, JString v)"
      by simp
    with assms(3) show ?thesis unfolding string_entries_def map_filter_def by force
  qed
  have sub: "fst e \<in> fst ` set es" if "e \<in> set (string_entries es)" for e
    using arg_cong [OF string_entries_keys [of es], of set] that by fastforce
  have keyed: "trim k = k \<and> k \<noteq> []" if "k \<in> fst ` set es" for k
    using that assms(2) by (auto simp: distinct_keys_def list_all_iff)
  have d: "distinct (map (to_ascii_lowercase \<circ> fst) (string_entries es))"
    using assms(2) unfolding distinct_keys_def map_map [symmetric] string_entries_keys
    by (simp add: distinct_map_filter comp_def)
  have "find (\<lambda>e. trim (fst e) \<noteq> [] \<and> eq_ignore_ascii_case (trim (fst e)) key) (rev (string_entries es)) = Some (key, JString v)"
  proof (rule find_unique)
    show "(key, JString v) \<in> set (rev (string_entries es))" using mem by simp
    show "trim (fst (key, JString v)) \<noteq> [] \<and> eq_ignore_ascii_case (trim (fst (key, JString v))) key"
      using keyed [OF sub [OF mem]] by (simp add: eq_ignore_ascii_case_def)
    fix e
    assume e: "e \<in> set (rev (string_entries es))" "trim (fst e) \<noteq> [] \<and> eq_ignore_ascii_case (trim (fst e)) key"
    then have "(to_ascii_lowercase \<circ> fst) e = (to_ascii_lowercase \<circ> fst) (key, JString v)"
      using keyed [OF sub, of e] by (simp add: eq_ignore_ascii_case_def)
    with e(1) mem d show "e = (key, JString v)" unfolding distinct_map set_rev inj_on_def by blast
  qed
  then show ?thesis using ci_get_fold [OF assms(1), of key "string_entries es"]
    by (simp add: insert_strings_as_entries last_entry_def)
qed

definition nft_columns :: "((nft_metadata_upsert \<Rightarrow> string option) \<times> string) list" where
  "nft_columns = [(\<lambda>u. Some (nu_token_id u), ''token_id''), (nu_series_id, ''series''),
     (nu_creator_address, ''creatorAddress''), (nu_rom, ''rom''), (nu_ram, ''ram''), (nu_name, ''name''),
     (nu_description, ''description''), (nu_image, ''imageURL''), (nu_info_url, ''infoURL'')]"

definition series_columns :: "((series_metadata_upsert \<Rightarrow> string option) \<times> string) list" where
  "series_columns = [(\<lambda>u. Some (su_series_id u), ''seriesId''), (su_creator_address, ''ownerAddress''),
     (su_mode, ''mode''), (su_name, ''name''), (su_description, ''description''), (su_image, ''imageURL'')]"

lemma nft_keys: "distinct_keys (nft_metadata_entries token_id nft)"
  unfolding distinct_keys_def nft_metadata_entries_def list.map comp_def fst_conv by (rule conjI; code_simp)

lemma series_keys: "distinct_keys (series_metadata_entries series_id series)"
  unfolding distinct_keys_def series_metadata_entries_def list.map comp_def fst_conv by (rule conjI; code_simp)

definition trimmed_text :: "string option \<Rightarrow> bool" where
  "trimmed_text v \<longleftrightarrow> (\<forall>s. v = Some s \<longrightarrow> trim s = s \<and> s \<noteq> [])"

lemma trimmed_text_intros:
  "trimmed_text (non_empty_string s)" "trimmed_text (Option.bind w non_empty_string)"
  "trimmed_text (token_property_value ps k)" "trimmed_text (normalize_rpc_image_url w)"
  "trimmed_text a \<Longrightarrow> trimmed_text b \<Longrightarrow> trimmed_text (or_else a b)" "trimmed_text (normalize_series_mode w)"
proof -
  have b: "trimmed_text (Option.bind w non_empty_string)" for w
    unfolding trimmed_text_def bind_eq_Some_conv non_empty_string_Some by (metis trim_idem)
  then show "trimmed_text (Option.bind w non_empty_string)" .
  show "trimmed_text (non_empty_string s)" using b [of "Some s"] by simp
  show "trimmed_text (token_property_value ps k)" unfolding token_property_value_def by (rule b)
  show "trimmed_text (normalize_rpc_image_url w)" unfolding trimmed_text_def using normalize_image_cases by blast
  show "trimmed_text a \<Longrightarrow> trimmed_text b \<Longrightarrow> trimmed_text (or_else a b)" by (cases a) (simp_all add: trimmed_text_def)
  have u: "trim ''Unique'' = ''Unique''" "trim ''Duplicated'' = ''Duplicated''" by code_simp+
  show "trimmed_text (normalize_series_mode w)"
    unfolding normalize_series_mode_def using b [of w] u
    by (cases "Option.bind w non_empty_string") (auto simp: trimmed_text_def)
qed

lemma columns_agree:
  assumes "meta_inv m" "distinct_keys es" "(key, column) \<in> set es" "trimmed_text column" "column = Some v"
  shows "ci_get key (insert_metadata_strings es m) = Some (JString v)"
  using ci_get_strings [OF assms(1,2)] assms(3-5) by (auto simp: trimmed_text_def)

lemma clamped_ranges:
  "parse_u64_clamped 32 s = Some i \<Longrightarrow> 0 \<le> i \<and> i < 2 ^ 31" "parse_i32_clamped s = Some i \<Longrightarrow> 0 \<le> i \<and> i < 2 ^ 31"
  "parse_i64_clamped s = Some i \<Longrightarrow> 0 \<le> i \<and> i < 2 ^ 63"
proof -
  have r: "0 \<le> i \<and> i < 2 ^ 31" if "parse_u64_clamped 32 s = Some i" for s using parse_clamped_range [OF that] by simp
  then show "parse_u64_clamped 32 s = Some i \<Longrightarrow> 0 \<le> i \<and> i < 2 ^ 31"
    "parse_i32_clamped s = Some i \<Longrightarrow> 0 \<le> i \<and> i < 2 ^ 31" by (auto simp: parse_i32_clamped_def bind_eq_Some_conv)
  have "0 \<le> i \<and> i < 2 ^ 63" if "parse_u64_clamped 64 s = Some i" for s using parse_clamped_range [OF that] by simp
  then show "parse_i64_clamped s = Some i \<Longrightarrow> 0 \<le> i \<and> i < 2 ^ 63" by (auto simp: parse_i64_clamped_def bind_eq_Some_conv)
qed

text \<open>A metadata object that starts from the answer's properties and takes the fixed entries.\<close>

lemma metadata_of_entries:
  assumes "distinct_keys es" "\<forall>(key, column) \<in> set cs. (key, column) \<in> set es \<and> trimmed_text column"
  shows "meta_inv (insert_metadata_strings es (token_properties_to_metadata ps))
    \<and> (\<forall>(key, column) \<in> set cs. \<forall>v. column = Some v \<longrightarrow>
         ci_get key (insert_metadata_strings es (token_properties_to_metadata ps)) = Some (JString v))"
proof -
  have inv: "meta_inv (token_properties_to_metadata ps)"
    unfolding properties_as_entries by (rule meta.fold_inv [OF meta.inv_empty])
  then have "meta_inv (insert_metadata_strings es (token_properties_to_metadata ps))"
    unfolding insert_strings_as_entries by (rule meta.fold_inv)
  with columns_agree [OF inv assms(1)] assms(2) show ?thesis by blast
qed

lemma nft_row:
  assumes "nft_result_to_metadata_upsert to_value symbol nft = Some u"
  shows "\<exists>m. nu_metadata u = JObject m \<and> meta_inv m
    \<and> (\<forall>(column, key) \<in> set nft_columns. \<forall>v. column u = Some v \<longrightarrow> ci_get key m = Some (JString v))"
proof -
  from assms obtain t where t: "non_empty_string (nft_id nft) = Some t" by (auto simp: nft_result_to_metadata_upsert_def)
  let ?cs = "map (\<lambda>(column, key). (key, column u)) nft_columns"
  have u: "nu_metadata u = JObject (insert_metadata_strings (nft_metadata_entries t nft)
        (token_properties_to_metadata (nft_properties nft)))"
    "?cs = [(''token_id'', Some t), (''series'', non_empty_string (nft_series nft)),
        (''creatorAddress'', non_empty_string (nft_creator_address nft)), (''rom'', non_empty_string (nft_rom nft)),
        (''ram'', non_empty_string (nft_ram nft)), (''name'', token_property_value (nft_properties nft) ''name''),
        (''description'', token_property_value (nft_properties nft) ''description''), (''imageURL'', nft_image nft),
        (''infoURL'', token_property_value (nft_properties nft) ''infoURL'')]"
    using assms t by (auto simp: nft_result_to_metadata_upsert_def nft_columns_def)
  have "trimmed_text (Some t)" using trimmed_text_intros(1) t by metis
  then have "\<forall>(key, column) \<in> set ?cs. (key, column) \<in> set (nft_metadata_entries t nft) \<and> trimmed_text column"
    unfolding u(2) by (simp add: nft_metadata_entries_def nft_image_def trimmed_text_intros)
  from metadata_of_entries [OF nft_keys this] u(1) show ?thesis by force
qed

lemma series_row:
  assumes "series_result_to_metadata_upsert to_value symbol series = Some u"
  shows "\<exists>m. su_metadata u = JObject m \<and> meta_inv m
    \<and> (\<forall>(column, key) \<in> set series_columns. \<forall>v. column u = Some v \<longrightarrow> ci_get key m = Some (JString v))"
proof -
  from assms obtain t where t: "non_empty_string (series_series_id series) = Some t"
    by (auto simp: series_result_to_metadata_upsert_def Let_def)
  let ?cs = "map (\<lambda>(column, key). (key, column u)) series_columns"
  have u: "su_metadata u = JObject (insert_metadata_strings (series_metadata_entries t series)
        (token_properties_to_metadata (series_metadata series)))"
    "?cs = [(''seriesId'', Some t), (''ownerAddress'', non_empty_string (series_owner_address series)),
        (''mode'', series_mode_of series), (''name'', token_property_value (series_metadata series) ''name''),
        (''description'', token_property_value (series_metadata series) ''description''), (''imageURL'', series_image series)]"
    using assms t by (auto simp: series_result_to_metadata_upsert_def series_columns_def Let_def)
  have "trimmed_text (Some t)" using trimmed_text_intros(1) t by metis
  then have "\<forall>(key, column) \<in> set ?cs. (key, column) \<in> set (series_metadata_entries t series) \<and> trimmed_text column"
    unfolding u(2) by (simp add: series_metadata_entries_def series_image_def series_mode_of_def trimmed_text_intros)
  from metadata_of_entries [OF series_keys this] u(1) show ?thesis by force
qed

text \<open>C40. An NFT or series row is consistent: a row exists exactly when the answer has an id; its metadata
  object has one entry per key up to case, and every text column that is set (id, owner, names,
  description, image, mode, ...) is the metadata entry of that column; mint numbers, supplies, royalties
  and types are clamped into the columns' ranges.\<close>

theorem metadata_rows_consistent:
  "(nft_result_to_metadata_upsert to_value symbol nft = None \<longleftrightarrow> trim (nft_id nft) = [])
   \<and> (\<forall>u. nft_result_to_metadata_upsert to_value symbol nft = Some u \<longrightarrow>
        (\<exists>m. nu_metadata u = JObject m \<and> meta_inv m
           \<and> (\<forall>(column, key) \<in> set nft_columns. \<forall>v. column u = Some v \<longrightarrow> ci_get key m = Some (JString v)))
        \<and> (\<forall>i. nu_mint_number u = Some i \<longrightarrow> 0 \<le> i \<and> i < 2 ^ 31)
        \<and> (\<forall>i. nu_mint_date u = Some i \<longrightarrow> 0 \<le> i \<and> i < 2 ^ 63))
   \<and> (series_result_to_metadata_upsert to_value' symbol series = None \<longleftrightarrow> trim (series_series_id series) = [])
   \<and> (\<forall>u. series_result_to_metadata_upsert to_value' symbol series = Some u \<longrightarrow>
        (\<exists>m. su_metadata u = JObject m \<and> meta_inv m
           \<and> (\<forall>(column, key) \<in> set series_columns. \<forall>v. column u = Some v \<longrightarrow> ci_get key m = Some (JString v)))
        \<and> (\<forall>i \<in> set_option (su_current_supply u) \<union> set_option (su_max_supply u) \<union> set_option (su_royalties u)
               \<union> set_option (su_series_type u). 0 \<le> i \<and> i < 2 ^ 31))"
proof (intro conjI allI impI)
  show "nft_result_to_metadata_upsert to_value symbol nft = None \<longleftrightarrow> trim (nft_id nft) = []"
    by (simp add: nft_result_to_metadata_upsert_def non_empty_string_None)
  show "series_result_to_metadata_upsert to_value' symbol series = None \<longleftrightarrow> trim (series_series_id series) = []"
    by (simp add: series_result_to_metadata_upsert_def non_empty_string_None Let_def)
next
  fix u i
  assume a: "nft_result_to_metadata_upsert to_value symbol nft = Some u"
  show "\<exists>m. nu_metadata u = JObject m \<and> meta_inv m
      \<and> (\<forall>(column, key) \<in> set nft_columns. \<forall>v. column u = Some v \<longrightarrow> ci_get key m = Some (JString v))" by (rule nft_row [OF a])
  have n: "nu_mint_number u = Option.bind (non_empty_string (nft_mint nft)) (parse_u64_clamped 32)"
      "nu_mint_date u = Option.bind (nft_mint_date nft) parse_i64_clamped"
    using a by (auto simp: nft_result_to_metadata_upsert_def)
  show "0 \<le> i" "i < 2 ^ 31" if "nu_mint_number u = Some i"
    using that clamped_ranges(1) by (auto simp only: n bind_eq_Some_conv)
  show "0 \<le> i" "i < 2 ^ 63" if "nu_mint_date u = Some i"
    using that clamped_ranges(3) by (auto simp only: n bind_eq_Some_conv)
next
  fix u
  assume a: "series_result_to_metadata_upsert to_value' symbol series = Some u"
  show "\<exists>m. su_metadata u = JObject m \<and> meta_inv m
      \<and> (\<forall>(column, key) \<in> set series_columns. \<forall>v. column u = Some v \<longrightarrow> ci_get key m = Some (JString v))"
    by (rule series_row [OF a])
  show "\<forall>i \<in> set_option (su_current_supply u) \<union> set_option (su_max_supply u) \<union> set_option (su_royalties u)
      \<union> set_option (su_series_type u). 0 \<le> i \<and> i < 2 ^ 31"
    using a clamped_ranges(2) by (auto simp: series_result_to_metadata_upsert_def Let_def bind_eq_Some_conv)
qed

lemma nft_row_columns:
  "nft_result_to_metadata_upsert to_value symbol nft = Some u \<Longrightarrow> nu_name u = token_property_value (nft_properties nft) ''name''"
  "nft_result_to_metadata_upsert to_value symbol nft = Some u \<Longrightarrow> nu_image u = nft_image nft"
  "nft_result_to_metadata_upsert to_value symbol nft = Some u \<Longrightarrow>
     nu_mint_number u = Option.bind (non_empty_string (nft_mint nft)) (parse_u64_clamped 32)"
  by (auto simp: nft_result_to_metadata_upsert_def)

definition demo_nft :: sdk_nft where
  "demo_nft = \<lparr>nft_id = '' 77 '', nft_series = ''1'', nft_creator_address = ''P2K'', nft_mint = ''9999999999'',
     nft_rom = [], nft_ram = [], nft_status = ''active'', nft_carbon_token_id = [], nft_carbon_series_id = [],
     nft_carbon_nft_address = [], nft_properties = [\<lparr>prop_key = ''Name'', prop_value = Text ''Crown''\<rparr>,
       \<lparr>prop_key = ''imageURL'', prop_value = Text ''cdn/x.png''\<rparr>]\<rparr>"

definition demo_series :: sdk_series where
  "demo_series = \<lparr>series_series_id = ''5'', series_owner_address = [], series_current_supply = ''3'',
     series_max_supply = [], series_max_mint = [], series_mint_count = [], series_carbon_token_id = [],
     series_carbon_series_id = [], series_mode = Some ''1'', series_metadata = []\<rparr>"

theorem metadata_rows_consistent_witness:
  "\<exists>u m. nft_result_to_metadata_upsert (\<lambda>_. None) ''CROWN'' demo_nft = Some u \<and> nu_metadata u = JObject m
     \<and> nu_name u = Some ''Crown'' \<and> ci_get ''name'' m = Some (JString ''Crown'')
     \<and> ci_get ''imageURL'' m = Some (JString ''https://cdn/x.png'') \<and> nu_mint_number u = Some (2 ^ 31 - 1)"
proof -
  have v: "non_empty_string (nft_id demo_nft) = Some ''77''" "non_empty_string (nft_mint demo_nft) = Some ''9999999999''"
      "token_property_value (nft_properties demo_nft) ''name'' = Some ''Crown''"
      "nft_image demo_nft = Some ''https://cdn/x.png''" by code_simp+
  have p: "parse_u64_clamped 32 ''9999999999'' = Some (2 ^ 31 - 1)"
    by (simp add: parse_u64_clamped_def parse_int_def digit_val_def is_ascii_digit_def)
  obtain u where u1: "nft_result_to_metadata_upsert (\<lambda>_. None) ''CROWN'' demo_nft = Some u"
    unfolding nft_result_to_metadata_upsert_def v(1) option.map(2) by blast
  note u = u1 nft_row_columns [OF u1, unfolded v bind.simps p]
  from metadata_rows_consistent [of "\<lambda>_. None" "''CROWN''" demo_nft "\<lambda>_. None" demo_series,
      THEN conjunct2, THEN conjunct1, THEN spec, THEN mp, OF u1, THEN conjunct1]
  obtain m where m: "nu_metadata u = JObject m"
      "\<forall>(column, key) \<in> set nft_columns. \<forall>v. column u = Some v \<longrightarrow> ci_get key m = Some (JString v)"
    by (elim exE conjE) (rule that)
  have "(nu_name, ''name'') \<in> set nft_columns" "(nu_image, ''imageURL'') \<in> set nft_columns" by (simp_all add: nft_columns_def)
  with m(2) u have "ci_get ''name'' m = Some (JString ''Crown'')" "ci_get ''imageURL'' m = Some (JString ''https://cdn/x.png'')"
    by blast+
  with u m(1) show ?thesis by blast
qed

end
