(* ===== verification/Event_Payload.thy ===== *)
theory Event_Payload
  imports Sdk_Metadata
begin

text \<open>
  The chain data that block answers carry and the JSON payloads that the projection builds from it
  (\<open>src/crates/ingestion/src/lib.rs\<close>): governance configurations, special resolutions with their nested
  calls, token and series creation, and extended mints.

  The data types are those of the Phantasma SDK, with the fields that the source reads.  The arguments
  of a resolution call are what their serialisation gives, with a flag for the shape this build does
  not recognise; typed event data that the projection does not read is \<open>OtherData\<close>.
\<close>

section \<open>SDK data\<close>

datatype call_arguments = Arguments (arguments_unrecognized: bool) (arguments_value: "json option")

datatype resolution_call =
  ResolutionCall (call_module: string) (call_module_id: nat) (call_method: string) (call_method_id: nat)
    (call_arguments: "call_arguments option") (call_calls: "resolution_call list option")

record special_resolution_data =
  resolution_id :: nat
  resolution_description :: "string option"
  resolution_calls :: "resolution_call list"

record token_create_data =
  tc_symbol :: string
  tc_max_supply :: string
  tc_decimals :: nat
  tc_is_non_fungible :: bool
  tc_carbon_token_id :: nat
  tc_metadata :: "string str_map"

record token_series_create_data =
  tsc_symbol :: string
  tsc_series_id :: string
  tsc_max_mint :: nat
  tsc_max_supply :: nat
  tsc_owner :: string
  tsc_carbon_token_id :: nat
  tsc_carbon_series_id :: nat
  tsc_metadata :: "string str_map"

datatype event_data =
    SpecialResolutionData special_resolution_data
  | TokenCreateData token_create_data
  | TokenSeriesCreateData token_series_create_data
  | OtherData
  | UnknownData json

record sdk_event =
  ev_address :: string
  ev_contract :: string
  ev_kind :: string
  ev_name :: string
  ev_data :: string

record sdk_event_ex =
  ex_kind :: string
  ex_contract :: string
  ex_data :: event_data

record sdk_transaction =
  tx_hash :: string
  tx_state :: string
  tx_timestamp :: int
  tx_expiration :: int
  tx_carbon_type :: int
  tx_fee :: string
  tx_gas_price :: string
  tx_gas_limit :: string
  tx_result :: string
  tx_debug_comment :: "string option"
  tx_payload :: string
  tx_script :: string
  tx_sender :: string
  tx_gas_payer :: string
  tx_gas_target :: string
  tx_carbon_data :: string
  tx_signatures :: "(string \<times> string) list"
  tx_events :: "sdk_event list"
  tx_extended_events :: "sdk_event_ex list"
  tx_block_hash :: string
  tx_block_height :: nat

record sdk_block =
  blk_hash :: string
  blk_protocol :: int
  blk_chain_address :: string
  blk_validator_address :: string
  blk_producer_address :: "string option"
  blk_timestamp :: int
  blk_reward :: string
  blk_txs :: "sdk_transaction list"

record gas_config =
  gc_version :: nat
  gc_max_name_length :: nat
  gc_max_token_symbol_length :: nat
  gc_fee_shift :: nat
  gc_max_structure_size :: nat
  gc_fee_multiplier :: nat
  gc_gas_token_id :: nat
  gc_data_token_id :: nat
  gc_minimum_gas_offer :: nat
  gc_data_escrow_per_row :: nat
  gc_gas_fee_transfer :: nat
  gc_gas_fee_query :: nat
  gc_gas_fee_create_token_base :: nat
  gc_gas_fee_create_token_symbol :: nat
  gc_gas_fee_create_token_series :: nat
  gc_gas_fee_per_byte :: nat
  gc_gas_fee_register_name :: nat
  gc_gas_burn_ratio_mul :: nat
  gc_gas_burn_ratio_shift :: nat
  gc_has_gas_model_v2 :: bool
  gc_minimum_gas_bill :: nat
  gc_gas_producer_ratio_mul :: nat
  gc_gas_producer_ratio_shift :: nat
  gc_gas_dapp_ratio_mul :: nat
  gc_gas_dapp_ratio_shift :: nat
  gc_policy_fee_create_token_base :: nat
  gc_policy_fee_create_token_symbol :: nat
  gc_policy_fee_create_token_series :: nat
  gc_policy_fee_register_name :: nat
  gc_legacy_data_escrow_per_row :: nat

record chain_config =
  cc_version :: nat
  cc_reserved1 :: nat
  cc_reserved2 :: nat
  cc_reserved3 :: nat
  cc_allowed_tx_types :: nat
  cc_expiry_window :: nat
  cc_block_rate_target :: nat

section \<open>Payload builders\<close>

abbreviation json_nat :: "nat \<Rightarrow> json" where
  "json_nat n \<equiv> JString (show_nat n)"

definition build_governance_gas_config_payload :: "gas_config \<Rightarrow> json" where
  "build_governance_gas_config_payload c =
     json_object ([(''version'', json_nat (gc_version c)),
       (''max_name_length'', json_nat (gc_max_name_length c)),
       (''max_token_symbol_length'', json_nat (gc_max_token_symbol_length c)),
       (''fee_shift'', json_nat (gc_fee_shift c)),
       (''max_structure_size'', json_nat (gc_max_structure_size c)),
       (''fee_multiplier'', json_nat (gc_fee_multiplier c)),
       (''gas_token_id'', json_nat (gc_gas_token_id c)),
       (''data_token_id'', json_nat (gc_data_token_id c)),
       (''minimum_gas_offer'', json_nat (gc_minimum_gas_offer c)),
       (''data_escrow_per_row'', json_nat (gc_data_escrow_per_row c)),
       (''gas_fee_transfer'', json_nat (gc_gas_fee_transfer c)),
       (''gas_fee_query'', json_nat (gc_gas_fee_query c)),
       (''gas_fee_create_token_base'', json_nat (gc_gas_fee_create_token_base c)),
       (''gas_fee_create_token_symbol'', json_nat (gc_gas_fee_create_token_symbol c)),
       (''gas_fee_create_token_series'', json_nat (gc_gas_fee_create_token_series c)),
       (''gas_fee_per_byte'', json_nat (gc_gas_fee_per_byte c)),
       (''gas_fee_register_name'', json_nat (gc_gas_fee_register_name c)),
       (''gas_burn_ratio_mul'', json_nat (gc_gas_burn_ratio_mul c)),
       (''gas_burn_ratio_shift'', json_nat (gc_gas_burn_ratio_shift c))]
      @ (if gc_has_gas_model_v2 c
         then [(''minimum_gas_bill'', json_nat (gc_minimum_gas_bill c)),
           (''gas_producer_ratio_mul'', json_nat (gc_gas_producer_ratio_mul c)),
           (''gas_producer_ratio_shift'', json_nat (gc_gas_producer_ratio_shift c)),
           (''gas_dapp_ratio_mul'', json_nat (gc_gas_dapp_ratio_mul c)),
           (''gas_dapp_ratio_shift'', json_nat (gc_gas_dapp_ratio_shift c)),
           (''policy_fee_create_token_base'', json_nat (gc_policy_fee_create_token_base c)),
           (''policy_fee_create_token_symbol'', json_nat (gc_policy_fee_create_token_symbol c)),
           (''policy_fee_create_token_series'', json_nat (gc_policy_fee_create_token_series c)),
           (''policy_fee_register_name'', json_nat (gc_policy_fee_register_name c)),
           (''legacy_data_escrow_per_row'', json_nat (gc_legacy_data_escrow_per_row c))]
         else []))"

definition build_governance_chain_config_payload :: "chain_config \<Rightarrow> json" where
  "build_governance_chain_config_payload c =
     json_object [(''version'', json_nat (cc_version c)), (''reserved_1'', json_nat (cc_reserved1 c)),
       (''reserved_2'', json_nat (cc_reserved2 c)), (''reserved_3'', json_nat (cc_reserved3 c)),
       (''allowed_tx_types'', json_nat (cc_allowed_tx_types c)), (''expiry_window'', json_nat (cc_expiry_window c)),
       (''block_rate_target'', json_nat (cc_block_rate_target c))]"

text \<open>The calls of a resolution, recursively.\<close>

primrec build_call :: "resolution_call \<Rightarrow> json" where
  "build_call (ResolutionCall module module_id method method_id arguments calls) =
     json_object
       ((if module = [] then [] else [(''module'', JString module)])
        @ [(''module_id'', JNumber (show_nat module_id))]
        @ (if method = [] then [] else [(''method'', JString method)])
        @ [(''method_id'', JNumber (show_nat method_id))]
        @ (case arguments of None \<Rightarrow> [] | Some a \<Rightarrow> [(''arguments'', unwrap_or (arguments_value a) JNull)])
        @ [(''calls'', JArray (unwrap_or (map_option (map build_call) calls) []))])"

definition build_special_resolution_calls :: "resolution_call list \<Rightarrow> json" where
  "build_special_resolution_calls calls = JArray (map build_call calls)"

definition build_special_resolution_payload :: "special_resolution_data \<Rightarrow> json" where
  "build_special_resolution_payload data =
     json_object
       ([(''resolution_id'', json_nat (resolution_id data))]
        @ (case resolution_description data of None \<Rightarrow> [] | Some d \<Rightarrow> [(''description'', JString d)])
        @ [(''calls'', build_special_resolution_calls (resolution_calls data))])"

definition string_map_to_json :: "string str_map \<Rightarrow> json" where
  "string_map_to_json metadata = json_object (map (\<lambda>(k, v). (k, JString v)) metadata)"

definition build_token_create_payload :: "token_create_data \<Rightarrow> json" where
  "build_token_create_payload data =
     json_object
       ((if tc_symbol data = [] then [] else [(''symbol'', JString (tc_symbol data))])
        @ (if tc_max_supply data = [] then [] else [(''max_supply'', JString (tc_max_supply data))])
        @ [(''decimals'', json_nat (tc_decimals data)), (''is_non_fungible'', JBool (tc_is_non_fungible data))]
        @ (if tc_carbon_token_id data = 0 then [] else [(''carbon_token_id'', json_nat (tc_carbon_token_id data))])
        @ [(''metadata'', string_map_to_json (tc_metadata data))])"

definition token_series_identity :: "token_series_create_data \<Rightarrow> string option" where
  "token_series_identity data =
     or_else (non_empty_string (tsc_series_id data))
       (if tsc_carbon_series_id data \<noteq> 0 then Some (show_nat (tsc_carbon_series_id data)) else None)"

definition build_token_series_create_payload :: "token_series_create_data \<Rightarrow> json" where
  "build_token_series_create_payload data =
     json_object
       ((if tsc_symbol data = [] then [] else [(''token'', JString (tsc_symbol data))])
        @ (case token_series_identity data of None \<Rightarrow> [] | Some series_id \<Rightarrow> [(''series_id'', JString series_id)])
        @ [(''max_mint'', json_nat (tsc_max_mint data)), (''max_supply'', json_nat (tsc_max_supply data))]
        @ (if tsc_owner data = [] then [] else [(''owner'', JString (tsc_owner data))])
        @ (if tsc_carbon_token_id data = 0 then [] else [(''carbon_token_id'', json_nat (tsc_carbon_token_id data))])
        @ (if tsc_carbon_series_id data = 0 then [] else [(''carbon_series_id'', json_nat (tsc_carbon_series_id data))])
        @ [(''metadata'', string_map_to_json (tsc_metadata data))])"

fun json_scalar_to_string :: "json \<Rightarrow> string option" where
  "json_scalar_to_string (JString s) = Some s"
| "json_scalar_to_string (JNumber n) = Some n"
| "json_scalar_to_string (JBool b) = Some (if b then ''true'' else ''false'')"
| "json_scalar_to_string _ = None"

definition token_mint_payload_matches :: "json \<Rightarrow> string \<Rightarrow> string \<Rightarrow> bool" where
  "token_mint_payload_matches data symbol token_id =
     (case Option.bind (json_get ''symbol'' data) json_as_str of
        None \<Rightarrow> False
      | Some mint_symbol \<Rightarrow>
          eq_ignore_ascii_case mint_symbol symbol
          \<and> (case Option.bind (json_get ''tokenId'' data) json_scalar_to_string of
               None \<Rightarrow> False | Some i \<Rightarrow> eq_ignore_ascii_case i token_id))"

definition build_token_mint_extended_payload :: "json \<Rightarrow> json" where
  "build_token_mint_extended_payload data =
     (let scalar = (\<lambda>source target. case Option.bind (json_get source data) json_scalar_to_string of
             None \<Rightarrow> [] | Some v \<Rightarrow> [(target, JString v)])
      in json_object
           (scalar ''tokenId'' ''token_id'' @ scalar ''seriesId'' ''series_id'' @ scalar ''mintNumber'' ''mint_number''
            @ scalar ''carbonTokenId'' ''carbon_token_id'' @ scalar ''carbonSeriesId'' ''carbon_series_id''
            @ scalar ''carbonInstanceId'' ''carbon_instance_id''
            @ (case Option.bind (json_get ''owner'' data) json_as_str of None \<Rightarrow> [] | Some owner \<Rightarrow> [(''owner'', JString owner)])))"

end
