(* ===== verification/Event_Projection.thy ===== *)
theory Event_Projection
  imports Event_Payload
begin

text \<open>
  Projection of a transaction's events to event rows (\<open>src/crates/ingestion/src/lib.rs\<close>): the decoders of
  legacy events, the extended-event context of a transaction, one event, and the whole transaction with
  its skipped numeric kinds and synthesized events.

  The SDK's hexadecimal decoder, binary reader, address rendering and Carbon deserialisation are the
  fields of a record that the definitions take; a reader is the list of the bytes that are left.
\<close>

section \<open>SDK decoding functions\<close>

type_synonym bytes = "nat list"

record sdk =
  decode_hex :: "string \<Rightarrow> bytes option"
  encode_hex_upper :: "bytes \<Rightarrow> string"
  read_string :: "bytes \<Rightarrow> (string \<times> bytes) option"
  read_big_integer :: "bytes \<Rightarrow> (int \<times> bytes) option"
  read_var_uint :: "bytes \<Rightarrow> (nat \<times> bytes) option"
  read_var_bytes :: "bytes \<Rightarrow> (bytes \<times> bytes) option"
  at_eof :: "bytes \<Rightarrow> bool"
  address_text :: "bytes \<Rightarrow> string option"
  gas_config_of :: "bytes \<Rightarrow> gas_config option"
  chain_config_of :: "bytes \<Rightarrow> chain_config option"
  gas_config_default :: gas_config
  chain_config_default :: chain_config

text \<open>The position of an event, for error reports.\<close>

record event_site =
  site_height :: nat
  site_tx :: nat
  site_event :: nat
  site_kind :: string

definition legacy_event_decode_error :: "event_site \<Rightarrow> ingestion_error" where
  "legacy_event_decode_error site =
     EventPayloadDecode (site_height site) (site_tx site) (site_event site) (site_kind site)"

definition decode_legacy_event_bytes :: "sdk \<Rightarrow> event_site \<Rightarrow> string \<Rightarrow> ingestion_error + bytes" where
  "decode_legacy_event_bytes sdk site raw_data = ok_or (legacy_event_decode_error site) (decode_hex sdk raw_data)"

definition legacy_read_string :: "sdk \<Rightarrow> event_site \<Rightarrow> bytes \<Rightarrow> ingestion_error + string \<times> bytes" where
  "legacy_read_string sdk site reader = ok_or (legacy_event_decode_error site) (read_string sdk reader)"

definition legacy_read_big_integer :: "sdk \<Rightarrow> event_site \<Rightarrow> bytes \<Rightarrow> ingestion_error + string \<times> bytes" where
  "legacy_read_big_integer sdk site reader =
     ok_or (legacy_event_decode_error site) (map_option (map_prod show_int id) (read_big_integer sdk reader))"

definition legacy_read_var_uint :: "sdk \<Rightarrow> event_site \<Rightarrow> bytes \<Rightarrow> ingestion_error + nat \<times> bytes" where
  "legacy_read_var_uint sdk site reader = ok_or (legacy_event_decode_error site) (read_var_uint sdk reader)"

definition legacy_read_address :: "sdk \<Rightarrow> event_site \<Rightarrow> bytes \<Rightarrow> ingestion_error + string \<times> bytes" where
  "legacy_read_address sdk site reader =
     and_then (ok_or (legacy_event_decode_error site) (read_var_bytes sdk reader)) (\<lambda>(raw, rest).
       and_then (ok_or (legacy_event_decode_error site) (address_text sdk raw)) (\<lambda>text. Inr (text, rest)))"

definition legacy_assert_eof :: "sdk \<Rightarrow> event_site \<Rightarrow> bytes \<Rightarrow> ingestion_error + unit" where
  "legacy_assert_eof sdk site reader = (if at_eof sdk reader then Inr () else Inl (legacy_event_decode_error site))"

section \<open>Legacy event decoders\<close>

record legacy_token_event =
  te_token :: string
  te_value_raw :: string
  te_chain_name :: string

record legacy_gas_event =
  ge_address :: string
  ge_price :: string
  ge_amount :: string

record legacy_infusion_event =
  ie_base_token :: string
  ie_token_id :: string
  ie_infused_token :: string
  ie_infused_value :: string
  ie_chain_name :: string

record legacy_market_event =
  me_base_token :: string
  me_quote_token :: string
  me_market_id :: string
  me_price :: string
  me_end_price :: string
  me_kind :: string

definition decode_legacy_token_event :: "sdk \<Rightarrow> event_site \<Rightarrow> string \<Rightarrow> ingestion_error + legacy_token_event" where
  "decode_legacy_token_event sdk site raw_data =
     and_then (decode_legacy_event_bytes sdk site raw_data) (\<lambda>r0.
     and_then (legacy_read_string sdk site r0) (\<lambda>(token, r1).
     and_then (legacy_read_big_integer sdk site r1) (\<lambda>(value_raw, r2).
     and_then (legacy_read_string sdk site r2) (\<lambda>(chain_name, r3).
     and_then (legacy_assert_eof sdk site r3) (\<lambda>_.
       Inr \<lparr>te_token = token, te_value_raw = value_raw, te_chain_name = chain_name\<rparr>)))))"

definition decode_legacy_infusion_event :: "sdk \<Rightarrow> event_site \<Rightarrow> string \<Rightarrow> ingestion_error + legacy_infusion_event" where
  "decode_legacy_infusion_event sdk site raw_data =
     and_then (decode_legacy_event_bytes sdk site raw_data) (\<lambda>r0.
     and_then (legacy_read_string sdk site r0) (\<lambda>(base_token, r1).
     and_then (legacy_read_big_integer sdk site r1) (\<lambda>(token_id, r2).
     and_then (legacy_read_string sdk site r2) (\<lambda>(infused_token, r3).
     and_then (legacy_read_big_integer sdk site r3) (\<lambda>(infused_value, r4).
     and_then (legacy_read_string sdk site r4) (\<lambda>(chain_name, r5).
     and_then (legacy_assert_eof sdk site r5) (\<lambda>_.
       Inr \<lparr>ie_base_token = base_token, ie_token_id = token_id, ie_infused_token = infused_token,
            ie_infused_value = infused_value, ie_chain_name = chain_name\<rparr>)))))))"

fun market_kind_name :: "nat \<Rightarrow> string option" where
  "market_kind_name n = (if n = 0 then Some ''Fixed'' else if n = 1 then Some ''Classic''
     else if n = 2 then Some ''Reserve'' else if n = 3 then Some ''Dutch'' else None)"

definition decode_legacy_market_event :: "sdk \<Rightarrow> event_site \<Rightarrow> string \<Rightarrow> ingestion_error + legacy_market_event" where
  "decode_legacy_market_event sdk site raw_data =
     and_then (decode_legacy_event_bytes sdk site raw_data) (\<lambda>r0.
     and_then (legacy_read_string sdk site r0) (\<lambda>(base_token, r1).
     and_then (legacy_read_string sdk site r1) (\<lambda>(quote_token, r2).
     and_then (legacy_read_big_integer sdk site r2) (\<lambda>(market_id, r3).
     and_then (legacy_read_big_integer sdk site r3) (\<lambda>(price, r4).
     and_then (legacy_read_big_integer sdk site r4) (\<lambda>(end_price, r5).
     and_then (legacy_read_var_uint sdk site r5) (\<lambda>(kind, r6).
     and_then (ok_or (legacy_event_decode_error site) (market_kind_name kind)) (\<lambda>kind_name.
     and_then (legacy_assert_eof sdk site r6) (\<lambda>_.
       Inr \<lparr>me_base_token = base_token, me_quote_token = quote_token, me_market_id = market_id, me_price = price,
            me_end_price = end_price, me_kind = kind_name\<rparr>)))))))))"

definition decode_legacy_string_event :: "sdk \<Rightarrow> event_site \<Rightarrow> string \<Rightarrow> ingestion_error + string" where
  "decode_legacy_string_event sdk site raw_data =
     and_then (decode_legacy_event_bytes sdk site raw_data) (\<lambda>r0.
     and_then (legacy_read_string sdk site r0) (\<lambda>(text, r1).
     and_then (legacy_assert_eof sdk site r1) (\<lambda>_. Inr text)))"

definition decode_legacy_gas_event :: "sdk \<Rightarrow> event_site \<Rightarrow> string \<Rightarrow> ingestion_error + legacy_gas_event" where
  "decode_legacy_gas_event sdk site raw_data =
     and_then (decode_legacy_event_bytes sdk site raw_data) (\<lambda>r0.
     and_then (legacy_read_address sdk site r0) (\<lambda>(address, r1).
     and_then (legacy_read_big_integer sdk site r1) (\<lambda>(price, r2).
     and_then (legacy_read_big_integer sdk site r2) (\<lambda>(amount, r3).
     and_then (legacy_assert_eof sdk site r3) (\<lambda>_.
       Inr \<lparr>ge_address = address, ge_price = price, ge_amount = amount\<rparr>)))))"

definition decode_carbon_event :: "sdk \<Rightarrow> (bytes \<Rightarrow> 'a option) \<Rightarrow> event_site \<Rightarrow> string \<Rightarrow> ingestion_error + 'a" where
  "decode_carbon_event sdk deserialize site raw_data =
     and_then (decode_legacy_event_bytes sdk site raw_data) (\<lambda>b. ok_or (legacy_event_decode_error site) (deserialize b))"

definition decode_carbon_event_or_default ::
    "sdk \<Rightarrow> (bytes \<Rightarrow> 'a option) \<Rightarrow> 'a \<Rightarrow> event_site \<Rightarrow> string \<Rightarrow> 'a" where
  "decode_carbon_event_or_default sdk deserialize fallback site raw_data =
     (case decode_carbon_event sdk deserialize site raw_data of Inr v \<Rightarrow> v | Inl _ \<Rightarrow> fallback)"

section \<open>Event kinds\<close>

definition is_legacy_token_event_kind :: "string \<Rightarrow> bool" where
  "is_legacy_token_event_kind kind \<longleftrightarrow>
     kind \<in> {''TokenMint'', ''TokenClaim'', ''TokenBurn'', ''TokenSend'', ''TokenReceive'', ''TokenStake'',
             ''CrownRewards'', ''Inflation''}"

definition is_legacy_market_event_kind :: "string \<Rightarrow> bool" where
  "is_legacy_market_event_kind kind \<longleftrightarrow>
     kind \<in> {''OrderCancelled'', ''OrderClosed'', ''OrderCreated'', ''OrderFilled'', ''OrderBid''}"

definition is_legacy_string_event_kind :: "string \<Rightarrow> bool" where
  "is_legacy_string_event_kind kind \<longleftrightarrow>
     kind \<in> {''ChainCreate'', ''ContractUpgrade'', ''AddressRegister'', ''ContractDeploy'', ''PlatformCreate'',
             ''OrganizationCreate'', ''Log'', ''AddressUnregister''}"

definition legacy_event_kind_name :: "sdk_event \<Rightarrow> string" where
  "legacy_event_kind_name event =
     unwrap_or (or_else (non_empty_string (ev_kind event)) (non_empty_string (ev_name event))) ''Unknown''"

definition is_numeric_legacy_event_kind :: "string \<Rightarrow> bool" where
  "is_numeric_legacy_event_kind kind \<longleftrightarrow> kind \<noteq> [] \<and> list_all is_ascii_digit kind"

definition normalize_legacy_event_address :: "string \<Rightarrow> string" where
  "normalize_legacy_event_address address =
     (let trimmed = trim address in
      if trimmed = [] \<or> eq_ignore_ascii_case trimmed ''[Null address]'' then ''NULL'' else trimmed)"

section \<open>Extended payloads\<close>

definition special_resolution_payload :: "event_data \<Rightarrow> special_resolution_data option" where
  "special_resolution_payload data =
     (case data of SpecialResolutionData r \<Rightarrow> if resolution_id r \<noteq> 0 then Some r else None | _ \<Rightarrow> None)"

definition token_create_payload :: "event_data \<Rightarrow> token_create_data option" where
  "token_create_payload data =
     (case data of TokenCreateData t \<Rightarrow> if tc_symbol t \<noteq> [] then Some t else None | _ \<Rightarrow> None)"

definition token_series_create_payload :: "event_data \<Rightarrow> token_series_create_data option" where
  "token_series_create_payload data =
     (case data of TokenSeriesCreateData s \<Rightarrow> if tsc_symbol s \<noteq> [] \<and> tsc_owner s \<noteq> [] then Some s else None
      | _ \<Rightarrow> None)"

definition token_mint_payload :: "event_data \<Rightarrow> json option" where
  "token_mint_payload data =
     (case data of
        UnknownData j \<Rightarrow>
          if Option.bind (json_get ''symbol'' j) json_as_str \<noteq> None \<and> json_get ''tokenId'' j \<noteq> None
             \<and> json_get ''mintNumber'' j \<noteq> None \<and> json_get ''carbonTokenId'' j \<noteq> None
             \<and> json_get ''carbonSeriesId'' j \<noteq> None \<and> json_get ''carbonInstanceId'' j \<noteq> None
          then Some j else None
      | _ \<Rightarrow> None)"

abbreviation ex_kind_is :: "string \<Rightarrow> sdk_event_ex \<Rightarrow> bool" where
  "ex_kind_is kind event \<equiv> eq_ignore_ascii_case (ex_kind event) kind"

fun find_map :: "('a \<Rightarrow> 'b option) \<Rightarrow> 'a list \<Rightarrow> 'b option" where
  "find_map f [] = None"
| "find_map f (x # xs) = (case f x of Some y \<Rightarrow> Some y | None \<Rightarrow> find_map f xs)"

definition token_create_payload_from_extended_events :: "sdk_event_ex list \<Rightarrow> token_create_data option" where
  "token_create_payload_from_extended_events events =
     Option.bind (find (ex_kind_is ''TokenCreate'') events) (\<lambda>e. token_create_payload (ex_data e))"

record tx_context =
  ctx_special_resolution :: "special_resolution_data option"
  ctx_token_create :: "token_create_data option"
  ctx_token_create_consumed :: bool
  ctx_token_series_create :: "token_series_create_data option"
  ctx_token_mint :: "json option"

definition context_from_transaction :: "sdk_transaction \<Rightarrow> tx_context" where
  "context_from_transaction tx =
     (let events = tx_extended_events tx in
      \<lparr>ctx_special_resolution = find_map (\<lambda>e. special_resolution_payload (ex_data e))
         (filter (ex_kind_is ''SpecialResolution'') events),
       ctx_token_create = token_create_payload_from_extended_events events,
       ctx_token_create_consumed = False,
       ctx_token_series_create = Option.bind (find (ex_kind_is ''TokenSeriesCreate'') events)
         (\<lambda>e. token_series_create_payload (ex_data e)),
       ctx_token_mint = Option.bind (find (ex_kind_is ''TokenMint'') events) (\<lambda>e. token_mint_payload (ex_data e))\<rparr>)"

definition take_token_create_for_event :: "tx_context \<Rightarrow> token_create_data option \<times> tx_context" where
  "take_token_create_for_event ctx =
     (case ctx_token_create ctx of
        None \<Rightarrow> (None, ctx)
      | Some token_create \<Rightarrow>
          if ctx_token_create_consumed ctx then (None, ctx)
          else (Some token_create, ctx\<lparr>ctx_token_create_consumed := True\<rparr>))"

section \<open>One event\<close>

definition LEGACY_UNLIMITED_GAS_RAW :: string where
  "LEGACY_UNLIMITED_GAS_RAW = ''18446744073709551615''"

record transaction_record =
  tr_id :: int
  tr_block_id :: int
  tr_chain_id :: int
  tr_tx_index :: int
  tr_hash :: string
  tr_timestamp :: int
  tr_state :: string
  tr_result :: "string option"
  tr_debug_comment :: "string option"
  tr_payload :: "string option"
  tr_script_raw :: "string option"
  tr_fee_raw :: "string option"
  tr_gas_price_raw :: "string option"
  tr_gas_limit_raw :: "string option"
  tr_sender_id :: int
  tr_gas_payer_id :: int
  tr_gas_target_id :: int
  tr_carbon_tx_type :: "int option"
  tr_carbon_tx_data :: "string option"
  tr_expiration :: int

record event_upsert =
  eu_transaction_id :: int
  eu_chain_id :: int
  eu_event_index :: int
  eu_event_kind :: string
  eu_event_name :: "string option"
  eu_address :: "string option"
  eu_target_address :: "string option"
  eu_contract :: "string option"
  eu_token_id :: "string option"
  eu_raw_data :: "string option"
  eu_payload_format :: "string option"
  eu_payload_json :: "json option"
  eu_timestamp :: int
  eu_burned :: "bool option"

text \<open>The parts of an event row that depend on its kind.\<close>

record event_parts =
  ep_contract :: string
  ep_token_id :: "string option"
  ep_event_name :: "string option"
  ep_payload :: json

definition event_raw_data :: "string \<Rightarrow> sdk_event \<Rightarrow> string option" where
  "event_raw_data kind event =
     (if kind = ''TokenSeriesCreate'' \<and> ev_data event = [] then Some [] else non_empty_string (ev_data event))"

definition base_payload :: "string \<Rightarrow> string \<Rightarrow> json" where
  "base_payload kind contract = json_object [(''event_kind'', JString kind), (''contract'', JString contract)]"

definition token_event_parts ::
    "sdk \<Rightarrow> event_site \<Rightarrow> tx_context \<Rightarrow> event_parts \<Rightarrow> string \<Rightarrow> ingestion_error + event_parts" where
  "token_event_parts sdk site ctx parts raw_data =
     map_ok (\<lambda>e.
       let payload = json_set ''token_event''
             (json_object [(''token'', JString (te_token e)), (''value'', JString (te_value_raw e)),
                (''value_raw'', JString (te_value_raw e)), (''chain_name'', JString (te_chain_name e))])
             (json_set ''token_id'' (JString (te_value_raw e)) (ep_payload parts));
           payload = (if site_kind site = ''TokenMint''
             then case ctx_token_mint ctx of
                    Some mint \<Rightarrow> if token_mint_payload_matches mint (te_token e) (te_value_raw e)
                      then json_set ''token_mint_extended'' (build_token_mint_extended_payload mint) payload else payload
                  | None \<Rightarrow> payload
             else payload)
       in parts\<lparr>ep_contract := te_token e, ep_token_id := Some (te_value_raw e), ep_payload := payload\<rparr>)
     (decode_legacy_token_event sdk site raw_data)"

definition infusion_event_parts :: "sdk \<Rightarrow> event_site \<Rightarrow> event_parts \<Rightarrow> string \<Rightarrow> ingestion_error + event_parts" where
  "infusion_event_parts sdk site parts raw_data =
     map_ok (\<lambda>e. parts\<lparr>ep_contract := ie_base_token e, ep_token_id := Some (ie_token_id e),
       ep_payload := json_set ''infusion_event''
         (json_object [(''token_id'', JString (ie_token_id e)), (''base_token'', JString (ie_base_token e)),
            (''infused_token'', JString (ie_infused_token e)), (''infused_value'', JString (ie_infused_value e))])
         (json_set ''token_id'' (JString (ie_token_id e)) (ep_payload parts))\<rparr>)
     (decode_legacy_infusion_event sdk site raw_data)"

definition market_event_parts :: "sdk \<Rightarrow> event_site \<Rightarrow> event_parts \<Rightarrow> string \<Rightarrow> ingestion_error + event_parts" where
  "market_event_parts sdk site parts raw_data =
     map_ok (\<lambda>e. parts\<lparr>ep_contract := me_base_token e, ep_token_id := Some (me_market_id e),
       ep_payload := json_set ''market_event''
         (json_object [(''base_token'', JString (me_base_token e)), (''quote_token'', JString (me_quote_token e)),
            (''market_event_kind'', JString (me_kind e)), (''market_id'', JString (me_market_id e)),
            (''price'', JString (me_price e)), (''end_price'', JString (me_end_price e))])
         (json_set ''token_id'' (JString (me_market_id e)) (ep_payload parts))\<rparr>)
     (decode_legacy_market_event sdk site raw_data)"

definition gas_event_parts :: "sdk \<Rightarrow> event_site \<Rightarrow> event_parts \<Rightarrow> string \<Rightarrow> ingestion_error + event_parts" where
  "gas_event_parts sdk site parts raw_data =
     map_ok (\<lambda>e.
       let gas = json_object [(''price'', JString (ge_price e)), (''address'', JString (ge_address e))];
           gas = (if ge_amount e \<noteq> LEGACY_UNLIMITED_GAS_RAW then json_set ''amount'' (JString (ge_amount e)) gas else gas)
       in parts\<lparr>ep_payload := json_set ''gas_event'' gas (ep_payload parts)\<rparr>)
     (decode_legacy_gas_event sdk site raw_data)"

definition string_event_parts :: "sdk \<Rightarrow> event_site \<Rightarrow> event_parts \<Rightarrow> string \<Rightarrow> ingestion_error + event_parts" where
  "string_event_parts sdk site parts raw_data =
     map_ok (\<lambda>s. parts\<lparr>ep_payload := json_set ''string_event'' (json_object [(''string_value'', JString s)]) (ep_payload parts)\<rparr>)
     (decode_legacy_string_event sdk site raw_data)"

definition if_raw :: "string option \<Rightarrow> event_parts \<Rightarrow> (string \<Rightarrow> ingestion_error + event_parts) \<Rightarrow> ingestion_error + event_parts" where
  "if_raw raw_data parts f = (case raw_data of None \<Rightarrow> Inr parts | Some r \<Rightarrow> f r)"

definition token_create_parts :: "tx_context \<Rightarrow> event_parts \<Rightarrow> event_parts \<times> tx_context" where
  "token_create_parts ctx parts =
     (case take_token_create_for_event ctx of
        (Some token_create, ctx') \<Rightarrow>
          (let payload = build_token_create_payload token_create
           in (parts\<lparr>ep_payload := json_set ''token_create_event'' payload (json_set ''token_create'' payload (ep_payload parts))\<rparr>, ctx'))
      | (None, ctx') \<Rightarrow> (parts, ctx'))"

definition token_series_parts :: "tx_context \<Rightarrow> event_parts \<Rightarrow> event_parts" where
  "token_series_parts ctx parts =
     (case ctx_token_series_create ctx of
        None \<Rightarrow> parts
      | Some series \<Rightarrow>
          (let parts = (case token_series_identity series of
                 None \<Rightarrow> parts
               | Some series_id \<Rightarrow> parts\<lparr>ep_token_id := Some series_id,
                                         ep_payload := json_set ''token_id'' (JString series_id) (ep_payload parts)\<rparr>)
           in parts\<lparr>ep_payload := json_set ''token_series_event'' (build_token_series_create_payload series) (ep_payload parts)\<rparr>))"

text \<open>The branches of \<open>event_to_projection\<close>, in their order.\<close>

definition event_parts_of ::
    "sdk \<Rightarrow> event_site \<Rightarrow> sdk_event \<Rightarrow> string option \<Rightarrow> tx_context \<Rightarrow> (ingestion_error + event_parts) \<times> tx_context" where
  "event_parts_of sdk site event raw_data ctx =
     (let kind = site_kind site;
          contract = unwrap_or (non_empty_string (ev_contract event)) ''unknown'';
          parts = \<lparr>ep_contract = contract, ep_token_id = None, ep_event_name = None, ep_payload = base_payload kind contract\<rparr>
      in if is_legacy_token_event_kind kind then (if_raw raw_data parts (token_event_parts sdk site ctx parts), ctx)
         else if kind = ''Infusion'' then (if_raw raw_data parts (infusion_event_parts sdk site parts), ctx)
         else if is_legacy_market_event_kind kind then (if_raw raw_data parts (market_event_parts sdk site parts), ctx)
         else if kind = ''GasEscrow'' \<or> kind = ''GasPayment'' then (if_raw raw_data parts (gas_event_parts sdk site parts), ctx)
         else if kind = ''GovernanceSetGasConfig'' then
           (if_raw raw_data parts (\<lambda>raw. Inr (parts\<lparr>ep_payload := json_set ''governance_gas_config_event''
              (build_governance_gas_config_payload
                 (decode_carbon_event_or_default sdk (gas_config_of sdk) (gas_config_default sdk) site raw)) (ep_payload parts)\<rparr>)), ctx)
         else if kind = ''GovernanceSetChainConfig'' then
           (if_raw raw_data parts (\<lambda>raw. Inr (parts\<lparr>ep_payload := json_set ''governance_chain_config_event''
              (build_governance_chain_config_payload
                 (decode_carbon_event_or_default sdk (chain_config_of sdk) (chain_config_default sdk) site raw)) (ep_payload parts)\<rparr>)), ctx)
         else if kind = ''SpecialResolution'' then
           (Inr (case ctx_special_resolution ctx of
                   None \<Rightarrow> parts
                 | Some r \<Rightarrow> parts\<lparr>ep_payload := json_set ''special_resolution_event''
                                 (build_special_resolution_payload r) (ep_payload parts)\<rparr>), ctx)
         else if kind = ''TokenCreate'' then (let (parts, ctx') = token_create_parts ctx parts in (Inr parts, ctx'))
         else if kind = ''TokenSeriesCreate'' then (Inr (token_series_parts ctx parts), ctx)
         else if is_legacy_string_event_kind kind then (if_raw raw_data parts (string_event_parts sdk site parts), ctx)
         else if kind \<in> {''Custom'', ''Custom_V2'', ''LeaderboardCreate'', ''ValidatorSwitch''} then
           (Inr (if kind = ''Custom_V2'' then parts\<lparr>ep_event_name := non_empty_string (ev_name event)\<rparr> else parts), ctx)
         else (Inr (parts\<lparr>ep_payload := json_object [(''contract'', JString (ev_contract event)), (''kind'', JString (ev_kind event)),
                   (''name'', JString (ev_name event)), (''data'', JString (ev_data event))]\<rparr>), ctx))"

definition event_index_to_i32 :: "event_site \<Rightarrow> ingestion_error + int" where
  "event_index_to_i32 site =
     (if int (site_event site) < 2 ^ 31 then Inr (int (site_event site))
      else Inl (EventFieldOutOfRange (site_height site) (site_tx site) ''legacy'' (site_event site) ''event_index''))"

text \<open>The stored index is one more, in 32-bit arithmetic.\<close>

definition i32_add :: "int \<Rightarrow> int \<Rightarrow> int" where
  "i32_add a b = ((a + b + 2 ^ 31) mod 2 ^ 32) - 2 ^ 31"

definition event_to_projection ::
    "sdk \<Rightarrow> nat \<Rightarrow> transaction_record \<Rightarrow> nat \<Rightarrow> nat \<Rightarrow> sdk_event \<Rightarrow> tx_context \<Rightarrow>
     (ingestion_error + event_upsert) \<times> tx_context" where
  "event_to_projection sdk height record tx_index event_index event ctx =
     (let kind = legacy_event_kind_name event;
          site = \<lparr>site_height = height, site_tx = tx_index, site_event = event_index, site_kind = kind\<rparr>;
          raw_data = event_raw_data kind event;
          (parts, ctx') = event_parts_of sdk site event raw_data ctx
      in (and_then parts (\<lambda>parts.
          and_then (event_index_to_i32 site) (\<lambda>index.
            Inr \<lparr>eu_transaction_id = tr_id record, eu_chain_id = tr_chain_id record, eu_event_index = i32_add index 1,
                 eu_event_kind = kind, eu_event_name = ep_event_name parts,
                 eu_address = Some (normalize_legacy_event_address (ev_address event)), eu_target_address = None,
                 eu_contract = Some (ep_contract parts), eu_token_id = ep_token_id parts, eu_raw_data = raw_data,
                 eu_payload_format = Some ''live.v1'', eu_payload_json = Some (ep_payload parts),
                 eu_timestamp = tr_timestamp record, eu_burned = None\<rparr>)), ctx'))"

section \<open>One transaction\<close>

record block_record =
  br_id :: int
  br_chain_id :: int
  br_chain :: string
  br_height :: int
  br_hash :: string
  br_protocol :: "int option"
  br_chain_address_id :: int
  br_chain_address :: "string option"
  br_validator_address_id :: int
  br_validator_address :: "string option"
  br_producer_address_id :: "int option"
  br_producer_address :: "string option"
  br_timestamp :: int
  br_reward :: "string option"

definition block_height_u64 :: "block_record \<Rightarrow> ingestion_error + nat" where
  "block_height_u64 block =
     (if 0 \<le> br_height block then Inr (nat (br_height block)) else Inl (BlockFieldOutOfRange 0 ''height''))"

text \<open>The loop over the legacy events; the accumulator holds the rows in order.\<close>

fun project_events ::
    "sdk \<Rightarrow> nat \<Rightarrow> transaction_record \<Rightarrow> nat \<Rightarrow> nat \<Rightarrow> sdk_event list \<Rightarrow> tx_context \<Rightarrow> event_upsert list \<Rightarrow>
     ingestion_error + event_upsert list \<times> tx_context" where
  "project_events sdk height record tx_index event_index [] ctx rows = Inr (rows, ctx)"
| "project_events sdk height record tx_index event_index (event # events) ctx rows =
     (if is_numeric_legacy_event_kind (legacy_event_kind_name event)
      then project_events sdk height record tx_index (event_index + 1) events ctx rows
      else case event_to_projection sdk height record tx_index event_index event ctx of
             (Inl e, _) \<Rightarrow> Inl e
           | (Inr row, ctx') \<Rightarrow> project_events sdk height record tx_index (event_index + 1) events ctx' (rows @ [row]))"

definition has_legacy_kind :: "string \<Rightarrow> sdk_event list \<Rightarrow> bool" where
  "has_legacy_kind kind events \<longleftrightarrow> list_ex (\<lambda>e. eq_ignore_ascii_case (legacy_event_kind_name e) kind) events"

fun le_bytes :: "nat \<Rightarrow> nat \<Rightarrow> bytes" where
  "le_bytes 0 v = []"
| "le_bytes (Suc n) v = v mod 256 # le_bytes n (v div 256)"

definition special_resolution_raw_data :: "sdk \<Rightarrow> special_resolution_data \<Rightarrow> string" where
  "special_resolution_raw_data sdk data = encode_hex_upper sdk (le_bytes 8 (resolution_id data))"

definition special_resolution_event :: "sdk \<Rightarrow> sdk_transaction \<Rightarrow> special_resolution_data \<Rightarrow> sdk_event" where
  "special_resolution_event sdk tx r =
     \<lparr>ev_address = tx_gas_payer tx, ev_contract = ''governance'', ev_kind = ''SpecialResolution'',
      ev_name = ''SpecialResolution'', ev_data = special_resolution_raw_data sdk r\<rparr>"

definition token_series_event :: "sdk_transaction \<Rightarrow> token_series_create_data \<Rightarrow> sdk_event" where
  "token_series_event tx s =
     \<lparr>ev_address = unwrap_or (non_empty_string (tsc_owner s)) (tx_gas_payer tx),
      ev_contract = unwrap_or (non_empty_string (tsc_symbol s)) ''token'',
      ev_kind = ''TokenSeriesCreate'', ev_name = ''TokenSeriesCreate'', ev_data = []\<rparr>"

definition synthetic_events :: "sdk \<Rightarrow> sdk_transaction \<Rightarrow> tx_context \<Rightarrow> sdk_event list" where
  "synthetic_events sdk tx ctx =
     (case ctx_special_resolution ctx of
        Some r \<Rightarrow> if has_legacy_kind ''SpecialResolution'' (tx_events tx) then [] else [special_resolution_event sdk tx r]
      | None \<Rightarrow> [])
     @ (case ctx_token_series_create ctx of
          Some s \<Rightarrow> if has_legacy_kind ''TokenSeriesCreate'' (tx_events tx) then [] else [token_series_event tx s]
        | None \<Rightarrow> [])"

definition transaction_events_to_projections ::
    "sdk \<Rightarrow> block_record \<Rightarrow> transaction_record \<Rightarrow> nat \<Rightarrow> sdk_transaction \<Rightarrow> ingestion_error + event_upsert list" where
  "transaction_events_to_projections sdk block record tx_index tx =
     and_then (block_height_u64 block) (\<lambda>height.
     and_then (project_events sdk height record tx_index 0 (tx_events tx) (context_from_transaction tx) []) (\<lambda>(rows, ctx).
     and_then (project_events sdk height record tx_index (length (tx_events tx)) (synthetic_events sdk tx ctx) ctx rows)
       (\<lambda>(rows, _). Inr rows)))"

section \<open>Shape of the payloads\<close>

definition obj_keys :: "json \<Rightarrow> string set" where
  "obj_keys j = set (json_keys j)"

definition is_obj :: "json \<Rightarrow> bool" where
  "is_obj j \<longleftrightarrow> (\<exists>m. j = JObject m \<and> sorted_map m)"

lemma is_obj_set [simp]: "is_obj j \<Longrightarrow> is_obj (json_set k v j)"
  by (auto simp: is_obj_def)

lemma obj_keys_set [simp]: "is_obj j \<Longrightarrow> obj_keys (json_set k v j) = insert k (obj_keys j)"
  using set_map_insert_keys [of k v] by (auto simp: is_obj_def obj_keys_def)

lemma json_get_set [simp]: "is_obj j \<Longrightarrow> json_get k' (json_set k v j) = (if k' = k then Some v else json_get k' j)"
  by (auto simp: is_obj_def map_of_insert)

lemma is_obj_object [simp]: "is_obj (json_object es)"
  by (simp add: is_obj_def)

lemma obj_keys_object [simp]: "obj_keys (json_object es) = fst ` set es"
proof -
  have "set (map fst (fold (\<lambda>(k, v). map_insert k v) es m)) = set (map fst m) \<union> fst ` set es" for m :: "json str_map"
  proof (induction es arbitrary: m)
    case (Cons e es)
    then show ?case using set_map_insert_keys [of "fst e" "snd e" m] by (cases e) auto
  qed simp
  from this [of "[]"] show ?thesis by (simp add: obj_keys_def map_collect_def)
qed

lemma json_get_None: "is_obj j \<Longrightarrow> k \<notin> obj_keys j \<Longrightarrow> json_get k j = None"
  by (auto simp: is_obj_def obj_keys_def map_of_eq_None_iff)

text \<open>The keys an event payload may have at its top level.\<close>

definition payload_keys :: "string set" where
  "payload_keys =
     {''event_kind'', ''contract'', ''token_id'', ''token_event'', ''token_mint_extended'', ''infusion_event'', ''market_event'',
      ''gas_event'', ''governance_gas_config_event'', ''governance_chain_config_event'', ''special_resolution_event'',
      ''token_series_event'', ''string_event'', ''kind'', ''name'', ''data''}"

definition plain :: "json \<Rightarrow> bool" where
  "plain j \<longleftrightarrow> is_obj j \<and> obj_keys j \<subseteq> payload_keys"

lemma plain_set: "plain j \<Longrightarrow> k \<in> payload_keys \<Longrightarrow> plain (json_set k v j)"
  by (simp add: plain_def)

lemma plain_keys:
  "''token_id'' \<in> payload_keys" "''token_event'' \<in> payload_keys" "''token_mint_extended'' \<in> payload_keys"
  "''infusion_event'' \<in> payload_keys" "''market_event'' \<in> payload_keys" "''gas_event'' \<in> payload_keys"
  "''governance_gas_config_event'' \<in> payload_keys" "''governance_chain_config_event'' \<in> payload_keys"
  "''special_resolution_event'' \<in> payload_keys" "''token_series_event'' \<in> payload_keys" "''string_event'' \<in> payload_keys"
  by (simp_all add: payload_keys_def)

lemmas plain_sets [intro] = plain_keys [THEN plain_set [rotated]]

lemma event_kind_parts_plain:
  assumes "plain (ep_payload parts)"
  shows "token_event_parts sdk site ctx parts raw = Inr p \<Longrightarrow> plain (ep_payload p)"
    "infusion_event_parts sdk site parts raw = Inr p \<Longrightarrow> plain (ep_payload p)"
    "market_event_parts sdk site parts raw = Inr p \<Longrightarrow> plain (ep_payload p)"
    "gas_event_parts sdk site parts raw = Inr p \<Longrightarrow> plain (ep_payload p)"
    "string_event_parts sdk site parts raw = Inr p \<Longrightarrow> plain (ep_payload p)"
    "plain (ep_payload (token_series_parts ctx parts))"
proof -
  show "plain (ep_payload p)" if "token_event_parts sdk site ctx parts raw = Inr p"
    using that assms unfolding token_event_parts_def map_ok_eq_Inr Let_def
    by (elim exE conjE) (cases "ctx_token_mint ctx"; cases "site_kind site = ''TokenMint''"; simp; intro conjI impI plain_sets; assumption)
  show "plain (ep_payload p)" if "infusion_event_parts sdk site parts raw = Inr p"
    using that assms unfolding infusion_event_parts_def map_ok_eq_Inr by (elim exE conjE) (simp add: plain_sets)
  show "plain (ep_payload p)" if "market_event_parts sdk site parts raw = Inr p"
    using that assms unfolding market_event_parts_def map_ok_eq_Inr by (elim exE conjE) (simp add: plain_sets)
  show "plain (ep_payload p)" if "gas_event_parts sdk site parts raw = Inr p"
    using that assms unfolding gas_event_parts_def map_ok_eq_Inr Let_def by (elim exE conjE) (simp add: plain_sets)
  show "plain (ep_payload p)" if "string_event_parts sdk site parts raw = Inr p"
    using that assms unfolding string_event_parts_def map_ok_eq_Inr by (elim exE conjE) (simp add: plain_sets)
  show "plain (ep_payload (token_series_parts ctx parts))"
    using assms unfolding token_series_parts_def Let_def by (simp add: plain_sets split: option.split)
qed

lemma if_raw_plain:
  "if_raw raw parts f = Inr p \<Longrightarrow> plain (ep_payload parts) \<Longrightarrow> plain (ep_payload p) \<or> (\<exists>r. f r = Inr p)"
  by (auto simp: if_raw_def split: option.splits)

text \<open>The parts of an event, by kind: plain unless the event takes the token creation of its transaction.\<close>

definition takes_token_create :: "string \<Rightarrow> tx_context \<Rightarrow> bool" where
  "takes_token_create kind ctx \<longleftrightarrow>
     kind = ''TokenCreate'' \<and> ctx_token_create ctx \<noteq> None \<and> \<not> ctx_token_create_consumed ctx"

lemma other_parts_plain:
  assumes "event_parts_of sdk site event raw ctx = (Inr parts, ctx')" "site_kind site \<noteq> ''TokenCreate''"
  shows "plain (ep_payload parts)" "ctx' = ctx"
proof -
  have base: "plain (ep_payload \<lparr>ep_contract = c, ep_token_id = None, ep_event_name = n, ep_payload = base_payload kind c\<rparr>)"
    for kind c n by (simp add: plain_def base_payload_def payload_keys_def)
  have raw: "plain (json_object [(''contract'', JString (ev_contract event)), (''kind'', JString (ev_kind event)),
      (''name'', JString (ev_name event)), (''data'', JString (ev_data event))])"
    by (simp add: plain_def payload_keys_def)
  note parts = event_kind_parts_plain [OF base]
  have "plain (ep_payload parts) \<and> ctx' = ctx"
    using assms unfolding event_parts_of_def Let_def
    by (simp only: split: if_split_asm)
       (auto simp: raw base [simplified] parts(6) split: option.splits if_splits
         intro!: plain_sets base [simplified] dest!: if_raw_plain [OF _ base] dest: parts(1-5))
  then show "plain (ep_payload parts)" "ctx' = ctx" by blast+
qed

definition stored_payload :: "json \<Rightarrow> bool" where
  "stored_payload j \<longleftrightarrow> is_obj j \<and> obj_keys j \<subseteq> {''token_create'', ''token_create_event''} \<union> payload_keys"

lemma plain_stored: "plain j \<Longrightarrow> stored_payload j \<and> json_get ''token_create'' j = None"
proof -
  assume p: "plain j"
  have "''token_create'' \<notin> payload_keys" by (simp add: payload_keys_def)
  with p have "json_get ''token_create'' j = None" by (intro json_get_None) (auto simp: plain_def)
  with p show ?thesis by (auto simp: plain_def stored_payload_def)
qed

definition consume :: "string \<Rightarrow> tx_context \<Rightarrow> tx_context" where
  "consume kind ctx = (if takes_token_create kind ctx then ctx\<lparr>ctx_token_create_consumed := True\<rparr> else ctx)"

definition token_create_of :: "string \<Rightarrow> tx_context \<Rightarrow> json option" where
  "token_create_of kind ctx =
     (if takes_token_create kind ctx then map_option build_token_create_payload (ctx_token_create ctx) else None)"

lemma event_parts_shape:
  assumes "event_parts_of sdk site event raw ctx = (Inr parts, ctx')"
  shows "stored_payload (ep_payload parts)" "ctx' = consume (site_kind site) ctx"
    "json_get ''token_create'' (ep_payload parts) = token_create_of (site_kind site) ctx"
proof -
  have "stored_payload (ep_payload parts) \<and> ctx' = consume (site_kind site) ctx
      \<and> json_get ''token_create'' (ep_payload parts) = token_create_of (site_kind site) ctx"
  proof (cases "site_kind site = ''TokenCreate''")
    case True
    have base: "plain (base_payload ''TokenCreate'' c)" for c by (simp add: plain_def base_payload_def payload_keys_def)
    have tc: "\<not> is_legacy_token_event_kind ''TokenCreate''" "\<not> is_legacy_market_event_kind ''TokenCreate''"
      by (simp_all add: is_legacy_token_event_kind_def is_legacy_market_event_kind_def)
    have obj: "is_obj (base_payload ''TokenCreate'' c)" "obj_keys (base_payload ''TokenCreate'' c) \<subseteq> payload_keys" for c
      using base [of c] by (simp_all add: plain_def)
    define c where "c = unwrap_or (non_empty_string (ev_contract event)) ''unknown''"
    define base_parts where "base_parts = \<lparr>ep_contract = c, ep_token_id = None, ep_event_name = None,
      ep_payload = base_payload ''TokenCreate'' c\<rparr>"
    have eq: "event_parts_of sdk site event raw ctx = (let (parts, ctx') = token_create_parts ctx base_parts in (Inr parts, ctx'))"
      unfolding event_parts_of_def Let_def True c_def [symmetric] base_parts_def using tc by simp
    have payload: "ep_payload base_parts = base_payload ''TokenCreate'' c" by (simp add: base_parts_def)
    show ?thesis
    proof (cases "takes_token_create ''TokenCreate'' ctx")
      case takes: True
      then obtain t where t: "ctx_token_create ctx = Some t" "\<not> ctx_token_create_consumed ctx"
        by (auto simp: takes_token_create_def)
      with assms eq have "ep_payload parts = json_set ''token_create_event'' (build_token_create_payload t)
          (json_set ''token_create'' (build_token_create_payload t) (base_payload ''TokenCreate'' c))"
          "ctx' = ctx\<lparr>ctx_token_create_consumed := True\<rparr>"
        by (auto simp: token_create_parts_def take_token_create_for_event_def Let_def payload)
      with t takes obj [of c] True show ?thesis by (auto simp: consume_def token_create_of_def stored_payload_def)
    next
      case takes: False
      with assms eq have "parts = base_parts" "ctx' = ctx"
        by (auto simp: token_create_parts_def take_token_create_for_event_def takes_token_create_def split: option.splits)
      with takes True plain_stored [OF base, of c] show ?thesis by (simp add: consume_def token_create_of_def payload)
    qed
  next
    case False
    with other_parts_plain [OF assms False] plain_stored [of "ep_payload parts"] show ?thesis
      by (simp add: consume_def token_create_of_def takes_token_create_def)
  qed
  then show "stored_payload (ep_payload parts)" "ctx' = consume (site_kind site) ctx"
    "json_get ''token_create'' (ep_payload parts) = token_create_of (site_kind site) ctx" by blast+
qed

text \<open>What a row owes its event.\<close>

definition row_of :: "transaction_record \<Rightarrow> nat \<times> sdk_event \<Rightarrow> event_upsert \<Rightarrow> bool" where
  "row_of record ie row \<longleftrightarrow>
     fst ie < 2 ^ 31 \<and> eu_event_index row = i32_add (int (fst ie)) 1
     \<and> eu_event_kind row = legacy_event_kind_name (snd ie)
     \<and> eu_address row = Some (normalize_legacy_event_address (ev_address (snd ie)))
     \<and> eu_transaction_id row = tr_id record \<and> eu_chain_id row = tr_chain_id record
     \<and> eu_timestamp row = tr_timestamp record \<and> eu_payload_format row = Some ''live.v1''
     \<and> (\<exists>j. eu_payload_json row = Some j \<and> stored_payload j)"

definition row_token_create :: "event_upsert \<Rightarrow> json option" where
  "row_token_create row = Option.bind (eu_payload_json row) (json_get ''token_create'')"

lemma event_to_projection_row:
  assumes "event_to_projection sdk height record tx_index i event ctx = (Inr row, ctx')"
  shows "row_of record (i, event) row" "ctx' = consume (legacy_event_kind_name event) ctx"
    "row_token_create row = token_create_of (legacy_event_kind_name event) ctx"
proof -
  let ?kind = "legacy_event_kind_name event"
  let ?site = "\<lparr>site_height = height, site_tx = tx_index, site_event = i, site_kind = ?kind\<rparr>"
  obtain p c where p: "event_parts_of sdk ?site event (event_raw_data ?kind event) ctx = (p, c)" by force
  with assms obtain parts index where parts: "p = Inr parts" "event_index_to_i32 ?site = Inr index" "ctx' = c"
      and row: "row = \<lparr>eu_transaction_id = tr_id record, eu_chain_id = tr_chain_id record, eu_event_index = i32_add index 1,
        eu_event_kind = ?kind, eu_event_name = ep_event_name parts,
        eu_address = Some (normalize_legacy_event_address (ev_address event)), eu_target_address = None,
        eu_contract = Some (ep_contract parts), eu_token_id = ep_token_id parts, eu_raw_data = event_raw_data ?kind event,
        eu_payload_format = Some ''live.v1'', eu_payload_json = Some (ep_payload parts),
        eu_timestamp = tr_timestamp record, eu_burned = None\<rparr>"
    by (auto simp: event_to_projection_def Let_def result_eqs)
  note shape = event_parts_shape [OF p [unfolded parts(1)]]
  show "row_of record (i, event) row"
    using shape(1) parts(2) by (auto simp: row_of_def row event_index_to_i32_def split: if_splits)
  show "ctx' = consume ?kind ctx" "row_token_create row = token_create_of ?kind ctx"
    using shape parts(3) by (simp_all add: row row_token_create_def)
qed

section \<open>Rows of a transaction\<close>

abbreviation kept_events :: "nat \<Rightarrow> sdk_event list \<Rightarrow> (nat \<times> sdk_event) list" where
  "kept_events i events \<equiv> filter (\<lambda>ie. \<not> is_numeric_legacy_event_kind (legacy_event_kind_name (snd ie))) (enumerate i events)"

definition token_creates :: "event_upsert list \<Rightarrow> event_upsert list" where
  "token_creates rows = filter (\<lambda>r. eu_event_kind r = ''TokenCreate'') rows"

definition frame :: "tx_context \<Rightarrow> tx_context \<Rightarrow> bool" where
  "frame ctx ctx' \<longleftrightarrow> ctx' = ctx\<lparr>ctx_token_create_consumed := ctx_token_create_consumed ctx'\<rparr>"

lemma project_events_rows:
  assumes "project_events sdk height record tx_index i events ctx rows = Inr (rows', ctx')"
  shows "\<exists>new. rows' = rows @ new \<and> list_all2 (\<lambda>row ie. row_of record ie row) new (kept_events i events)
    \<and> frame ctx ctx'
    \<and> ctx_token_create_consumed ctx' = (ctx_token_create_consumed ctx \<or> ctx_token_create ctx \<noteq> None \<and> token_creates new \<noteq> [])
    \<and> filter (\<lambda>r. row_token_create r \<noteq> None) new =
        (if ctx_token_create_consumed ctx \<or> ctx_token_create ctx = None then [] else take 1 (token_creates new))"
  using assms
proof (induction sdk height "record" tx_index i events ctx rows rule: project_events.induct)
  case (1 sdk height rec tx_index i ctx rows)
  then show ?case by (auto simp: frame_def token_creates_def)
next
  case (2 sdk height rec tx_index i event events ctx rows)
  let ?kind = "legacy_event_kind_name event"
  show ?case
  proof (cases "is_numeric_legacy_event_kind ?kind")
    case True
    with 2 show ?thesis by simp
  next
    case False
    then obtain row c where p: "event_to_projection sdk height rec tx_index i event ctx = (Inr row, c)"
      using "2.prems" by (auto split: prod.splits sum.splits)
    note row = event_to_projection_row [OF p]
    have "project_events sdk height rec tx_index (i + 1) events c (rows @ [row]) = Inr (rows', ctx')"
      using "2.prems" False p by simp
    from "2.IH"(2) [OF False p [symmetric] refl this] obtain new where new: "rows' = (rows @ [row]) @ new"
        "list_all2 (\<lambda>row ie. row_of rec ie row) new (kept_events (i + 1) events)" "frame c ctx'"
        "ctx_token_create_consumed ctx' = (ctx_token_create_consumed c \<or> ctx_token_create c \<noteq> None \<and> token_creates new \<noteq> [])"
        "filter (\<lambda>r. row_token_create r \<noteq> None) new =
          (if ctx_token_create_consumed c \<or> ctx_token_create c = None then [] else take 1 (token_creates new))" by blast
    have k: "eu_event_kind row = ?kind" using row(1) by (simp add: row_of_def)
    have c: "c = consume ?kind ctx" by (rule row(2))
    have "frame ctx ctx'" using new(3) c by (simp add: frame_def consume_def split: if_splits)
    moreover have "list_all2 (\<lambda>row ie. row_of rec ie row) (row # new) (kept_events i (event # events))"
      using new(2) row(1) False by simp
    moreover have "ctx_token_create_consumed ctx' = (ctx_token_create_consumed ctx \<or> ctx_token_create ctx \<noteq> None \<and> token_creates (row # new) \<noteq> [])"
      using new(4) k by (auto simp: c consume_def takes_token_create_def token_creates_def)
    moreover have "filter (\<lambda>r. row_token_create r \<noteq> None) (row # new) =
        (if ctx_token_create_consumed ctx \<or> ctx_token_create ctx = None then [] else take 1 (token_creates (row # new)))"
      using new(5) k row(3) by (auto simp: c consume_def takes_token_create_def token_create_of_def token_creates_def)
    ultimately show ?thesis using new(1) by (intro exI [of _ "row # new"]) simp
  qed
qed

section \<open>Errors\<close>

lemma ok_or_eq: "ok_or e x = Inl e' \<longleftrightarrow> x = None \<and> e' = e" "ok_or e x = Inr v \<longleftrightarrow> x = Some v"
  by (cases x; auto)+

text \<open>Every decoder failure is the error of the event's own site.\<close>

lemma reader_errors:
  "decode_legacy_event_bytes sdk site raw = Inl e \<Longrightarrow> e = legacy_event_decode_error site"
  "legacy_read_string sdk site r = Inl e \<Longrightarrow> e = legacy_event_decode_error site"
  "legacy_read_big_integer sdk site r = Inl e \<Longrightarrow> e = legacy_event_decode_error site"
  "legacy_read_var_uint sdk site r = Inl e \<Longrightarrow> e = legacy_event_decode_error site"
  "legacy_read_address sdk site r = Inl e \<Longrightarrow> e = legacy_event_decode_error site"
  "legacy_assert_eof sdk site r = Inl e \<Longrightarrow> e = legacy_event_decode_error site"
  by (auto simp: decode_legacy_event_bytes_def legacy_read_string_def legacy_read_big_integer_def legacy_read_var_uint_def
      legacy_read_address_def legacy_assert_eof_def ok_or_eq result_eqs split: if_splits)

lemma decoder_errors:
  "decode_legacy_token_event sdk site raw = Inl e \<Longrightarrow> e = legacy_event_decode_error site"
  "decode_legacy_infusion_event sdk site raw = Inl e \<Longrightarrow> e = legacy_event_decode_error site"
  "decode_legacy_market_event sdk site raw = Inl e \<Longrightarrow> e = legacy_event_decode_error site"
  "decode_legacy_string_event sdk site raw = Inl e \<Longrightarrow> e = legacy_event_decode_error site"
  "decode_legacy_gas_event sdk site raw = Inl e \<Longrightarrow> e = legacy_event_decode_error site"
  by (auto simp: decode_legacy_token_event_def decode_legacy_infusion_event_def decode_legacy_market_event_def
      decode_legacy_string_event_def decode_legacy_gas_event_def result_eqs ok_or_eq dest: reader_errors)

definition decoded_kind :: "string \<Rightarrow> bool" where
  "decoded_kind kind \<longleftrightarrow> is_legacy_token_event_kind kind \<or> kind = ''Infusion'' \<or> is_legacy_market_event_kind kind
     \<or> kind = ''GasEscrow'' \<or> kind = ''GasPayment'' \<or> is_legacy_string_event_kind kind"

lemma map_ok_eq_Inl: "map_ok f r = Inl e \<longleftrightarrow> r = Inl e"
  by (cases r) auto

lemma event_parts_error:
  assumes "event_parts_of sdk site event raw ctx = (Inl e, ctx')"
  shows "e = legacy_event_decode_error site \<and> decoded_kind (site_kind site)"
proof -
  have raw: "if_raw raw parts f = Inl e \<Longrightarrow> \<exists>r. f r = Inl e" for parts f by (auto simp: if_raw_def split: option.splits)
  have parts: "token_event_parts sdk site c p r = Inl e \<Longrightarrow> e = legacy_event_decode_error site"
    "infusion_event_parts sdk site p r = Inl e \<Longrightarrow> e = legacy_event_decode_error site"
    "market_event_parts sdk site p r = Inl e \<Longrightarrow> e = legacy_event_decode_error site"
    "gas_event_parts sdk site p r = Inl e \<Longrightarrow> e = legacy_event_decode_error site"
    "string_event_parts sdk site p r = Inl e \<Longrightarrow> e = legacy_event_decode_error site" for c p r
    by (auto simp: token_event_parts_def infusion_event_parts_def market_event_parts_def gas_event_parts_def
        string_event_parts_def map_ok_eq_Inl dest: decoder_errors)
  show ?thesis
    using assms unfolding event_parts_of_def Let_def
    by (simp only: split: if_split_asm)
       (auto simp: decoded_kind_def split: option.splits prod.splits dest!: raw dest: parts)
qed

definition event_error :: "nat \<Rightarrow> nat \<Rightarrow> nat \<times> sdk_event \<Rightarrow> ingestion_error \<Rightarrow> bool" where
  "event_error height tx_index ie e \<longleftrightarrow>
     (let kind = legacy_event_kind_name (snd ie) in
      decoded_kind kind \<and> e = EventPayloadDecode height tx_index (fst ie) kind
      \<or> 2 ^ 31 \<le> fst ie \<and> e = EventFieldOutOfRange height tx_index ''legacy'' (fst ie) ''event_index'')"

lemma event_to_projection_error:
  "event_to_projection sdk height rec tx_index i event ctx = (Inl e, ctx') \<Longrightarrow> event_error height tx_index (i, event) e"
  by (auto simp: event_to_projection_def Let_def result_eqs event_index_to_i32_def event_error_def legacy_event_decode_error_def
      split: prod.splits if_splits dest!: event_parts_error)

lemma project_events_error:
  "project_events sdk height rec tx_index i events ctx rows = Inl e \<Longrightarrow>
   \<exists>ie \<in> set (kept_events i events). event_error height tx_index ie e"
proof (induction sdk height rec tx_index i events ctx rows rule: project_events.induct)
  case (2 sdk height rec tx_index i event events ctx rows)
  show ?case
  proof (cases "is_numeric_legacy_event_kind (legacy_event_kind_name event)")
    case True
    with 2 show ?thesis by simp
  next
    case False
    show ?thesis
    proof (cases "event_to_projection sdk height rec tx_index i event ctx")
      case (Pair r c)
      show ?thesis
      proof (cases r)
        case (Inl e')
        with Pair "2.prems" False event_to_projection_error [of sdk height rec tx_index i event ctx] show ?thesis by auto
      next
        case (Inr row)
        with Pair "2.prems" False have "project_events sdk height rec tx_index (i + 1) events c (rows @ [row]) = Inl e" by simp
        from "2.IH"(2) [OF False Pair [symmetric] Inr this] False show ?thesis by auto
      qed
    qed
  qed
qed simp

section \<open>Properties\<close>

text \<open>The events a transaction is projected from: its legacy events and, after them, the synthesized ones.\<close>

definition projected_events :: "sdk \<Rightarrow> sdk_transaction \<Rightarrow> sdk_event list" where
  "projected_events sdk tx = tx_events tx @ synthetic_events sdk tx (context_from_transaction tx)"

lemma synthetic_frame: "frame ctx ctx' \<Longrightarrow> synthetic_events sdk tx ctx' = synthetic_events sdk tx ctx"
  unfolding frame_def synthetic_events_def by (metis (no_types, lifting) tx_context.select_convs(1,4) tx_context.surjective tx_context.update_convs(3))

lemma transaction_rows:
  assumes "transaction_events_to_projections sdk block record tx_index tx = Inr rows"
  shows "list_all2 (\<lambda>row ie. row_of record ie row) rows (kept_events 0 (projected_events sdk tx))"
    "filter (\<lambda>r. row_token_create r \<noteq> None) rows =
       (if ctx_token_create (context_from_transaction tx) = None then [] else take 1 (token_creates rows))"
proof -
  let ?ctx = "context_from_transaction tx"
  from assms obtain height rows1 ctx1 rows2 ctx2 where
      p1: "project_events sdk height record tx_index 0 (tx_events tx) ?ctx [] = Inr (rows1, ctx1)"
    and p2: "project_events sdk height record tx_index (length (tx_events tx)) (synthetic_events sdk tx ctx1) ctx1 rows1 = Inr (rows2, ctx2)"
    and rows: "rows = rows2"
    by (auto simp: transaction_events_to_projections_def result_eqs)
  from project_events_rows [OF p1] have n1:
      "list_all2 (\<lambda>row ie. row_of record ie row) rows1 (kept_events 0 (tx_events tx))" "frame ?ctx ctx1"
      "ctx_token_create_consumed ctx1 = (ctx_token_create ?ctx \<noteq> None \<and> token_creates rows1 \<noteq> [])"
      "filter (\<lambda>r. row_token_create r \<noteq> None) rows1 = (if ctx_token_create ?ctx = None then [] else take 1 (token_creates rows1))"
    by (auto simp: context_from_transaction_def Let_def)
  from project_events_rows [OF p2] obtain new where new: "rows2 = rows1 @ new"
      "list_all2 (\<lambda>row ie. row_of record ie row) new (kept_events (length (tx_events tx)) (synthetic_events sdk tx ctx1))"
      "filter (\<lambda>r. row_token_create r \<noteq> None) new =
        (if ctx_token_create_consumed ctx1 \<or> ctx_token_create ctx1 = None then [] else take 1 (token_creates new))" by blast
  have same: "synthetic_events sdk tx ctx1 = synthetic_events sdk tx ?ctx" "ctx_token_create ctx1 = ctx_token_create ?ctx"
    using synthetic_frame [OF n1(2)] n1(2) by (simp_all add: frame_def) (metis tx_context.select_convs(2) tx_context.surjective tx_context.update_convs(3))
  show "list_all2 (\<lambda>row ie. row_of record ie row) rows (kept_events 0 (projected_events sdk tx))"
    using n1(1) new(2) unfolding rows new(1) projected_events_def same(1)
    by (simp add: enumerate_append_eq list_all2_appendI)
  show "filter (\<lambda>r. row_token_create r \<noteq> None) rows =
       (if ctx_token_create (context_from_transaction tx) = None then [] else take 1 (token_creates rows))"
    using n1(3,4) new(3) unfolding rows new(1) same(2) by (auto simp: token_creates_def Suc_le_eq split: if_splits)
qed

lemma i32_add_small: "0 \<le> a \<Longrightarrow> a < 2 ^ 31 - 1 \<Longrightarrow> i32_add a 1 = a + 1"
  by (simp add: i32_add_def)

lemma rows_of_events:
  assumes "list_all2 (\<lambda>row ie. row_of record ie row) rows ies" "\<forall>ie\<in>set ies. fst ie < 2 ^ 31 - 1"
  shows "map (\<lambda>r. (eu_event_index r, eu_event_kind r, eu_address r)) rows =
    map (\<lambda>(i, e). (int i + 1, legacy_event_kind_name e, Some (normalize_legacy_event_address (ev_address e)))) ies"
  using assms by (induction rule: list_all2_induct) (auto simp: row_of_def i32_add_small)

text \<open>C32. The rows of a transaction are its events in order: one row per event whose kind is not a bare
  number, the synthesized events after the legacy ones, each with its position plus one as index (so
  indices are distinct and ascending and skipped events leave their number free), with its kind, its
  normalised address and the transaction's ids and time.\<close>

theorem event_rows_in_order:
  assumes "transaction_events_to_projections sdk block record tx_index tx = Inr rows"
    and "length (projected_events sdk tx) < 2 ^ 31"
  shows "map (\<lambda>r. (eu_event_index r, eu_event_kind r, eu_address r)) rows =
      map (\<lambda>(i, e). (int i + 1, legacy_event_kind_name e, Some (normalize_legacy_event_address (ev_address e))))
        (kept_events 0 (projected_events sdk tx))
    \<and> sorted_wrt (<) (map eu_event_index rows)
    \<and> (\<forall>r\<in>set rows. eu_transaction_id r = tr_id record \<and> eu_chain_id r = tr_chain_id record
         \<and> eu_timestamp r = tr_timestamp record)"
proof (intro conjI)
  note all = transaction_rows(1) [OF assms(1)]
  have small: "fst ie < 2 ^ 31 - 1" if "ie \<in> set (kept_events 0 (projected_events sdk tx))" for ie
    using that assms(2) by (auto simp: in_set_enumerate_eq)
  show eq: "map (\<lambda>r. (eu_event_index r, eu_event_kind r, eu_address r)) rows =
      map (\<lambda>(i, e). (int i + 1, legacy_event_kind_name e, Some (normalize_legacy_event_address (ev_address e))))
        (kept_events 0 (projected_events sdk tx))"
    by (rule rows_of_events [OF all]) (use small in blast)
  have "map eu_event_index rows = map (\<lambda>ie. int (fst ie) + 1) (kept_events 0 (projected_events sdk tx))"
    using arg_cong [OF eq, of "map fst"] by (simp add: case_prod_beta' comp_def)
  moreover have "sorted_wrt (<) (map fst (kept_events 0 (projected_events sdk tx)))"
  proof -
    have "sorted_wrt (<) (map fst (enumerate 0 (projected_events sdk tx)))" by simp
    then show ?thesis unfolding sorted_wrt_map by (rule sorted_wrt_filter)
  qed
  ultimately show "sorted_wrt (<) (map eu_event_index rows)"
    by (simp only: sorted_wrt_map) (erule sorted_wrt_mono_rel [rotated], simp)
  show "\<forall>r\<in>set rows. eu_transaction_id r = tr_id record \<and> eu_chain_id r = tr_chain_id record \<and> eu_timestamp r = tr_timestamp record"
    using all by (auto simp: list_all2_conv_all_nth in_set_conv_nth row_of_def)
qed

text \<open>Each row's token creation, and the error of a failed projection, as the properties need them.\<close>

lemma token_create_rows:
  assumes "transaction_events_to_projections sdk block record tx_index tx = Inr rows"
  shows "length (filter (\<lambda>r. row_token_create r \<noteq> None) rows) \<le> 1"
    "set (filter (\<lambda>r. row_token_create r \<noteq> None) rows) \<subseteq> {r. eu_event_kind r = ''TokenCreate''}"
proof -
  show "length (filter (\<lambda>r. row_token_create r \<noteq> None) rows) \<le> 1"
    unfolding transaction_rows(2) [OF assms] by simp
  show "set (filter (\<lambda>r. row_token_create r \<noteq> None) rows) \<subseteq> {r. eu_event_kind r = ''TokenCreate''}"
    unfolding transaction_rows(2) [OF assms]
    using set_take_subset [of 1 "token_creates rows"] by (auto simp: token_creates_def)
qed

lemma block_height_error: "block_height_u64 block = Inl e \<Longrightarrow> br_height block < 0 \<and> e = BlockFieldOutOfRange 0 ''height''"
  by (auto simp: block_height_u64_def split: if_splits)

lemma block_height_value: "block_height_u64 block = Inr h \<Longrightarrow> int h = br_height block"
  by (auto simp: block_height_u64_def split: if_splits)

lemma transaction_events_error:
  assumes "transaction_events_to_projections sdk block record tx_index tx = Inl e"
  shows "br_height block < 0 \<and> e = BlockFieldOutOfRange 0 ''height''
    \<or> (\<exists>ie \<in> set (kept_events 0 (projected_events sdk tx)). event_error (nat (br_height block)) tx_index ie e)"
proof (cases "block_height_u64 block")
  case (Inl e')
  with assms block_height_error show ?thesis by (auto simp: transaction_events_to_projections_def)
next
  case (Inr h)
  let ?ctx = "context_from_transaction tx"
  have h: "nat (br_height block) = h" using block_height_value [OF Inr] by simp
  show ?thesis
  proof (cases "project_events sdk h record tx_index 0 (tx_events tx) ?ctx []")
    case (Inl e')
    with assms Inr have "e' = e" by (simp add: transaction_events_to_projections_def)
    with project_events_error [OF Inl] show ?thesis by (auto simp: h projected_events_def enumerate_append_eq)
  next
    case (Inr rc)
    then obtain rows ctx where rc: "project_events sdk h record tx_index 0 (tx_events tx) ?ctx [] = Inr (rows, ctx)" by (cases rc) auto
    have "frame ?ctx ctx" using project_events_rows [OF rc] by blast
    from assms rc \<open>block_height_u64 block = Inr h\<close>
    have "project_events sdk h record tx_index (length (tx_events tx)) (synthetic_events sdk tx ctx) ctx rows = Inl e"
      by (auto simp: transaction_events_to_projections_def result_eqs)
    from project_events_error [OF this] synthetic_frame [OF \<open>frame ?ctx ctx\<close>] show ?thesis
      by (auto simp: h projected_events_def enumerate_append_eq)
  qed
qed

text \<open>A small SDK: hexadecimal digits as bytes, one-byte strings and numbers.\<close>

definition demo_sdk :: sdk where
  "demo_sdk = \<lparr>decode_hex = (\<lambda>s. if s = ''zz'' then None else Some (map code s)),
     encode_hex_upper = (\<lambda>b. ''00''),
     read_string = (\<lambda>r. case r of [] \<Rightarrow> None | b # r \<Rightarrow> Some ([char_of b], r)),
     read_big_integer = (\<lambda>r. case r of [] \<Rightarrow> None | b # r \<Rightarrow> Some (int b - 48, r)),
     read_var_uint = (\<lambda>r. case r of [] \<Rightarrow> None | b # r \<Rightarrow> Some (b, r)),
     read_var_bytes = (\<lambda>r. case r of [] \<Rightarrow> None | b # r \<Rightarrow> Some ([b], r)),
     at_eof = (\<lambda>r. r = []), address_text = (\<lambda>b. Some ''P''), gas_config_of = (\<lambda>b. None), chain_config_of = (\<lambda>b. None),
     gas_config_default = undefined, chain_config_default = undefined\<rparr>"

definition demo_event :: "string \<Rightarrow> string \<Rightarrow> sdk_event" where
  "demo_event kind data = \<lparr>ev_address = '' P '', ev_contract = ''gas'', ev_kind = kind, ev_name = [], ev_data = data\<rparr>"

definition demo_token_create :: token_create_data where
  "demo_token_create = \<lparr>tc_symbol = ''KCAL'', tc_max_supply = [], tc_decimals = 10, tc_is_non_fungible = False,
     tc_carbon_token_id = 0, tc_metadata = []\<rparr>"

definition demo_tx :: "sdk_event list \<Rightarrow> sdk_transaction" where
  "demo_tx events = \<lparr>tx_hash = ''AA'', tx_state = ''Halt'', tx_timestamp = 5, tx_expiration = 9, tx_carbon_type = 0, tx_fee = [],
     tx_gas_price = [], tx_gas_limit = [], tx_result = [], tx_debug_comment = None, tx_payload = [], tx_script = [],
     tx_sender = ''P'', tx_gas_payer = ''P'', tx_gas_target = [], tx_carbon_data = [], tx_signatures = [],
     tx_events = events, tx_extended_events = [\<lparr>ex_kind = ''tokencreate'', ex_contract = ''gas'', ex_data = TokenCreateData demo_token_create\<rparr>],
     tx_block_hash = ''BB'', tx_block_height = 3\<rparr>"

definition demo_record :: transaction_record where
  "demo_record = \<lparr>tr_id = 7, tr_block_id = 3, tr_chain_id = 1, tr_tx_index = 0, tr_hash = ''AA'', tr_timestamp = 5,
     tr_state = ''Halt'', tr_result = Some [], tr_debug_comment = None, tr_payload = Some [], tr_script_raw = Some [],
     tr_fee_raw = None, tr_gas_price_raw = None, tr_gas_limit_raw = None, tr_sender_id = 1, tr_gas_payer_id = 1,
     tr_gas_target_id = 1, tr_carbon_tx_type = Some 0, tr_carbon_tx_data = None, tr_expiration = 9\<rparr>"

definition demo_block_record :: block_record where
  "demo_block_record = \<lparr>br_id = 3, br_chain_id = 1, br_chain = ''main'', br_height = 20, br_hash = ''BB'', br_protocol = Some 1,
     br_chain_address_id = 1, br_chain_address = None, br_validator_address_id = 1, br_validator_address = None,
     br_producer_address_id = None, br_producer_address = None, br_timestamp = 5, br_reward = None\<rparr>"

definition demo_events :: "sdk_event list" where
  "demo_events = [demo_event ''TokenCreate'' [], demo_event ''72'' [], demo_event ''TokenSend'' ''S5m'', demo_event ''TokenCreate'' []]"

lemma demo_projection_ok:
  "map_ok (map (\<lambda>r. (eu_event_index r, eu_event_kind r, eu_token_id r, row_token_create r \<noteq> None)))
     (transaction_events_to_projections demo_sdk demo_block_record demo_record 0 (demo_tx demo_events)) =
   Inr [(1, ''TokenCreate'', None, True), (3, ''TokenSend'', Some ''5'', False), (4, ''TokenCreate'', None, False)]"
  by code_simp

theorem event_rows_in_order_witness:
  "map_ok (map (\<lambda>r. (eu_event_index r, eu_event_kind r, eu_address r)))
     (transaction_events_to_projections demo_sdk demo_block_record demo_record 0 (demo_tx demo_events)) =
   Inr [(1, ''TokenCreate'', Some ''P''), (3, ''TokenSend'', Some ''P''), (4, ''TokenCreate'', Some ''P'')]"
proof -
  obtain rows where rows: "transaction_events_to_projections demo_sdk demo_block_record demo_record 0 (demo_tx demo_events) = Inr rows"
    using demo_projection_ok by (cases "transaction_events_to_projections demo_sdk demo_block_record demo_record 0 (demo_tx demo_events)") simp_all
  have len: "length (projected_events demo_sdk (demo_tx demo_events)) = 4" by code_simp
  have kept: "map (\<lambda>(i, e). (int i + 1, legacy_event_kind_name e, Some (normalize_legacy_event_address (ev_address e))))
      (kept_events 0 (projected_events demo_sdk (demo_tx demo_events))) =
      [(1, ''TokenCreate'', Some ''P''), (3, ''TokenSend'', Some ''P''), (4, ''TokenCreate'', Some ''P'')]" by code_simp
  from event_rows_in_order [OF rows] show ?thesis unfolding rows kept len by simp
qed

text \<open>C4. The token created by a transaction is attached to exactly one of its rows: to the first row of kind
  TokenCreate when the transaction's extended events describe a created token, and to no row otherwise; the
  database applies a created token once although the chain reports it in several events.\<close>

theorem token_create_applied_once:
  assumes "transaction_events_to_projections sdk block record tx_index tx = Inr rows"
  shows "filter (\<lambda>r. row_token_create r \<noteq> None) rows =
      (if ctx_token_create (context_from_transaction tx) = None then []
       else take 1 (filter (\<lambda>r. eu_event_kind r = ''TokenCreate'') rows))"
  using transaction_rows(2) [OF assms] by (simp add: token_creates_def)

theorem token_create_applied_once_witness:
  "map_ok (\<lambda>rows. map eu_event_index (filter (\<lambda>r. row_token_create r \<noteq> None) rows))
     (transaction_events_to_projections demo_sdk demo_block_record demo_record 0 (demo_tx demo_events)) = Inr [1]"
proof -
  obtain rows where rows: "transaction_events_to_projections demo_sdk demo_block_record demo_record 0 (demo_tx demo_events) = Inr rows"
    using demo_projection_ok by (cases "transaction_events_to_projections demo_sdk demo_block_record demo_record 0 (demo_tx demo_events)") simp_all
  have "ctx_token_create (context_from_transaction (demo_tx demo_events)) \<noteq> None" by code_simp
  with token_create_applied_once [OF rows]
  have eq: "filter (\<lambda>r. row_token_create r \<noteq> None) rows = take 1 (filter (\<lambda>r. eu_event_kind r = ''TokenCreate'') rows)" by simp
  have "map (\<lambda>r. (eu_event_index r, eu_event_kind r, eu_token_id r, row_token_create r \<noteq> None)) rows =
      [(1, ''TokenCreate'', None, True), (3, ''TokenSend'', Some ''5'', False), (4, ''TokenCreate'', None, False)]"
    using demo_projection_ok rows by simp
  then have "map eu_event_index (take 1 (filter (\<lambda>r. eu_event_kind r = ''TokenCreate'') rows)) = [1]"
    by (auto simp: map_eq_Cons_conv)
  then show ?thesis by (simp only: rows eq map_ok_simps)
qed

text \<open>C33. Every row is well-formed for the database: its index is a positive 32-bit number, its payload is
  a JSON object with sorted distinct keys, every key one of the known sections, so that in particular no
  payload repeats the chain or the address that the row's own columns hold, and the format is live.v1.\<close>

theorem event_payload_shape:
  assumes "transaction_events_to_projections sdk block record tx_index tx = Inr rows"
    and "length (projected_events sdk tx) < 2 ^ 31"
    and "row \<in> set rows"
  shows "0 < eu_event_index row \<and> eu_event_index row < 2 ^ 31 \<and> eu_payload_format row = Some ''live.v1''
    \<and> (\<exists>m. eu_payload_json row = Some (JObject m) \<and> sorted_map m
         \<and> set (map fst m) \<subseteq> {''token_create'', ''token_create_event''} \<union> payload_keys
         \<and> map_of m ''chain'' = None \<and> map_of m ''address'' = None)"
proof -
  from transaction_rows(1) [OF assms(1)] assms(3) obtain ie
    where ie: "ie \<in> set (kept_events 0 (projected_events sdk tx))" and row: "row_of record ie row"
    unfolding list_all2_conv_all_nth in_set_conv_nth [of row] using nth_mem by metis
  from ie have "fst ie < length (projected_events sdk tx)" by (auto simp: in_set_enumerate_eq)
  with assms(2) have small: "int (fst ie) < 2 ^ 31 - 1" by simp
  from row obtain m where m: "eu_payload_json row = Some (JObject m)" "sorted_map m"
      "set (map fst m) \<subseteq> {''token_create'', ''token_create_event''} \<union> payload_keys"
    by (auto simp: row_of_def stored_payload_def is_obj_def obj_keys_def)
  have "''chain'' \<notin> {''token_create'', ''token_create_event''} \<union> payload_keys"
    "''address'' \<notin> {''token_create'', ''token_create_event''} \<union> payload_keys" by (simp_all add: payload_keys_def)
  with m(3) have "map_of m ''chain'' = None" "map_of m ''address'' = None" by (auto simp: map_of_eq_None_iff)
  with m row small i32_add_small [OF of_nat_0_le_iff small] show ?thesis by (auto simp: row_of_def)
qed

theorem event_payload_shape_witness:
  "map_ok (map (\<lambda>r. (eu_payload_format r, map_option json_keys (eu_payload_json r))))
     (transaction_events_to_projections demo_sdk demo_block_record demo_record 0 (demo_tx [demo_event ''TokenSend'' ''S5m''])) =
   Inr [(Some ''live.v1'', Some [''contract'', ''event_kind'', ''token_event'', ''token_id''])]
   \<and> map_ok (\<lambda>rows. eu_payload_format (hd rows))
     (transaction_events_to_projections demo_sdk demo_block_record demo_record 0 (demo_tx [demo_event ''TokenSend'' ''S5m''])) =
     Inr (Some ''live.v1'')"
proof -
  let ?t = "transaction_events_to_projections demo_sdk demo_block_record demo_record 0 (demo_tx [demo_event ''TokenSend'' ''S5m''])"
  have ok: "map_ok (map (\<lambda>r. (eu_payload_format r, map_option json_keys (eu_payload_json r)))) ?t =
     Inr [(Some ''live.v1'', Some [''contract'', ''event_kind'', ''token_event'', ''token_id''])]" by code_simp
  then obtain row where rows: "?t = Inr [row]" by (cases ?t) auto
  have len: "length (projected_events demo_sdk (demo_tx [demo_event ''TokenSend'' ''S5m''])) = 1" by code_simp
  from event_payload_shape [OF rows, of row] len ok show ?thesis by (simp add: rows)
qed



end
