(* ===== verification/Rpc_Client.thy ===== *)
theory Rpc_Client
  imports Config Json "HOL-Library.Multiset"
begin

text \<open>
  The JSON-RPC client (\<open>src/crates/rpc/src/lib.rs\<close>): endpoints from the configuration, round-robin
  failover over them, retry rounds with backoff for transient failures, and the escalating timeout of
  block fetches.

  A request to a node is a parameter: a function from the endpoint to what the SDK answers, in a state
  \<open>rpc_world\<close>.  The state holds the shared round-robin counter, the world outside the client and the
  log of requests sent so far.  Other tasks share the counter, so a request may return with a counter
  that has moved; the lemmas hold for every such request.  Durations are in milliseconds.
\<close>

section \<open>Errors and configuration\<close>

text \<open>Errors of the SDK: transport failures, and everything else.\<close>

datatype phantasma_error = Http string | OtherFailure string

datatype rpc_error =
    MissingRpcEndpoints
  | Sdk phantasma_error
  | JsonDecode string string
  | UnterminatedPagination string string nat

definition is_transient_rpc_error :: "rpc_error \<Rightarrow> bool" where
  "is_transient_rpc_error error = (case error of Sdk (Http _) \<Rightarrow> True | _ \<Rightarrow> False)"

record rpc_config =
  rpc_endpoints :: "string list"
  rpc_timeout :: nat
  rpc_max_response_bytes :: nat
  rpc_api_key :: "string option"

text \<open>An endpoint with the settings of its SDK handle.\<close>

record sdk_endpoint =
  endpoint_url :: string
  endpoint_timeout :: nat
  endpoint_max_response_bytes :: nat
  endpoint_api_key :: "string option"

record sdk_client =
  client_endpoints :: "sdk_endpoint list"
  client_base_timeout :: nat

record 'w rpc_world =
  next_endpoint :: nat
  sent :: "(string \<times> sdk_endpoint \<times> rpc_error option) list"
  outside :: 'w

text \<open>The counter of a fresh client is 0.\<close>

definition client_new :: "rpc_config \<Rightarrow> rpc_error + sdk_client" where
  "client_new config =
     (if rpc_endpoints config = [] then Inl MissingRpcEndpoints
      else Inr \<lparr>client_endpoints = map (\<lambda>endpoint.
                  \<lparr>endpoint_url = endpoint, endpoint_timeout = rpc_timeout config,
                   endpoint_max_response_bytes = rpc_max_response_bytes config,
                   endpoint_api_key = rpc_api_key config\<rparr>) (rpc_endpoints config),
               client_base_timeout = rpc_timeout config\<rparr>)"

definition endpoint_urls :: "sdk_client \<Rightarrow> string list" where
  "endpoint_urls client = map endpoint_url (client_endpoints client)"

section \<open>Requests\<close>

type_synonym ('w, 'a) request = "sdk_endpoint \<Rightarrow> 'w rpc_world \<Rightarrow> (rpc_error + 'a) \<times> 'w rpc_world"

text \<open>What the world outside does with a request: it may also move the counter on.  Sending logs the request.\<close>

type_synonym ('w, 'a) exchange = "sdk_endpoint \<Rightarrow> 'w \<Rightarrow> (rpc_error + 'a) \<times> nat \<times> 'w"

definition error_of :: "'e + 'a \<Rightarrow> 'e option" where
  "error_of r = (case r of Inl e \<Rightarrow> Some e | Inr _ \<Rightarrow> None)"

definition send :: "string \<Rightarrow> ('w, 'a) exchange \<Rightarrow> ('w, 'a) request" where
  "send rpc_call exchange endpoint st =
     (let (r, moved, w) = exchange endpoint (outside st)
      in (r, \<lparr>next_endpoint = wrapping_add 64 (next_endpoint st) moved,
              sent = sent st @ [(rpc_call, endpoint, error_of r)], outside = w\<rparr>))"

section \<open>Failover\<close>

definition MAX_RPC_ATTEMPTS :: nat where "MAX_RPC_ATTEMPTS = 4"
definition RPC_RETRY_BASE_DELAY_MS :: nat where "RPC_RETRY_BASE_DELAY_MS = 250"
definition RPC_RETRY_MAX_DELAY_MS :: nat where "RPC_RETRY_MAX_DELAY_MS = 2000"
definition BLOCK_FETCH_MAX_ATTEMPTS :: nat where "BLOCK_FETCH_MAX_ATTEMPTS = 5"
definition BLOCK_FETCH_MAX_TIMEOUT :: nat where "BLOCK_FETCH_MAX_TIMEOUT = 600000"

text \<open>\<open>Duration::MAX\<close>, where \<open>saturating_mul\<close> stops.\<close>

definition DURATION_MAX :: nat where "DURATION_MAX = 2 ^ 64 * 1000 - 1"

definition attempt_timeout :: "sdk_client \<Rightarrow> nat \<Rightarrow> bool \<Rightarrow> nat option" where
  "attempt_timeout client attempt escalate =
     (if \<not> escalate then None
      else let factor = 2 ^ min attempt 16
           in Some (min (min (client_base_timeout client * factor) DURATION_MAX) BLOCK_FETCH_MAX_TIMEOUT))"

definition with_timeout :: "nat option \<Rightarrow> sdk_endpoint \<Rightarrow> sdk_endpoint" where
  "with_timeout timeout endpoint =
     (case timeout of None \<Rightarrow> endpoint | Some t \<Rightarrow> endpoint\<lparr>endpoint_timeout := t\<rparr>)"

text \<open>The endpoints in the order a round starting at \<open>start\<close> asks them.\<close>

definition round_endpoints :: "sdk_client \<Rightarrow> nat \<Rightarrow> sdk_endpoint list" where
  "round_endpoints client start =
     (let endpoints = client_endpoints client
      in map (\<lambda>offset. endpoints ! (wrapping_add 64 start offset mod length endpoints)) [0..<length endpoints])"

fun try_endpoints ::
    "nat option \<Rightarrow> ('w, 'a) request \<Rightarrow> sdk_endpoint list \<Rightarrow> rpc_error option \<Rightarrow> 'w rpc_world \<Rightarrow>
     (rpc_error + 'a) \<times> 'w rpc_world" where
  "try_endpoints timeout request [] last_error st = (Inl (unwrap_or last_error MissingRpcEndpoints), st)"
| "try_endpoints timeout request (endpoint # endpoints) last_error st =
     (case request (with_timeout timeout endpoint) st of
        (Inr v, st') \<Rightarrow> (Inr v, st')
      | (Inl error, st') \<Rightarrow> try_endpoints timeout request endpoints (Some error) st')"

definition try_endpoints_once ::
    "sdk_client \<Rightarrow> nat option \<Rightarrow> ('w, 'a) request \<Rightarrow> 'w rpc_world \<Rightarrow> (rpc_error + 'a) \<times> 'w rpc_world" where
  "try_endpoints_once client timeout request st =
     (let start = next_endpoint st;
          st = st\<lparr>next_endpoint := wrapping_add 64 start 1\<rparr>
      in try_endpoints timeout request (round_endpoints client start) None st)"

text \<open>The delay before a retry round; while the task sleeps the world and other tasks go on (\<open>idle\<close>).\<close>

definition retry_delay :: "nat \<Rightarrow> nat" where
  "retry_delay attempt = min (RPC_RETRY_BASE_DELAY_MS * 2 ^ (attempt - 1)) RPC_RETRY_MAX_DELAY_MS"

type_synonym 'w sleep = "nat \<Rightarrow> 'w rpc_world \<Rightarrow> 'w rpc_world"

definition nap :: "(nat \<Rightarrow> 'w \<Rightarrow> nat \<times> 'w) \<Rightarrow> 'w sleep" where
  "nap idle ms st =
     (let (moved, w) = idle ms (outside st)
      in st\<lparr>next_endpoint := wrapping_add 64 (next_endpoint st) moved, outside := w\<rparr>)"

fun failover_rounds ::
    "'w sleep \<Rightarrow> sdk_client \<Rightarrow> bool \<Rightarrow> ('w, 'a) request \<Rightarrow> nat list \<Rightarrow> rpc_error option \<Rightarrow> 'w rpc_world \<Rightarrow>
     (rpc_error + 'a) \<times> 'w rpc_world" where
  "failover_rounds sleep client escalate request [] last_error st = (Inl (unwrap_or last_error MissingRpcEndpoints), st)"
| "failover_rounds sleep client escalate request (attempt # rest) last_error st =
     (let st = (if 0 < attempt then sleep (retry_delay attempt) st else st)
      in case try_endpoints_once client (attempt_timeout client attempt escalate) request st of
           (Inr v, st') \<Rightarrow> (Inr v, st')
         | (Inl error, st') \<Rightarrow>
             if \<not> is_transient_rpc_error error then (Inl error, st')
             else failover_rounds sleep client escalate request rest (Some error) st')"

definition run_failover ::
    "'w sleep \<Rightarrow> sdk_client \<Rightarrow> nat \<Rightarrow> bool \<Rightarrow> ('w, 'a) request \<Rightarrow> 'w rpc_world \<Rightarrow> (rpc_error + 'a) \<times> 'w rpc_world" where
  "run_failover sleep client attempts escalate request st =
     failover_rounds sleep client escalate request [0..<attempts] None st"

definition with_failover ::
    "'w sleep \<Rightarrow> sdk_client \<Rightarrow> ('w, 'a) request \<Rightarrow> 'w rpc_world \<Rightarrow> (rpc_error + 'a) \<times> 'w rpc_world" where
  "with_failover sleep client request st = run_failover sleep client MAX_RPC_ATTEMPTS False request st"

definition block_fetch_failover ::
    "'w sleep \<Rightarrow> sdk_client \<Rightarrow> ('w, 'a) request \<Rightarrow> 'w rpc_world \<Rightarrow> (rpc_error + 'a) \<times> 'w rpc_world" where
  "block_fetch_failover sleep client request st = run_failover sleep client BLOCK_FETCH_MAX_ATTEMPTS True request st"

section \<open>The log of a request that only sends\<close>

text \<open>The contract of a request and of sleeping, as far as failover relies on it: a request appends itself,
  with its outcome, to the log; sleeping sends nothing.\<close>

locale logged_request =
  fixes rpc_call :: string
    and request :: "('w, 'a) request"
    and sleep :: "'w sleep"
  assumes request_logs: "sent (snd (request endpoint st)) = sent st @ [(rpc_call, endpoint, error_of (fst (request endpoint st)))]"
    and sleep_logs: "sent (sleep ms st) = sent st"
begin

text \<open>One round asks its endpoints in order until one answers.\<close>

lemma try_endpoints_log:
  assumes "try_endpoints timeout request endpoints le st = (r, st')"
  shows "\<exists>asked new. prefix asked endpoints \<and> sent st' = sent st @ new
    \<and> map (\<lambda>(c, ep, _). (c, ep)) new = map (\<lambda>ep. (rpc_call, with_timeout timeout ep)) asked
    \<and> (case r of Inr v \<Rightarrow> new \<noteq> [] \<and> snd (snd (last new)) = None \<and> (\<forall>x \<in> set (butlast new). snd (snd x) \<noteq> None)
       | Inl e \<Rightarrow> asked = endpoints \<and> (\<forall>x \<in> set new. snd (snd x) \<noteq> None)
           \<and> (endpoints \<noteq> [] \<longrightarrow> snd (snd (last new)) = Some e) \<and> (endpoints = [] \<longrightarrow> e = unwrap_or le MissingRpcEndpoints))"
  using assms
proof (induction endpoints arbitrary: le st)
  case Nil
  then show ?case by auto
next
  case (Cons ep eps)
  obtain q s where q: "request (with_timeout timeout ep) st = (q, s)" by force
  have s: "sent s = sent st @ [(rpc_call, with_timeout timeout ep, error_of q)]"
    using request_logs [of "with_timeout timeout ep" st] q by simp
  show ?case
  proof (cases q)
    case (Inr v)
    with Cons.prems q have "r = Inr v" "st' = s" by simp_all
    with s Inr show ?thesis
      by (intro exI [of _ "[ep]"] exI [of _ "[(rpc_call, with_timeout timeout ep, None)]"]) (simp add: error_of_def)
  next
    case (Inl e)
    with Cons.prems q have "try_endpoints timeout request eps (Some e) s = (r, st')" by simp
    from Cons.IH [OF this] obtain asked new where ih: "prefix asked eps" "sent st' = sent s @ new"
      "map (\<lambda>(c, ep, _). (c, ep)) new = map (\<lambda>ep. (rpc_call, with_timeout timeout ep)) asked"
      "case r of Inr v \<Rightarrow> new \<noteq> [] \<and> snd (snd (last new)) = None \<and> (\<forall>x \<in> set (butlast new). snd (snd x) \<noteq> None)
       | Inl e' \<Rightarrow> asked = eps \<and> (\<forall>x \<in> set new. snd (snd x) \<noteq> None)
           \<and> (eps \<noteq> [] \<longrightarrow> snd (snd (last new)) = Some e') \<and> (eps = [] \<longrightarrow> e' = unwrap_or (Some e) MissingRpcEndpoints)" by blast
    have len: "new = [] \<longleftrightarrow> asked = []" using arg_cong [OF ih(3), of length] by auto
    let ?new = "(rpc_call, with_timeout timeout ep, Some e) # new"
    have "sent st' = sent st @ ?new" using ih(2) s Inl by (simp add: error_of_def)
    with ih len show ?thesis
      by (intro exI [of _ "ep # asked"] exI [of _ ?new]) (auto split: sum.splits)
  qed
qed

end

text \<open>The requests that rounds with the given starts make in full.\<close>

definition rounds_of :: "sdk_client \<Rightarrow> bool \<Rightarrow> (nat \<times> nat) list \<Rightarrow> sdk_endpoint list" where
  "rounds_of client escalate rounds =
     concat (map (\<lambda>(attempt, start). map (with_timeout (attempt_timeout client attempt escalate)) (round_endpoints client start)) rounds)"

lemma length_round_endpoints [simp]: "length (round_endpoints client start) = length (client_endpoints client)"
  by (simp add: round_endpoints_def Let_def)

lemma length_rounds_of: "length (rounds_of client escalate rounds) = length rounds * length (client_endpoints client)"
  by (induction rounds) (auto simp: rounds_of_def)

definition asked_endpoint :: "string \<times> sdk_endpoint \<times> rpc_error option \<Rightarrow> sdk_endpoint" where
  "asked_endpoint entry = fst (snd entry)"

text \<open>What the log owes a result: on success the last request succeeded and the ones before failed; on
  failure every request failed, the last one with the error reported.\<close>

definition log_explains :: "(string \<times> sdk_endpoint \<times> rpc_error option) list \<Rightarrow> rpc_error + 'a \<Rightarrow> bool" where
  "log_explains new r \<longleftrightarrow>
     new \<noteq> [] \<and> snd (snd (last new)) = error_of r \<and> list_all (\<lambda>x. snd (snd x) \<noteq> None) (butlast new)"

lemma log_explains_append:
  assumes "log_explains old (Inl e)" "log_explains new r"
  shows "log_explains (old @ new) r"
proof -
  have old: "butlast old @ [last old] = old" using assms(1) by (simp add: log_explains_def)
  have "list_all (\<lambda>x. snd (snd x) \<noteq> None) (butlast old @ [last old])"
    using assms(1) unfolding log_explains_def error_of_def list_all_append by simp
  then have "list_all (\<lambda>x. snd (snd x) \<noteq> None) old" unfolding old .
  with assms show ?thesis by (simp add: log_explains_def butlast_append)
qed

context logged_request
begin

lemma round_log:
  assumes "try_endpoints_once client timeout request st = (r, st')" "client_endpoints client \<noteq> []"
  shows "\<exists>new. sent st' = sent st @ new \<and> log_explains new r \<and> set (map fst new) \<subseteq> {rpc_call}
    \<and> prefix (map asked_endpoint new) (map (with_timeout timeout) (round_endpoints client (next_endpoint st)))
    \<and> (isl r \<longrightarrow> map asked_endpoint new = map (with_timeout timeout) (round_endpoints client (next_endpoint st)))"
proof -
  let ?eps = "round_endpoints client (next_endpoint st)"
  have ne: "?eps \<noteq> []" using assms(2) by (metis length_0_conv length_round_endpoints)
  from assms(1) have "try_endpoints timeout request ?eps None (st\<lparr>next_endpoint := wrapping_add 64 (next_endpoint st) 1\<rparr>) = (r, st')"
    by (simp add: try_endpoints_once_def Let_def)
  from try_endpoints_log [OF this] obtain asked new where l: "prefix asked ?eps" "sent st' = sent st @ new"
      "map (\<lambda>(c, ep, _). (c, ep)) new = map (\<lambda>ep. (rpc_call, with_timeout timeout ep)) asked"
      "case r of Inr v \<Rightarrow> new \<noteq> [] \<and> snd (snd (last new)) = None \<and> (\<forall>x \<in> set (butlast new). snd (snd x) \<noteq> None)
       | Inl e' \<Rightarrow> asked = ?eps \<and> (\<forall>x \<in> set new. snd (snd x) \<noteq> None)
           \<and> (?eps \<noteq> [] \<longrightarrow> snd (snd (last new)) = Some e') \<and> (?eps = [] \<longrightarrow> e' = unwrap_or None MissingRpcEndpoints)"
    by (auto simp del: unwrap_or_simps)
  have eps: "map asked_endpoint new = map (with_timeout timeout) asked"
    using arg_cong [OF l(3), of "map snd"] by (simp add: comp_def case_prod_beta' asked_endpoint_def [abs_def])
  have calls: "map fst new = map (\<lambda>_. rpc_call) asked"
    using arg_cong [OF l(3), of "map fst"] by (simp add: comp_def case_prod_beta')
  have "log_explains new r"
  proof (cases r)
    case (Inl e)
    with l(4) eps ne have "new \<noteq> []" by auto
    with l(4) Inl ne show ?thesis by (auto simp: log_explains_def error_of_def list_all_iff dest: in_set_butlastD)
  next
    case (Inr v)
    with l(4) show ?thesis by (auto simp: log_explains_def error_of_def list_all_iff)
  qed
  moreover have "prefix (map asked_endpoint new) (map (with_timeout timeout) ?eps)"
    unfolding eps using l(1) by (rule map_mono_prefix)
  moreover have "isl r \<longrightarrow> map asked_endpoint new = map (with_timeout timeout) ?eps"
    unfolding eps using l(4) by (cases r) auto
  moreover have "set (map fst new) \<subseteq> {rpc_call}" unfolding calls by auto
  ultimately show ?thesis using l(2) by blast
qed

lemma rounds_log:
  assumes "failover_rounds sleep client escalate request attempts le st = (r, st')" "client_endpoints client \<noteq> []" "attempts \<noteq> []"
  shows "\<exists>starts new. sent st' = sent st @ new \<and> length starts \<le> length attempts \<and> log_explains new r \<and> set (map fst new) \<subseteq> {rpc_call}
    \<and> prefix (map asked_endpoint new) (rounds_of client escalate (zip attempts starts))
    \<and> (\<forall>e. r = Inl e \<longrightarrow> map asked_endpoint new = rounds_of client escalate (zip attempts starts)
         \<and> (length starts = length attempts \<or> \<not> is_transient_rpc_error e))"
  using assms(1,3)
proof (induction attempts arbitrary: le st)
  case (Cons k ks)
  let ?st = "if 0 < k then sleep (retry_delay k) st else st"
  have s0: "sent ?st = sent st" by (simp add: sleep_logs)
  obtain q s where q: "try_endpoints_once client (attempt_timeout client k escalate) request ?st = (q, s)" by force
  from round_log [OF this assms(2)] obtain new where new: "sent s = sent st @ new" "log_explains new q" "set (map fst new) \<subseteq> {rpc_call}"
      "prefix (map asked_endpoint new) (map (with_timeout (attempt_timeout client k escalate)) (round_endpoints client (next_endpoint ?st)))"
      "isl q \<longrightarrow> map asked_endpoint new = map (with_timeout (attempt_timeout client k escalate)) (round_endpoints client (next_endpoint ?st))"
    unfolding s0 by blast
  have single: "rounds_of client escalate (zip (k # ks) [next_endpoint ?st])
      = map (with_timeout (attempt_timeout client k escalate)) (round_endpoints client (next_endpoint ?st))"
    by (simp add: rounds_of_def)
  have stop: ?case if "(q, s) = (r, st')" "\<forall>e. q = Inl e \<longrightarrow> ks = [] \<or> \<not> is_transient_rpc_error e"
  proof (intro exI [of _ "[next_endpoint ?st]"] exI [of _ new] conjI)
    show "\<forall>e. r = Inl e \<longrightarrow> map asked_endpoint new = rounds_of client escalate (zip (k # ks) [next_endpoint ?st])
        \<and> (length [next_endpoint ?st] = length (k # ks) \<or> \<not> is_transient_rpc_error e)"
      unfolding single using that new(5) by fastforce
  qed (use that new in \<open>simp_all only: single, simp_all\<close>)
  show ?case
  proof (cases q)
    case (Inr v)
    with Cons.prems q have "(q, s) = (r, st')" by (simp add: Let_def)
    with stop Inr show ?thesis by blast
  next
    case (Inl e)
    show ?thesis
    proof (cases "is_transient_rpc_error e \<and> ks \<noteq> []")
      case False
      with Cons.prems(1) q Inl have "(q, s) = (r, st')" by (cases ks) (auto simp: Let_def split: if_splits)
      with stop False Inl show ?thesis by blast
    next
      case True
      with Cons.prems(1) q Inl have "failover_rounds sleep client escalate request ks (Some e) s = (r, st')" by (simp add: Let_def)
      from Cons.IH [OF this] True obtain starts more where ih: "sent st' = sent s @ more" "length starts \<le> length ks"
          "log_explains more r" "set (map fst more) \<subseteq> {rpc_call}"
          "prefix (map asked_endpoint more) (rounds_of client escalate (zip ks starts))"
          "\<forall>e. r = Inl e \<longrightarrow> map asked_endpoint more = rounds_of client escalate (zip ks starts)
             \<and> (length starts = length ks \<or> \<not> is_transient_rpc_error e)" by blast
      have all: "rounds_of client escalate (zip (k # ks) (next_endpoint ?st # starts)) = map asked_endpoint new @ rounds_of client escalate (zip ks starts)"
        using new(5) Inl by (simp add: rounds_of_def)
      have "log_explains (new @ more) r" by (rule log_explains_append [OF new(2) [unfolded Inl] ih(3)])
      moreover have "prefix (map asked_endpoint (new @ more)) (rounds_of client escalate (zip (k # ks) (next_endpoint ?st # starts)))"
        unfolding all using ih(5) by simp
      ultimately show ?thesis using ih new(1,3) all
        by (intro exI [of _ "next_endpoint ?st # starts"] exI [of _ "new @ more"]) auto
    qed
  qed
qed simp

end

text \<open>Every request the client makes is sent through \<open>send\<close>, and every wait is a \<open>nap\<close>.\<close>

lemma send_logs: "sent (snd (send rpc_call exchange endpoint st)) = sent st @ [(rpc_call, endpoint, error_of (fst (send rpc_call exchange endpoint st)))]"
  by (simp add: send_def split: prod.splits)

interpretation client: logged_request rpc_call "send rpc_call exchange" "nap idle" for rpc_call exchange idle
  by unfold_locales (simp_all add: send_logs nap_def split: prod.splits)

section \<open>Rounds and timeouts\<close>

lemma mset_rotate: "mset (rotate n xs) = mset xs"
proof -
  have "mset (rotate1 ys) = mset ys" for ys :: "'a list" by (cases ys) simp_all
  then show ?thesis by (induction n) simp_all
qed

lemma round_is_rotation:
  assumes "start + length (client_endpoints client) \<le> 2 ^ 64"
  shows "round_endpoints client start = rotate start (client_endpoints client)"
  using assms by (intro nth_equalityI) (simp_all add: round_endpoints_def Let_def nth_rotate wrapping_add_def)

lemma round_permutes:
  "start + length (client_endpoints client) \<le> 2 ^ 64 \<Longrightarrow> mset (round_endpoints client start) = mset (client_endpoints client)"
  by (simp add: round_is_rotation mset_rotate)

lemma attempt_timeout_range:
  assumes "attempt_timeout client attempt escalate = Some t" "client_base_timeout client \<le> BLOCK_FETCH_MAX_TIMEOUT"
  shows "client_base_timeout client \<le> t" "t \<le> BLOCK_FETCH_MAX_TIMEOUT"
proof -
  have "client_base_timeout client \<le> client_base_timeout client * 2 ^ min attempt 16" by simp
  moreover have "BLOCK_FETCH_MAX_TIMEOUT \<le> DURATION_MAX" by (simp add: BLOCK_FETCH_MAX_TIMEOUT_def DURATION_MAX_def)
  ultimately show "client_base_timeout client \<le> t" "t \<le> BLOCK_FETCH_MAX_TIMEOUT"
    using assms by (auto simp: attempt_timeout_def Let_def split: if_splits)
qed

section \<open>Contract of failover\<close>

lemma failover_log:
  assumes "run_failover (nap idle) client attempts escalate (send rpc_call exchange) st = (r, st')"
    and "client_endpoints client \<noteq> []" "0 < attempts"
  shows "\<exists>starts new. sent st' = sent st @ new \<and> length starts \<le> attempts
    \<and> log_explains new r \<and> set (map fst new) \<subseteq> {rpc_call}
    \<and> length new \<le> attempts * length (client_endpoints client)
    \<and> prefix (map asked_endpoint new) (rounds_of client escalate (zip [0..<attempts] starts))
    \<and> (\<forall>e. r = Inl e \<longrightarrow> map asked_endpoint new = rounds_of client escalate (zip [0..<attempts] starts)
         \<and> (length starts = attempts \<or> \<not> is_transient_rpc_error e))"
proof -
  from client.rounds_log [OF assms(1) [unfolded run_failover_def] assms(2)] assms(3)
  obtain starts new where l: "sent st' = sent st @ new" "length starts \<le> attempts" "log_explains new r" "set (map fst new) \<subseteq> {rpc_call}"
      "prefix (map asked_endpoint new) (rounds_of client escalate (zip [0..<attempts] starts))"
      "\<forall>e. r = Inl e \<longrightarrow> map asked_endpoint new = rounds_of client escalate (zip [0..<attempts] starts)
         \<and> (length starts = attempts \<or> \<not> is_transient_rpc_error e)"
    by auto
  have "length new \<le> length (rounds_of client escalate (zip [0..<attempts] starts))"
    using prefix_length_le [OF l(5)] by simp
  also have "\<dots> \<le> attempts * length (client_endpoints client)" by (simp add: length_rounds_of)
  finally have "length new \<le> attempts * length (client_endpoints client)" .
  with l show ?thesis by blast
qed

text \<open>C22. A call through the failover client asks in rounds, each round every endpoint once in rotated order
  with that round's timeout, and stops at the first answer.  It succeeds exactly when the last request it
  made succeeded.  When it fails, every request failed, the reported error is the last one's, every round
  made was complete, and all allowed rounds were made unless the error is permanent.  It never makes more
  than rounds times endpoints requests, and escalated timeouts stay between the configured one and ten
  minutes.\<close>

theorem failover_contract:
  assumes "client_endpoints client \<noteq> []" "0 < attempts" "client_base_timeout client \<le> BLOCK_FETCH_MAX_TIMEOUT"
    and "run_failover (nap idle) client attempts escalate (send rpc_call exchange) st = (r, st')"
  shows "\<exists>starts new. sent st' = sent st @ new \<and> length starts \<le> attempts
    \<and> log_explains new r \<and> set (map fst new) \<subseteq> {rpc_call}
    \<and> length new \<le> attempts * length (client_endpoints client)
    \<and> prefix (map asked_endpoint new) (rounds_of client escalate (zip [0..<attempts] starts))
    \<and> (\<forall>e. r = Inl e \<longrightarrow> map asked_endpoint new = rounds_of client escalate (zip [0..<attempts] starts)
         \<and> (length starts = attempts \<or> \<not> is_transient_rpc_error e))
    \<and> (\<forall>start. start + length (client_endpoints client) \<le> 2 ^ 64 \<longrightarrow>
         mset (round_endpoints client start) = mset (client_endpoints client))
    \<and> (\<forall>attempt t. attempt_timeout client attempt escalate = Some t \<longrightarrow>
         client_base_timeout client \<le> t \<and> t \<le> BLOCK_FETCH_MAX_TIMEOUT)"
  using failover_log [OF assms(4,1,2)] attempt_timeout_range [OF _ assms(3)] round_permutes by blast

text \<open>Two endpoints; the first three requests time out.\<close>

definition demo_client :: sdk_client where
  "demo_client = \<lparr>client_endpoints = map (\<lambda>u. \<lparr>endpoint_url = u, endpoint_timeout = 30000,
     endpoint_max_response_bytes = 1000, endpoint_api_key = None\<rparr>) [''a'', ''b''], client_base_timeout = 30000\<rparr>"

definition demo_exchange :: "(nat, nat) exchange" where
  "demo_exchange endpoint w = (if w < 3 then Inl (Sdk (Http ''timeout'')) else Inr w, 0, w + 1)"

definition demo_world :: "nat rpc_world" where
  "demo_world = \<lparr>next_endpoint = 1, sent = [], outside = 0\<rparr>"

lemma demo_failover:
  "map_prod id (map (map_prod id (\<lambda>(ep, e). (endpoint_url ep, endpoint_timeout ep, e = None))) \<circ> sent)
     (run_failover (nap (\<lambda>_ w. (0, w))) demo_client 5 True (send ''get'' demo_exchange) demo_world) =
   (Inr 3, [(''get'', ''b'', 30000, False), (''get'', ''a'', 30000, False), (''get'', ''a'', 60000, False), (''get'', ''b'', 60000, True)])"
  by (simp add: run_failover_def try_endpoints_once_def round_endpoints_def Let_def demo_client_def demo_world_def send_def
      demo_exchange_def nap_def error_of_def is_transient_rpc_error_def attempt_timeout_def with_timeout_def
      BLOCK_FETCH_MAX_TIMEOUT_def DURATION_MAX_def wrapping_add_def upt_rec, simp add: numeral_3_eq_3 mod_Suc)

theorem failover_contract_witness:
  "\<exists>st'. run_failover (nap (\<lambda>_ w. (0, w))) demo_client 5 True (send ''get'' demo_exchange) demo_world = (Inr 3, st')
     \<and> log_explains (sent st') (Inr 3 :: rpc_error + nat) \<and> length (sent st') \<le> 10"
proof -
  obtain r st' where run: "run_failover (nap (\<lambda>_ w. (0, w))) demo_client 5 True (send ''get'' demo_exchange) demo_world = (r, st')" by force
  have r: "r = Inr 3" using demo_failover by (simp add: run)
  have two: "length (client_endpoints demo_client) = 2" by (simp add: demo_client_def)
  have ok: "client_endpoints demo_client \<noteq> []" "client_base_timeout demo_client \<le> BLOCK_FETCH_MAX_TIMEOUT"
    by (simp_all add: demo_client_def BLOCK_FETCH_MAX_TIMEOUT_def)
  from failover_contract [OF ok(1) _ ok(2) run] obtain new
    where "sent st' = sent demo_world @ new" "log_explains new r" "length new \<le> 5 * length (client_endpoints demo_client)"
    by auto
  with run r two show ?thesis by (simp add: demo_world_def)
qed

end
