(* ===== verification/Block_Fetch.thy ===== *)
theory Block_Fetch
  imports Rpc_Client Event_Projection "HOL-Library.Code_Target_Nat"
begin

text \<open>
  The calls the worker makes through the failover client (\<open>src/crates/rpc/src/lib.rs\<close>) and the block fetch
  that repairs incomplete extended payloads (\<open>fetch_decoded_block_for_projection\<close> in
  \<open>src/crates/ingestion/src/driver.rs\<close>, the predicates in \<open>src/crates/ingestion/src/lib.rs\<close>).

  The SDK's methods on one endpoint are the record \<open>sdk_node\<close> of parameters, and so are what happens while
  a task sleeps and the SDK's decoding of a block from JSON.
\<close>

section \<open>Calls\<close>

record 'a rpc_call_result =
  call_value :: 'a
  raw_result :: json
  canonical_result_bytes :: nat
  call_endpoint :: string

record 'a sdk_payload =
  payload_value :: 'a
  payload_raw_value :: json
  payload_byte_len :: nat
  payload_endpoint :: string

definition payload_from_sdk_response :: "'a rpc_call_result \<Rightarrow> 'a sdk_payload" where
  "payload_from_sdk_response response =
     \<lparr>payload_value = call_value response, payload_raw_value = raw_result response,
      payload_byte_len = canonical_result_bytes response, payload_endpoint = call_endpoint response\<rparr>"

record 'a page =
  page_result :: "'a list option"
  page_cursor :: "string option"

record 'w sdk_node =
  n_block_height :: "string \<Rightarrow> ('w, nat) exchange"
  n_block_by_height :: "string \<Rightarrow> nat \<Rightarrow> ('w, sdk_block) exchange"
  n_block_with_raw :: "string \<Rightarrow> nat \<Rightarrow> ('w, sdk_block rpc_call_result) exchange"
  n_transaction :: "string \<Rightarrow> ('w, sdk_transaction) exchange"
  n_transaction_with_raw :: "string \<Rightarrow> ('w, sdk_transaction rpc_call_result) exchange"
  n_account_info :: "string \<Rightarrow> bool \<Rightarrow> string \<Rightarrow> ('w, sdk_account_info) exchange"
  n_account_infos :: "string list \<Rightarrow> bool \<Rightarrow> string \<Rightarrow> ('w, sdk_account_info list) exchange"
  n_fungible_tokens :: "string \<Rightarrow> string \<Rightarrow> nat \<Rightarrow> nat \<Rightarrow> string \<Rightarrow> bool \<Rightarrow> ('w, sdk_balance page) exchange"
  n_owned_tokens :: "string \<Rightarrow> string \<Rightarrow> nat \<Rightarrow> nat \<Rightarrow> string \<Rightarrow> bool \<Rightarrow> ('w, sdk_token page) exchange"
  n_token_balance :: "string \<Rightarrow> string \<Rightarrow> string \<Rightarrow> bool \<Rightarrow> ('w, sdk_balance) exchange"
  n_tokens :: "bool \<Rightarrow> ('w, sdk_token list) exchange"
  n_contract :: "string \<Rightarrow> string \<Rightarrow> ('w, sdk_contract) exchange"
  n_series_call :: "string \<Rightarrow> json list \<Rightarrow> ('w, sdk_series) exchange"
  n_nft :: "string \<Rightarrow> string \<Rightarrow> bool \<Rightarrow> ('w, sdk_nft) exchange"
  n_nfts :: "string \<Rightarrow> string list \<Rightarrow> bool \<Rightarrow> ('w, sdk_nft list) exchange"
  n_idle :: "nat \<Rightarrow> 'w \<Rightarrow> nat \<times> 'w"
  n_decode_block :: "json \<Rightarrow> string + sdk_block"

type_synonym ('w, 'a) rpc_op = "'w rpc_world \<Rightarrow> (rpc_error + 'a) \<times> 'w rpc_world"

definition asks :: "'w sdk_node \<Rightarrow> sdk_client \<Rightarrow> string \<Rightarrow> ('w, 'a) exchange \<Rightarrow> ('w, 'a) rpc_op" where
  "asks node client rpc_call exchange = with_failover (nap (n_idle node)) client (send rpc_call exchange)"

definition asks_block :: "'w sdk_node \<Rightarrow> sdk_client \<Rightarrow> string \<Rightarrow> ('w, 'a) exchange \<Rightarrow> ('w, 'a) rpc_op" where
  "asks_block node client rpc_call exchange = block_fetch_failover (nap (n_idle node)) client (send rpc_call exchange)"

definition get_block_height :: "'w sdk_node \<Rightarrow> sdk_client \<Rightarrow> string \<Rightarrow> ('w, nat) rpc_op" where
  "get_block_height node client chain = asks node client ''get_block_height'' (n_block_height node chain)"

definition get_block_by_height :: "'w sdk_node \<Rightarrow> sdk_client \<Rightarrow> string \<Rightarrow> nat \<Rightarrow> ('w, sdk_block) rpc_op" where
  "get_block_by_height node client chain height =
     asks_block node client ''get_block_by_height'' (n_block_by_height node chain height)"

definition get_block_by_height_payload ::
    "'w sdk_node \<Rightarrow> sdk_client \<Rightarrow> string \<Rightarrow> nat \<Rightarrow> ('w, sdk_block sdk_payload) rpc_op" where
  "get_block_by_height_payload node client chain height st =
     map_prod (map_ok payload_from_sdk_response) id
       (asks_block node client ''get_block_by_height_payload'' (n_block_with_raw node chain height) st)"

definition get_transaction :: "'w sdk_node \<Rightarrow> sdk_client \<Rightarrow> string \<Rightarrow> ('w, sdk_transaction) rpc_op" where
  "get_transaction node client hash = asks node client ''get_transaction'' (n_transaction node hash)"

definition get_transaction_payload :: "'w sdk_node \<Rightarrow> sdk_client \<Rightarrow> string \<Rightarrow> ('w, sdk_transaction sdk_payload) rpc_op" where
  "get_transaction_payload node client hash st =
     map_prod (map_ok payload_from_sdk_response) id
       (asks node client ''get_transaction_payload'' (n_transaction_with_raw node hash) st)"

definition get_account_info :: "'w sdk_node \<Rightarrow> sdk_client \<Rightarrow> string \<Rightarrow> bool \<Rightarrow> ('w, sdk_account_info) rpc_op" where
  "get_account_info node client address check_reserved =
     asks node client ''get_account_info'' (n_account_info node address check_reserved ''Phantasma'')"

definition get_account_infos :: "'w sdk_node \<Rightarrow> sdk_client \<Rightarrow> string list \<Rightarrow> bool \<Rightarrow> ('w, sdk_account_info list) rpc_op" where
  "get_account_infos node client addresses check_reserved =
     asks node client ''get_account_infos'' (n_account_infos node addresses check_reserved ''Phantasma'')"

definition get_account_fungible_tokens ::
    "'w sdk_node \<Rightarrow> sdk_client \<Rightarrow> string \<Rightarrow> nat \<Rightarrow> string \<Rightarrow> bool \<Rightarrow> ('w, sdk_balance page) rpc_op" where
  "get_account_fungible_tokens node client address page_size cursor check_reserved =
     asks node client ''get_account_fungible_tokens'' (n_fungible_tokens node address [] 0 page_size cursor check_reserved)"

definition get_account_owned_tokens ::
    "'w sdk_node \<Rightarrow> sdk_client \<Rightarrow> string \<Rightarrow> nat \<Rightarrow> string \<Rightarrow> bool \<Rightarrow> ('w, sdk_token page) rpc_op" where
  "get_account_owned_tokens node client address page_size cursor check_reserved =
     asks node client ''get_account_owned_tokens'' (n_owned_tokens node address [] 0 page_size cursor check_reserved)"

definition get_token_balance ::
    "'w sdk_node \<Rightarrow> sdk_client \<Rightarrow> string \<Rightarrow> string \<Rightarrow> string \<Rightarrow> bool \<Rightarrow> ('w, sdk_balance) rpc_op" where
  "get_token_balance node client address symbol chain check_reserved =
     asks node client ''get_token_balance'' (n_token_balance node address symbol chain check_reserved)"

definition get_tokens :: "'w sdk_node \<Rightarrow> sdk_client \<Rightarrow> bool \<Rightarrow> ('w, sdk_token list) rpc_op" where
  "get_tokens node client extended = asks node client ''get_tokens'' (n_tokens node extended)"

definition get_contract :: "'w sdk_node \<Rightarrow> sdk_client \<Rightarrow> string \<Rightarrow> string \<Rightarrow> ('w, sdk_contract) rpc_op" where
  "get_contract node client chain contract_name = asks node client ''get_contract'' (n_contract node contract_name chain)"

definition get_token_series_by_id :: "'w sdk_node \<Rightarrow> sdk_client \<Rightarrow> string \<Rightarrow> string \<Rightarrow> ('w, sdk_series) rpc_op" where
  "get_token_series_by_id node client symbol series_id =
     asks node client ''getTokenSeriesById''
       (n_series_call node ''getTokenSeriesById'' [JString symbol, JString ''0'', JString series_id, JString ''0''])"

definition get_nft :: "'w sdk_node \<Rightarrow> sdk_client \<Rightarrow> string \<Rightarrow> string \<Rightarrow> bool \<Rightarrow> ('w, sdk_nft) rpc_op" where
  "get_nft node client symbol token_id extended = asks node client ''get_nft'' (n_nft node symbol token_id extended)"

definition get_nfts :: "'w sdk_node \<Rightarrow> sdk_client \<Rightarrow> string \<Rightarrow> string list \<Rightarrow> bool \<Rightarrow> ('w, sdk_nft list) rpc_op" where
  "get_nfts node client symbol token_ids extended = asks node client ''get_nfts'' (n_nfts node symbol token_ids extended)"

definition decode_block_result :: "'w sdk_node \<Rightarrow> json \<Rightarrow> rpc_error + sdk_block" where
  "decode_block_result node raw_value = map_err (JsonDecode ''BlockResult'') (n_decode_block node raw_value)"

text \<open>The text of an RPC error, which the ingestion error carries.\<close>

fun rpc_error_text :: "rpc_error \<Rightarrow> string" where
  "rpc_error_text MissingRpcEndpoints = ''at least one Phantasma JSON-RPC endpoint must be configured''"
| "rpc_error_text (Sdk (Http e)) = ''Phantasma SDK RPC call failed: '' @ e"
| "rpc_error_text (Sdk (OtherFailure e)) = ''Phantasma SDK RPC call failed: '' @ e"
| "rpc_error_text (JsonDecode target _) = ''SDK JSON-RPC result could not be decoded as '' @ target"
| "rpc_error_text (UnterminatedPagination endpoint address pages) =
     endpoint @ '' did not end its cursor pagination for '' @ address @ '' after '' @ show_nat pages @ '' pages''"

abbreviation of_rpc :: "rpc_error + 'a \<Rightarrow> ingestion_error + 'a" where
  "of_rpc \<equiv> map_err (\<lambda>e. Rpc (rpc_error_text e))"

section \<open>Incomplete extended payloads\<close>

abbreviation kind_is :: "string \<Rightarrow> sdk_event \<Rightarrow> bool" where
  "kind_is kind event \<equiv> eq_ignore_ascii_case (ev_kind event) kind"

definition transaction_has_incomplete_special_resolution :: "sdk_transaction \<Rightarrow> bool" where
  "transaction_has_incomplete_special_resolution tx =
     (if \<not> list_ex (\<lambda>e. kind_is ''SpecialResolution'' e \<and> eq_ignore_ascii_case (ev_contract e) ''governance'') (tx_events tx)
      then False
      else case find (\<lambda>e. ex_kind_is ''SpecialResolution'' e \<and> eq_ignore_ascii_case (ex_contract e) ''governance'')
                  (tx_extended_events tx) of
             None \<Rightarrow> False
           | Some extended \<Rightarrow>
               (case ex_data extended of SpecialResolutionData _ \<Rightarrow> True | _ \<Rightarrow> False)
               \<and> special_resolution_payload (ex_data extended) = None)"

definition transaction_has_incomplete_token_create :: "sdk_transaction \<Rightarrow> bool" where
  "transaction_has_incomplete_token_create tx =
     (if \<not> list_ex (kind_is ''TokenCreate'') (tx_events tx) then False
      else case find (ex_kind_is ''TokenCreate'') (tx_extended_events tx) of
             None \<Rightarrow> False
           | Some extended \<Rightarrow>
               (case ex_data extended of TokenCreateData _ \<Rightarrow> True | _ \<Rightarrow> False)
               \<and> token_create_payload (ex_data extended) = None)"

definition transaction_has_incomplete_token_series_create :: "sdk_transaction \<Rightarrow> bool" where
  "transaction_has_incomplete_token_series_create tx =
     (case find (ex_kind_is ''TokenSeriesCreate'') (tx_extended_events tx) of
        None \<Rightarrow> False
      | Some extended \<Rightarrow>
          (case ex_data extended of TokenSeriesCreateData _ \<Rightarrow> True | _ \<Rightarrow> False)
          \<and> token_series_create_payload (ex_data extended) = None)"

definition transaction_has_incomplete_extended_payload :: "sdk_transaction \<Rightarrow> bool" where
  "transaction_has_incomplete_extended_payload tx \<longleftrightarrow>
     transaction_has_incomplete_special_resolution tx \<or> transaction_has_incomplete_token_create tx
     \<or> transaction_has_incomplete_token_series_create tx"

record incomplete_payload =
  inc_tx_index :: nat
  inc_event_kind :: string

definition incomplete_kind :: "sdk_transaction \<Rightarrow> string option" where
  "incomplete_kind tx =
     (if transaction_has_incomplete_special_resolution tx then Some ''SpecialResolution''
      else if transaction_has_incomplete_token_create tx then Some ''TokenCreate''
      else if transaction_has_incomplete_token_series_create tx then Some ''TokenSeriesCreate''
      else None)"

definition incomplete_extended_payload :: "sdk_block \<Rightarrow> incomplete_payload option" where
  "incomplete_extended_payload block =
     find_map (\<lambda>(tx_index, tx). map_option (\<lambda>kind. \<lparr>inc_tx_index = tx_index, inc_event_kind = kind\<rparr>) (incomplete_kind tx))
       (enumerate 0 (blk_txs block))"

section \<open>Repair\<close>

definition try_complete_transaction ::
    "'w sdk_node \<Rightarrow> sdk_client \<Rightarrow> nat \<Rightarrow> sdk_block \<Rightarrow> 'w rpc_world \<Rightarrow>
     (ingestion_error + sdk_block \<times> bool) \<times> 'w rpc_world" where
  "try_complete_transaction node client tx_index block st =
     (if length (blk_txs block) \<le> tx_index then (Inr (block, False), st)
      else case non_empty_string (tx_hash (blk_txs block ! tx_index)) of
             None \<Rightarrow> (Inr (block, False), st)
           | Some hash \<Rightarrow>
               (case get_transaction node client hash st of
                  (Inl e, st') \<Rightarrow> (Inl (Rpc (rpc_error_text e)), st')
                | (Inr tx, st') \<Rightarrow>
                    if transaction_has_incomplete_extended_payload tx then (Inr (block, False), st')
                    else (Inr (block\<lparr>blk_txs := (blk_txs block)[tx_index := tx]\<rparr>, True), st')))"

lemma find_map_enumerate:
  "find_map (\<lambda>(i, x). map_option (g i) (f x)) (enumerate n xs) = Some y \<Longrightarrow>
   \<exists>i < length xs. \<exists>k. f (xs ! i) = Some k \<and> y = g (n + i) k"
proof (induction xs arbitrary: n)
  case (Cons x xs)
  show ?case
  proof (cases "f x")
    case None
    with Cons.prems have "find_map (\<lambda>(i, x). map_option (g i) (f x)) (enumerate (Suc n) xs) = Some y" by simp
    from Cons.IH [OF this] obtain i k where "i < length xs" "f (xs ! i) = Some k" "y = g (Suc n + i) k" by blast
    then have "Suc i < length (x # xs) \<and> f ((x # xs) ! Suc i) = Some k \<and> y = g (n + Suc i) k" by simp
    then show ?thesis by blast
  next
    case (Some k)
    with Cons.prems have "0 < length (x # xs) \<and> f ((x # xs) ! 0) = Some k \<and> y = g (n + 0) k" by simp
    then show ?thesis by blast
  qed
qed simp

lemma find_map_enumerate_None:
  "find_map (\<lambda>(i, x). map_option (g i) (f x)) (enumerate n xs) = None \<longleftrightarrow> (\<forall>x \<in> set xs. f x = None)"
  by (induction xs arbitrary: n) (auto split: option.splits)

lemma incomplete_kind_None: "incomplete_kind tx = None \<longleftrightarrow> \<not> transaction_has_incomplete_extended_payload tx"
  by (simp add: incomplete_kind_def transaction_has_incomplete_extended_payload_def)

lemma incomplete_Some:
  "incomplete_extended_payload block = Some inc \<Longrightarrow>
   inc_tx_index inc < length (blk_txs block) \<and> transaction_has_incomplete_extended_payload (blk_txs block ! inc_tx_index inc)"
  unfolding incomplete_extended_payload_def
  by (drule find_map_enumerate) (auto, metis incomplete_kind_None option.distinct(1))

lemma incomplete_None:
  "incomplete_extended_payload block = None \<longleftrightarrow> (\<forall>tx \<in> set (blk_txs block). \<not> transaction_has_incomplete_extended_payload tx)"
  by (simp add: incomplete_extended_payload_def find_map_enumerate_None incomplete_kind_None)

lemma try_complete_keeps_length:
  "try_complete_transaction node client i block st = (Inr (block', b), st') \<Longrightarrow> length (blk_txs block') = length (blk_txs block)"
  by (auto simp: try_complete_transaction_def split: if_splits option.splits prod.splits sum.splits)

text \<open>The repair loop: the repaired block, or the payload that stays incomplete.\<close>

function repair ::
    "'w sdk_node \<Rightarrow> sdk_client \<Rightarrow> nat list \<Rightarrow> sdk_block \<Rightarrow> 'w rpc_world \<Rightarrow>
     (ingestion_error + (sdk_block + incomplete_payload)) \<times> 'w rpc_world" where
  "repair node client completed block st =
     (case incomplete_extended_payload block of
        None \<Rightarrow> (Inr (Inl block), st)
      | Some incomplete \<Rightarrow>
          if inc_tx_index incomplete \<in> set completed then (Inr (Inr incomplete), st)
          else case try_complete_transaction node client (inc_tx_index incomplete) block st of
                 (Inl e, st') \<Rightarrow> (Inl e, st')
               | (Inr (block', done), st') \<Rightarrow>
                   if done then repair node client (inc_tx_index incomplete # completed) block' st'
                   else (Inr (Inr incomplete), st'))"
  by pat_completeness auto
termination
proof (relation "measure (\<lambda>(node, client, completed, block, st). card ({..<length (blk_txs block)} - set completed))", goal_cases)
  case (2 node client completed block st inc q st' r block' b)
  from 2(4) 2(3) have keep: "length (blk_txs block') = length (blk_txs block)"
    using try_complete_keeps_length 2 by metis
  let ?open = "{..<length (blk_txs block)} - set completed"
  have "inc_tx_index inc \<in> ?open" using 2(1,2) incomplete_Some by auto
  then have "card (?open - {inc_tx_index inc}) < card ?open" by (intro card_Diff1_less) auto
  moreover have "?open - {inc_tx_index inc} = {..<length (blk_txs block')} - set (inc_tx_index inc # completed)"
    using keep by auto
  ultimately show ?case by simp
qed simp

declare repair.simps [simp del]

section \<open>Fetching a block for projection\<close>

definition SPECIAL_RESOLUTION_REFETCH_ATTEMPTS :: nat where "SPECIAL_RESOLUTION_REFETCH_ATTEMPTS = 25"
definition EXTENDED_PAYLOAD_REFETCH_MAX_BLOCK_BYTES :: nat where "EXTENDED_PAYLOAD_REFETCH_MAX_BLOCK_BYTES = 16 * 1024 * 1024"
definition SPECIAL_RESOLUTION_REFETCH_DELAY_MS :: nat where "SPECIAL_RESOLUTION_REFETCH_DELAY_MS = 50"

definition incomplete_error :: "nat \<Rightarrow> incomplete_payload option \<Rightarrow> ingestion_error" where
  "incomplete_error height last_incomplete =
     EventPayloadDecode height (unwrap_or (map_option inc_tx_index last_incomplete) 0) 0
       (unwrap_or (map_option inc_event_kind last_incomplete) ''extended'')"

fun fetch_attempts ::
    "'w sdk_node \<Rightarrow> sdk_client \<Rightarrow> string \<Rightarrow> nat \<Rightarrow> nat list \<Rightarrow> nat \<Rightarrow> incomplete_payload option \<Rightarrow> 'w rpc_world \<Rightarrow>
     (ingestion_error + sdk_block) \<times> 'w rpc_world" where
  "fetch_attempts node client chain height [] max_attempts last_incomplete st =
     (Inl (incomplete_error height last_incomplete), st)"
| "fetch_attempts node client chain height (attempt # attempts) max_attempts last_incomplete st =
     (case get_block_by_height_payload node client chain height st of
        (Inl e, st) \<Rightarrow> (Inl (Rpc (rpc_error_text e)), st)
      | (Inr payload, st) \<Rightarrow>
          (let max_attempts = (if attempt = 1 \<and> EXTENDED_PAYLOAD_REFETCH_MAX_BLOCK_BYTES < payload_byte_len payload
                               then 1 else max_attempts)
           in case decode_block_result node (payload_raw_value payload) of
                Inl e \<Rightarrow> (Inl (Rpc (rpc_error_text e)), st)
              | Inr block \<Rightarrow>
                  (case repair node client [] block st of
                     (Inl e, st) \<Rightarrow> (Inl e, st)
                   | (Inr (Inl block), st) \<Rightarrow> (Inr block, st)
                   | (Inr (Inr unresolved), st) \<Rightarrow>
                       if attempt < max_attempts
                       then fetch_attempts node client chain height attempts max_attempts (Some unresolved)
                              (nap (n_idle node) SPECIAL_RESOLUTION_REFETCH_DELAY_MS st)
                       else (Inl (incomplete_error height (Some unresolved)), st))))"

definition fetch_decoded_block_for_projection ::
    "'w sdk_node \<Rightarrow> sdk_client \<Rightarrow> string \<Rightarrow> nat \<Rightarrow> 'w rpc_world \<Rightarrow> (ingestion_error + sdk_block) \<times> 'w rpc_world" where
  "fetch_decoded_block_for_projection node client chain height st =
     fetch_attempts node client chain height [1..<SPECIAL_RESOLUTION_REFETCH_ATTEMPTS + 1]
       SPECIAL_RESOLUTION_REFETCH_ATTEMPTS None st"

section \<open>What repair does\<close>

abbreviation complete_tx :: "sdk_transaction \<Rightarrow> bool" where
  "complete_tx tx \<equiv> \<not> transaction_has_incomplete_extended_payload tx"

text \<open>A repaired block differs only in transactions that were incomplete.\<close>

definition repaired :: "sdk_block \<Rightarrow> sdk_block \<Rightarrow> bool" where
  "repaired block block' \<longleftrightarrow>
     block' = block\<lparr>blk_txs := blk_txs block'\<rparr>
     \<and> list_all2 (\<lambda>tx tx'. complete_tx tx \<longrightarrow> tx' = tx) (blk_txs block) (blk_txs block')"

lemma repaired_refl [simp]: "repaired block block"
  by (simp add: repaired_def list_all2_same)

lemma repaired_update:
  assumes "i < length (blk_txs block)" "\<not> complete_tx (blk_txs block ! i)"
  shows "repaired block (block\<lparr>blk_txs := (blk_txs block)[i := tx]\<rparr>)"
  using assms by (auto simp: repaired_def list_all2_conv_all_nth nth_list_update)

lemma repaired_trans:
  assumes "repaired b1 b2" "repaired b2 b3"
  shows "repaired b1 b3"
proof -
  have "list_all2 (\<lambda>tx tx'. complete_tx tx \<longrightarrow> tx' = tx) (blk_txs b1) (blk_txs b3)"
    using assms unfolding repaired_def by (elim conjE) (erule list_all2_trans [rotated], assumption, blast)
  moreover have "b3 = b1\<lparr>blk_txs := blk_txs b3\<rparr>"
  proof -
    have "b3 = b2\<lparr>blk_txs := blk_txs b3\<rparr>" "b2 = b1\<lparr>blk_txs := blk_txs b2\<rparr>" using assms by (simp_all add: repaired_def)
    then show ?thesis by (metis sdk_block.update_convs(8) sdk_block.surjective)
  qed
  ultimately show ?thesis by (simp add: repaired_def)
qed

lemma try_complete_outcome:
  assumes "try_complete_transaction node client i block st = (r, st')"
  shows "case r of Inl e \<Rightarrow> \<exists>t. e = Rpc t
    | Inr (block', b) \<Rightarrow> (if b then \<exists>tx. complete_tx tx \<and> i < length (blk_txs block) \<and> block' = block\<lparr>blk_txs := (blk_txs block)[i := tx]\<rparr>
        else block' = block)"
  using assms unfolding try_complete_transaction_def
  by (auto split: if_splits option.splits prod.splits sum.splits)

lemma repair_outcome:
  assumes "repair node client completed block st = (r, st')" "\<forall>i \<in> set completed. i < length (blk_txs block) \<longrightarrow> complete_tx (blk_txs block ! i)"
  shows "case r of Inl e \<Rightarrow> \<exists>t. e = Rpc t
    | Inr (Inl block') \<Rightarrow> incomplete_extended_payload block' = None \<and> repaired block block'
    | Inr (Inr inc) \<Rightarrow> inc_tx_index inc \<notin> set completed \<and> inc_tx_index inc < length (blk_txs block)
        \<and> \<not> complete_tx (blk_txs block ! inc_tx_index inc)"
  using assms
proof (induction node client completed block st rule: repair.induct)
  case (1 node client completed block st)
  show ?case
  proof (cases "incomplete_extended_payload block")
    case None
    with 1 show ?thesis by (auto simp: repair.simps [of _ _ completed block])
  next
    case (Some inc)
    let ?i = "inc_tx_index inc"
    note inc = incomplete_Some [OF Some]
    with "1.prems"(2) have new: "?i \<notin> set completed" by blast
    obtain q s where q: "try_complete_transaction node client ?i block st = (q, s)" by force
    note out = try_complete_outcome [OF q]
    show ?thesis
    proof (cases q)
      case (Inl e)
      with out q Some new "1.prems"(1) show ?thesis by (auto simp: repair.simps [of _ _ completed block])
    next
      case (Inr p)
      obtain block' b where p: "p = (block', b)" by force
      show ?thesis
      proof (cases b)
        case False
        with Inr p q Some new "1.prems"(1) inc show ?thesis by (auto simp: repair.simps [of _ _ completed block])
      next
        case True
        with out Inr p obtain tx where tx: "complete_tx tx" "block' = block\<lparr>blk_txs := (blk_txs block)[?i := tx]\<rparr>" by auto
        have rec: "repair node client (?i # completed) block' s = (r, st')"
          using "1.prems"(1) Inr p q Some new True by (simp add: repair.simps [of _ _ completed block])
        have "\<forall>j \<in> set (?i # completed). j < length (blk_txs block') \<longrightarrow> complete_tx (blk_txs block' ! j)"
          using "1.prems"(2) tx inc by (auto simp: nth_list_update)
        note ih = "1.IH" [OF Some new q [symmetric] Inr p [symmetric] True rec this]
        have "repaired block block'" using tx(2) inc repaired_update by simp
        then show ?thesis using ih tx
          by (auto split: sum.splits dest: repaired_trans simp: nth_list_update split: if_splits)
      qed
    qed
  qed
qed

section \<open>Requests of a block fetch\<close>

definition block_requests :: "'w rpc_world \<Rightarrow> nat" where
  "block_requests st = length (filter (\<lambda>x. fst x = ''get_block_by_height_payload'') (sent st))"

lemma block_requests_append:
  assumes "sent st' = sent st @ new" "set (map fst new) \<subseteq> {c}"
  shows "block_requests st' \<le> block_requests st + length new"
    "c \<noteq> ''get_block_by_height_payload'' \<Longrightarrow> block_requests st' = block_requests st"
proof -
  show "block_requests st' \<le> block_requests st + length new" by (simp add: block_requests_def assms(1))
  show "c \<noteq> ''get_block_by_height_payload'' \<Longrightarrow> block_requests st' = block_requests st"
    using assms(2) by (auto simp: block_requests_def assms(1) filter_empty_conv)
qed

lemma nap_requests [simp]: "block_requests (nap idle ms st) = block_requests st"
  by (simp add: block_requests_def nap_def split: prod.splits)

lemma get_transaction_requests:
  assumes "get_transaction node client hash st = (r, st')" "client_endpoints client \<noteq> []"
  shows "block_requests st' = block_requests st"
  using failover_log [OF assms(1) [unfolded get_transaction_def asks_def with_failover_def] assms(2)]
    block_requests_append(2) [of st' st _ "''get_transaction''"]
  by (auto simp: MAX_RPC_ATTEMPTS_def)

lemma get_block_requests:
  assumes "get_block_by_height_payload node client chain height st = (r, st')" "client_endpoints client \<noteq> []"
  shows "block_requests st' \<le> block_requests st + 5 * length (client_endpoints client)"
proof -
  obtain q where q: "asks_block node client ''get_block_by_height_payload'' (n_block_with_raw node chain height) st = (q, st')"
    using assms(1) by (cases "asks_block node client ''get_block_by_height_payload'' (n_block_with_raw node chain height) st")
      (simp add: get_block_by_height_payload_def)
  from failover_log [OF q [unfolded asks_block_def block_fetch_failover_def] assms(2)] obtain new
    where "sent st' = sent st @ new" "set (map fst new) \<subseteq> {''get_block_by_height_payload''}"
      "length new \<le> 5 * length (client_endpoints client)" by (auto simp: BLOCK_FETCH_MAX_ATTEMPTS_def)
  from block_requests_append(1) [OF this(1,2)] this(3) show ?thesis by simp
qed

lemma try_complete_requests:
  assumes "try_complete_transaction node client i block st = (r, st')" "client_endpoints client \<noteq> []"
  shows "block_requests st' = block_requests st"
  using assms unfolding try_complete_transaction_def
  by (auto split: if_splits option.splits prod.splits sum.splits dest!: get_transaction_requests)

lemma repair_requests:
  assumes "repair node client completed block st = (r, st')" "client_endpoints client \<noteq> []"
  shows "block_requests st' = block_requests st"
  using assms
proof (induction node client completed block st rule: repair.induct)
  case (1 node client completed block st)
  note unfold = repair.simps [of node client completed block st]
  show ?case
  proof (cases "incomplete_extended_payload block")
    case (Some inc)
    show ?thesis
    proof (cases "inc_tx_index inc \<in> set completed")
      case False
      obtain q s where q: "try_complete_transaction node client (inc_tx_index inc) block st = (q, s)" by force
      note s = try_complete_requests [OF q "1.prems"(2)]
      show ?thesis
      proof (cases "\<exists>block'. q = Inr (block', True)")
        case True
        then obtain block' where b: "q = Inr (block', True)" by blast
        with "1.prems"(1) Some False q have "repair node client (inc_tx_index inc # completed) block' s = (r, st')" by (simp add: unfold)
        with "1.IH" [OF Some False q [symmetric] b refl _ this "1.prems"(2)] s show ?thesis by simp
      next
        case no: False
        with "1.prems"(1) Some False q have "st' = s" by (auto simp: unfold split: sum.splits prod.splits if_splits)
        with s show ?thesis by simp
      qed
    qed (use "1.prems"(1) Some in \<open>simp add: unfold\<close>)
  qed (use "1.prems"(1) in \<open>simp add: unfold\<close>)
qed

lemma fetch_attempts_requests:
  assumes "fetch_attempts node client chain height attempts max_attempts li st = (r, st')" "client_endpoints client \<noteq> []"
  shows "block_requests st' \<le> block_requests st + length attempts * (5 * length (client_endpoints client))"
  using assms(1)
proof (induction attempts arbitrary: max_attempts li st)
  case (Cons attempt attempts)
  let ?n = "5 * length (client_endpoints client)"
  obtain p s1 where p: "get_block_by_height_payload node client chain height st = (p, s1)" by force
  note s1 = get_block_requests [OF p assms(2)]
  have stop: "block_requests s = block_requests s1 \<Longrightarrow> ?case" if "st' = s" for s using that s1 by simp
  show ?case
  proof (cases "\<exists>payload block. p = Inr payload \<and> decode_block_result node (payload_raw_value payload) = Inr block")
    case False
    with Cons.prems p have "st' = s1" by (auto simp: Let_def split: sum.splits)
    with stop show ?thesis by blast
  next
    case True
    then obtain payload block where pb: "p = Inr payload" "decode_block_result node (payload_raw_value payload) = Inr block" by blast
    obtain q s2 where q: "repair node client [] block s1 = (q, s2)" by force
    note s2 = repair_requests [OF q assms(2)]
    from Cons.prems p pb q consider "st' = s2"
      | ma u where "fetch_attempts node client chain height attempts ma (Some u) (nap (n_idle node) SPECIAL_RESOLUTION_REFETCH_DELAY_MS s2) = (r, st')"
      by (auto simp: Let_def split: sum.splits if_splits)
    then show ?thesis
    proof cases
      case 1
      with stop s2 show ?thesis by blast
    next
      case 2
      from Cons.IH [OF 2] s1 s2 show ?thesis by simp
    qed
  qed
qed simp

lemma fetch_attempts_outcome:
  assumes "fetch_attempts node client chain height attempts max_attempts li st = (r, st')"
  shows "case r of
      Inr b \<Rightarrow> incomplete_extended_payload b = None \<and> (\<exists>s payload s' block. get_block_by_height_payload node client chain height s = (Inr payload, s')
        \<and> decode_block_result node (payload_raw_value payload) = Inr block \<and> repaired block b)
    | Inl e \<Rightarrow> (\<exists>t. e = Rpc t) \<or> (\<exists>i kind. e = EventPayloadDecode height i 0 kind)"
  using assms
proof (induction attempts arbitrary: max_attempts li st)
  case Nil
  then show ?case by (auto simp: incomplete_error_def)
next
  case (Cons attempt attempts)
  obtain p s1 where p: "get_block_by_height_payload node client chain height st = (p, s1)" by force
  show ?case
  proof (cases "\<exists>payload block. p = Inr payload \<and> decode_block_result node (payload_raw_value payload) = Inr block")
    case False
    with Cons.prems p show ?thesis by (auto simp: Let_def split: sum.splits)
  next
    case True
    then obtain payload block where pb: "p = Inr payload" "decode_block_result node (payload_raw_value payload) = Inr block" by blast
    obtain q s2 where q: "repair node client [] block s1 = (q, s2)" by force
    note out = repair_outcome [OF q]
    show ?thesis
    proof (cases "\<exists>u. q = Inr (Inr u)")
      case True
      then obtain u where "q = Inr (Inr u)" by blast
      with Cons.prems p pb q Cons.IH show ?thesis
        by (auto simp: Let_def incomplete_error_def split: if_splits)
    next
      case False
      with Cons.prems p pb q out show ?thesis by (auto simp: Let_def split: sum.splits)
    qed
  qed
qed

section \<open>Properties\<close>

text \<open>C8. Only complete blocks reach the projection.  A fetched block has no incomplete extended payload; it is a
  block the node served, changed only in transactions that were incomplete there.  A fetch that fails does
  so with the node's error or with the decode error of its own height, never with a database failure.\<close>

theorem fetched_block_complete:
  assumes "fetch_decoded_block_for_projection node client chain height st = (r, st')"
  shows "(\<forall>b. r = Inr b \<longrightarrow>
      (\<forall>tx \<in> set (blk_txs b). \<not> transaction_has_incomplete_extended_payload tx)
      \<and> (\<exists>s payload s' block. get_block_by_height_payload node client chain height s = (Inr payload, s')
           \<and> decode_block_result node (payload_raw_value payload) = Inr block \<and> b = block\<lparr>blk_txs := blk_txs b\<rparr>
           \<and> length (blk_txs b) = length (blk_txs block)
           \<and> (\<forall>i < length (blk_txs b). \<not> transaction_has_incomplete_extended_payload (blk_txs block ! i) \<longrightarrow>
                blk_txs b ! i = blk_txs block ! i)))
    \<and> (\<forall>e. r = Inl e \<longrightarrow> \<not> is_database_failure e
         \<and> ((\<exists>t. e = Rpc t) \<or> (\<exists>i kind. e = EventPayloadDecode height i 0 kind)))"
proof (intro conjI allI impI)
  note out = fetch_attempts_outcome [OF assms [unfolded fetch_decoded_block_for_projection_def]]
  {
    fix b assume r: "r = Inr b"
    from out r have none: "incomplete_extended_payload b = None" by simp
    then show "\<forall>tx \<in> set (blk_txs b). \<not> transaction_has_incomplete_extended_payload tx" by (simp add: incomplete_None)
    from out r obtain s payload s' block where "get_block_by_height_payload node client chain height s = (Inr payload, s')"
      "decode_block_result node (payload_raw_value payload) = Inr block" "repaired block b" by auto
    moreover from this(3) have "b = block\<lparr>blk_txs := blk_txs b\<rparr>" "length (blk_txs b) = length (blk_txs block)"
      "\<forall>i < length (blk_txs b). \<not> transaction_has_incomplete_extended_payload (blk_txs block ! i) \<longrightarrow>
         blk_txs b ! i = blk_txs block ! i" by (auto simp: repaired_def list_all2_conv_all_nth)
    ultimately show "\<exists>s payload s' block. get_block_by_height_payload node client chain height s = (Inr payload, s')
        \<and> decode_block_result node (payload_raw_value payload) = Inr block \<and> b = block\<lparr>blk_txs := blk_txs b\<rparr>
        \<and> length (blk_txs b) = length (blk_txs block)
        \<and> (\<forall>i < length (blk_txs b). \<not> transaction_has_incomplete_extended_payload (blk_txs block ! i) \<longrightarrow>
             blk_txs b ! i = blk_txs block ! i)" by blast
  }
  fix e assume "r = Inl e"
  with out show "\<not> is_database_failure e" "(\<exists>t. e = Rpc t) \<or> (\<exists>i kind. e = EventPayloadDecode height i 0 kind)"
    by (auto simp: is_database_failure_def)
qed

text \<open>A node that serves a block whose series creation is a shell, and the transaction in full.\<close>

definition unanswered :: "('w, 'a) exchange" where
  "unanswered endpoint w = (Inl (Sdk (OtherFailure ''not served'')), 0, w)"

definition demo_series :: "string \<Rightarrow> sdk_event_ex" where
  "demo_series symbol = \<lparr>ex_kind = ''TokenSeriesCreate'', ex_contract = symbol,
     ex_data = TokenSeriesCreateData \<lparr>tsc_symbol = symbol, tsc_series_id = ''1'', tsc_max_mint = 0, tsc_max_supply = 0,
       tsc_owner = ''P'', tsc_carbon_token_id = 0, tsc_carbon_series_id = 0, tsc_metadata = []\<rparr>\<rparr>"

definition demo_block :: "string \<Rightarrow> sdk_block" where
  "demo_block symbol = \<lparr>blk_hash = ''BB'', blk_protocol = 1, blk_chain_address = [], blk_validator_address = [],
     blk_producer_address = None, blk_timestamp = 5, blk_reward = [],
     blk_txs = [(demo_tx [])\<lparr>tx_extended_events := [demo_series symbol]\<rparr>]\<rparr>"

definition demo_node :: "nat \<Rightarrow> string \<Rightarrow> unit sdk_node" where
  "demo_node bytes symbol =
     \<lparr>n_block_height = (\<lambda>_. unanswered), n_block_by_height = (\<lambda>_ _. unanswered),
      n_block_with_raw = (\<lambda>_ _ _ w. (Inr \<lparr>call_value = demo_block [], raw_result = JNull, canonical_result_bytes = bytes,
        call_endpoint = ''a''\<rparr>, 0, w)),
      n_transaction = (\<lambda>_ _ w. (Inr (hd (blk_txs (demo_block symbol))), 0, w)), n_transaction_with_raw = (\<lambda>_. unanswered),
      n_account_info = (\<lambda>_ _ _. unanswered), n_account_infos = (\<lambda>_ _ _. unanswered),
      n_fungible_tokens = (\<lambda>_ _ _ _ _ _. unanswered), n_owned_tokens = (\<lambda>_ _ _ _ _ _. unanswered),
      n_token_balance = (\<lambda>_ _ _ _. unanswered), n_tokens = (\<lambda>_. unanswered), n_contract = (\<lambda>_ _. unanswered),
      n_series_call = (\<lambda>_ _. unanswered), n_nft = (\<lambda>_ _ _. unanswered), n_nfts = (\<lambda>_ _ _. unanswered),
      n_idle = (\<lambda>_ w. (0, w)), n_decode_block = (\<lambda>_. Inr (demo_block []))\<rparr>"

definition demo_rpc :: "unit rpc_world" where
  "demo_rpc = \<lparr>next_endpoint = 0, sent = [], outside = ()\<rparr>"

lemma demo_fetch:
  "map_prod (map_ok (map (map ex_contract \<circ> tx_extended_events) \<circ> blk_txs)) block_requests
     (fetch_decoded_block_for_projection (demo_node 1000 ''CROWN'') demo_client ''main'' 7 demo_rpc) = (Inr [[''CROWN'']], 1)"
  by code_simp

theorem fetched_block_complete_witness:
  "\<exists>b st'. fetch_decoded_block_for_projection (demo_node 1000 ''CROWN'') demo_client ''main'' 7 demo_rpc = (Inr b, st')
     \<and> length (blk_txs b) = 1 \<and> \<not> transaction_has_incomplete_extended_payload (hd (blk_txs b))"
proof -
  obtain r st' where run: "fetch_decoded_block_for_projection (demo_node 1000 ''CROWN'') demo_client ''main'' 7 demo_rpc = (r, st')" by force
  with demo_fetch obtain b where b: "r = Inr b" "map (map ex_contract \<circ> tx_extended_events) (blk_txs b) = [[''CROWN'']]"
    by (cases r) auto
  then have "length (blk_txs b) = 1" "hd (blk_txs b) \<in> set (blk_txs b)" by (auto simp: map_eq_Cons_conv)
  with fetched_block_complete [OF run] b(1) run show ?thesis by blast
qed

text \<open>C24. The load a block fetch puts on the node is bounded: at most 25 block fetches, each at most five rounds
  over the endpoints, and a block above 16 MiB is fetched only once however incomplete it is.\<close>

theorem fetch_load_bounded:
  assumes "fetch_decoded_block_for_projection node client chain height st = (r, st')" "client_endpoints client \<noteq> []"
  shows "block_requests st' \<le> block_requests st + 125 * length (client_endpoints client)
    \<and> (\<forall>payload s1. get_block_by_height_payload node client chain height st = (Inr payload, s1)
         \<longrightarrow> EXTENDED_PAYLOAD_REFETCH_MAX_BLOCK_BYTES < payload_byte_len payload
         \<longrightarrow> block_requests st' \<le> block_requests st + 5 * length (client_endpoints client))"
proof (intro conjI allI impI)
  note run = assms(1) [unfolded fetch_decoded_block_for_projection_def]
  show "block_requests st' \<le> block_requests st + 125 * length (client_endpoints client)"
    using fetch_attempts_requests [OF run assms(2)] by (simp add: SPECIAL_RESOLUTION_REFETCH_ATTEMPTS_def)
  fix payload s1
  assume p: "get_block_by_height_payload node client chain height st = (Inr payload, s1)"
    and big: "EXTENDED_PAYLOAD_REFETCH_MAX_BLOCK_BYTES < payload_byte_len payload"
  have upt: "[1..<SPECIAL_RESOLUTION_REFETCH_ATTEMPTS + 1] = 1 # [Suc 1..<SPECIAL_RESOLUTION_REFETCH_ATTEMPTS + 1]"
    by (subst upt_rec) (simp add: SPECIAL_RESOLUTION_REFETCH_ATTEMPTS_def)
  have "block_requests st' = block_requests s1"
    using run big repair_requests [OF _ assms(2)] unfolding upt
    by (auto simp: p split: sum.splits prod.splits)
  with get_block_requests [OF p assms(2)] show "block_requests st' \<le> block_requests st + 5 * length (client_endpoints client)" by simp
qed

theorem fetch_load_bounded_witness:
  "block_requests (snd (fetch_decoded_block_for_projection (demo_node 20000000 []) demo_client ''main'' 7 demo_rpc)) \<le> 10"
proof -
  let ?node = "demo_node 20000000 []"
  obtain r st' where run: "fetch_decoded_block_for_projection ?node demo_client ''main'' 7 demo_rpc = (r, st')" by force
  have "map_prod (map_ok (\<lambda>p. EXTENDED_PAYLOAD_REFETCH_MAX_BLOCK_BYTES < payload_byte_len p)) (\<lambda>_. ())
      (get_block_by_height_payload ?node demo_client ''main'' 7 demo_rpc) = (Inr True, ())" by code_simp
  then obtain payload s1 where p: "get_block_by_height_payload ?node demo_client ''main'' 7 demo_rpc = (Inr payload, s1)"
    "EXTENDED_PAYLOAD_REFETCH_MAX_BLOCK_BYTES < payload_byte_len payload"
    by (cases "get_block_by_height_payload ?node demo_client ''main'' 7 demo_rpc") (auto simp: map_ok_eq_Inr)
  have two: "length (client_endpoints demo_client) = 2" by (simp add: demo_client_def)
  have start: "block_requests demo_rpc = 0" by (simp add: demo_rpc_def block_requests_def)
  then have "client_endpoints demo_client \<noteq> []" by (metis length_0_conv two zero_neq_numeral)
  from fetch_load_bounded [OF run this] p two start show ?thesis by (auto simp: run)
qed

end
