(* ===== verification/Block_Rows.thy ===== *)
theory Block_Rows
  imports Event_Projection
begin

text \<open>
  Rows of a block and of its transactions (\<open>block_result_to_projection\<close> and
  \<open>transaction_result_to_projection\<close> in \<open>src/crates/ingestion/src/lib.rs\<close>): which answers of the node become
  rows, with which columns, and which fields are refused.
\<close>

section \<open>Rows\<close>

record block_upsert =
  bu_chain :: string
  bu_height :: nat
  bu_hash :: string
  bu_protocol :: "int option"
  bu_chain_address :: "string option"
  bu_validator_address :: "string option"
  bu_producer_address :: "string option"
  bu_timestamp :: int
  bu_reward :: "string option"

record signature_upsert =
  sig_index :: int
  sig_kind :: string
  sig_data :: string

record transaction_upsert =
  tu_block_id :: int
  tu_chain_id :: int
  tu_tx_index :: int
  tu_hash :: string
  tu_timestamp :: int
  tu_state :: string
  tu_result :: "string option"
  tu_debug_comment :: "string option"
  tu_payload :: "string option"
  tu_script_raw :: "string option"
  tu_fee_raw :: "string option"
  tu_gas_price_raw :: "string option"
  tu_gas_limit_raw :: "string option"
  tu_sender :: "string option"
  tu_gas_payer :: "string option"
  tu_gas_target :: "string option"
  tu_carbon_tx_type :: "int option"
  tu_carbon_tx_data :: "string option"
  tu_expiration :: int
  tu_signatures :: "signature_upsert list"

text \<open>\<open>i32::try_from\<close> and \<open>i64::try_from\<close>.\<close>

definition try_i32 :: "int \<Rightarrow> int option" where
  "try_i32 v = (if - (2 ^ 31) \<le> v \<and> v < 2 ^ 31 then Some v else None)"

definition try_i64 :: "int \<Rightarrow> int option" where
  "try_i64 v = (if - (2 ^ 63) \<le> v \<and> v < 2 ^ 63 then Some v else None)"

definition block_result_to_projection :: "string \<Rightarrow> nat \<Rightarrow> sdk_block \<Rightarrow> ingestion_error + block_upsert" where
  "block_result_to_projection chain height block =
     and_then (ok_or (MissingBlockField height ''hash'') (non_empty_string (blk_hash block))) (\<lambda>hash.
     and_then (ok_or (BlockFieldOutOfRange height ''protocol'') (try_i32 (blk_protocol block))) (\<lambda>protocol.
     and_then (ok_or (BlockFieldOutOfRange height ''timestamp'') (try_i64 (blk_timestamp block))) (\<lambda>timestamp.
       Inr \<lparr>bu_chain = chain, bu_height = height, bu_hash = hash, bu_protocol = Some protocol,
            bu_chain_address = non_empty_string (blk_chain_address block),
            bu_validator_address = non_empty_string (blk_validator_address block),
            bu_producer_address = Option.bind (blk_producer_address block) non_empty_string,
            bu_timestamp = timestamp, bu_reward = non_empty_string (blk_reward block)\<rparr>)))"

definition signature_row :: "nat \<Rightarrow> nat \<Rightarrow> nat \<times> string \<times> string \<Rightarrow> ingestion_error + signature_upsert" where
  "signature_row height tx_index = (\<lambda>(index, kind, data).
     map_ok (\<lambda>i. \<lparr>sig_index = i, sig_kind = kind, sig_data = data\<rparr>)
       (ok_or (TransactionFieldOutOfRange height tx_index ''signature_index'') (try_i32 (int index))))"

definition transaction_result_to_projection ::
    "block_record \<Rightarrow> nat \<Rightarrow> sdk_transaction \<Rightarrow> ingestion_error + transaction_upsert" where
  "transaction_result_to_projection block tx_index tx =
     and_then (block_height_u64 block) (\<lambda>height.
     and_then (ok_or (MissingTransactionField height tx_index ''hash'') (non_empty_string (tx_hash tx))) (\<lambda>hash.
     and_then (ok_or (MissingTransactionField height tx_index ''state'') (non_empty_string (tx_state tx))) (\<lambda>state.
     and_then (ok_or (TransactionFieldOutOfRange height tx_index ''timestamp'') (try_i64 (tx_timestamp tx))) (\<lambda>timestamp.
     and_then (ok_or (TransactionFieldOutOfRange height tx_index ''expiration'') (try_i64 (tx_expiration tx))) (\<lambda>expiration.
     and_then (ok_or (TransactionFieldOutOfRange height tx_index ''carbon_tx_type'') (try_i32 (tx_carbon_type tx))) (\<lambda>carbon_tx_type.
     if 255 < carbon_tx_type then Inl (TransactionFieldOutOfRange height tx_index ''carbon_tx_type'')
     else
     and_then (ok_or (TransactionFieldOutOfRange height tx_index ''tx_index'') (try_i32 (int tx_index))) (\<lambda>index.
     and_then (collect_results (map (signature_row height tx_index) (enumerate 0 (tx_signatures tx)))) (\<lambda>signatures.
       Inr \<lparr>tu_block_id = br_id block, tu_chain_id = br_chain_id block, tu_tx_index = index, tu_hash = hash,
            tu_timestamp = timestamp, tu_state = state, tu_result = Some (tx_result tx),
            tu_debug_comment = tx_debug_comment tx, tu_payload = Some (tx_payload tx), tu_script_raw = Some (tx_script tx),
            tu_fee_raw = non_empty_string (tx_fee tx), tu_gas_price_raw = non_empty_string (tx_gas_price tx),
            tu_gas_limit_raw = non_empty_string (tx_gas_limit tx), tu_sender = non_empty_string (tx_sender tx),
            tu_gas_payer = non_empty_string (tx_gas_payer tx), tu_gas_target = non_empty_string (tx_gas_target tx),
            tu_carbon_tx_type = Some carbon_tx_type, tu_carbon_tx_data = non_empty_string (tx_carbon_data tx),
            tu_expiration = expiration, tu_signatures = signatures\<rparr>))))))))"

section \<open>Which answers become rows\<close>

text \<open>The checks of a transaction, in the order the code makes them, each with the error it stands for.\<close>

definition transaction_checks :: "nat \<Rightarrow> nat \<Rightarrow> sdk_transaction \<Rightarrow> (ingestion_error \<times> bool) list" where
  "transaction_checks height i tx =
     [(MissingTransactionField height i ''hash'', trim (tx_hash tx) \<noteq> []),
      (MissingTransactionField height i ''state'', trim (tx_state tx) \<noteq> []),
      (TransactionFieldOutOfRange height i ''timestamp'', - (2 ^ 63) \<le> tx_timestamp tx \<and> tx_timestamp tx < 2 ^ 63),
      (TransactionFieldOutOfRange height i ''expiration'', - (2 ^ 63) \<le> tx_expiration tx \<and> tx_expiration tx < 2 ^ 63),
      (TransactionFieldOutOfRange height i ''carbon_tx_type'', - (2 ^ 31) \<le> tx_carbon_type tx \<and> tx_carbon_type tx \<le> 255),
      (TransactionFieldOutOfRange height i ''tx_index'', int i < 2 ^ 31),
      (TransactionFieldOutOfRange height i ''signature_index'', int (length (tx_signatures tx)) \<le> 2 ^ 31)]"

definition first_failed :: "(ingestion_error \<times> bool) list \<Rightarrow> ingestion_error option" where
  "first_failed checks = map_option fst (find (\<lambda>c. \<not> snd c) checks)"

lemma first_failed_simps [simp]:
  "first_failed [] = None" "first_failed ((e, b) # checks) = (if b then first_failed checks else Some e)"
  by (simp_all add: first_failed_def)

lemma signature_row_Inr:
  "signature_row height i (k, kd) = Inr row \<longleftrightarrow> int k < 2 ^ 31 \<and> row = \<lparr>sig_index = int k, sig_kind = fst kd, sig_data = snd kd\<rparr>"
  by (cases kd) (auto simp: signature_row_def try_i32_def result_eqs ok_or_def split: if_splits)

lemma signature_row_Inl:
  "signature_row height i (k, kd) = Inl e \<longleftrightarrow> \<not> int k < 2 ^ 31 \<and> e = TransactionFieldOutOfRange height i ''signature_index''"
  by (cases kd) (auto simp: signature_row_def try_i32_def map_ok_eq_Inl ok_or_def split: if_splits)

lemma signature_rows:
  "collect_results (map (signature_row height i) (enumerate n sigs)) =
     (if sigs = [] \<or> int (n + length sigs) \<le> 2 ^ 31
      then Inr (map (\<lambda>(k, kind, data). \<lparr>sig_index = int k, sig_kind = kind, sig_data = data\<rparr>) (enumerate n sigs))
      else Inl (TransactionFieldOutOfRange height i ''signature_index''))"
proof (induction sigs arbitrary: n)
  case (Cons kd sigs)
  show ?case
  proof (cases "int n < 2 ^ 31")
    case True
    then have row: "signature_row height i (n, kd) = Inr \<lparr>sig_index = int n, sig_kind = fst kd, sig_data = snd kd\<rparr>"
      by (simp add: signature_row_Inr)
    have "int (n + length (kd # sigs)) \<le> 2 ^ 31 \<longleftrightarrow> sigs = [] \<or> int (Suc n + length sigs) \<le> 2 ^ 31"
      using True by (cases sigs) simp_all
    with row Cons.IH [of "Suc n"] show ?thesis by (cases kd) simp
  next
    case False
    then have "signature_row height i (n, kd) = Inl (TransactionFieldOutOfRange height i ''signature_index'')"
      by (simp add: signature_row_Inl)
    with False show ?thesis by simp
  qed
qed simp

text \<open>C34. A transaction answer becomes a row exactly when every check passes; otherwise the error is that of
  the first check that fails, in the order hash, state, timestamp, expiration, Carbon type, position,
  signatures.  The row belongs to its block, keeps its position, times and signatures in order, and stores
  hash and state trimmed and non-empty.\<close>

theorem transaction_row_checked:
  assumes "0 \<le> br_height block"
  shows "case first_failed (transaction_checks (nat (br_height block)) i tx) of
      Some e \<Rightarrow> transaction_result_to_projection block i tx = Inl e
    | None \<Rightarrow> (\<exists>row. transaction_result_to_projection block i tx = Inr row
        \<and> tu_block_id row = br_id block \<and> tu_chain_id row = br_chain_id block \<and> tu_tx_index row = int i
        \<and> tu_hash row = trim (tx_hash tx) \<and> tu_hash row \<noteq> [] \<and> tu_state row = trim (tx_state tx) \<and> tu_state row \<noteq> []
        \<and> tu_timestamp row = tx_timestamp tx \<and> tu_expiration row = tx_expiration tx
        \<and> tu_carbon_tx_type row = Some (tx_carbon_type tx)
        \<and> map (\<lambda>s. (sig_index s, sig_kind s, sig_data s)) (tu_signatures row) =
            map (\<lambda>(k, kind, data). (int k, kind, data)) (enumerate 0 (tx_signatures tx)))"
  using assms
  by (simp add: transaction_result_to_projection_def transaction_checks_def block_height_u64_def non_empty_string_def
      try_i32_def try_i64_def signature_rows Let_def comp_def case_prod_beta')

theorem transaction_row_checked_witness:
  "transaction_result_to_projection demo_block_record 3 ((demo_tx [])\<lparr>tx_state := '' '', tx_carbon_type := 300\<rparr>) =
     Inl (MissingTransactionField 20 3 ''state'')
   \<and> (\<exists>row. transaction_result_to_projection demo_block_record 3 (demo_tx []) = Inr row \<and> tu_tx_index row = 3)"
proof -
  let ?bad = "(demo_tx [])\<lparr>tx_state := '' '', tx_carbon_type := 300\<rparr>"
  have h: "0 \<le> br_height demo_block_record" by (simp add: demo_block_record_def)
  have "first_failed (transaction_checks (nat (br_height demo_block_record)) 3 ?bad) = Some (MissingTransactionField 20 3 ''state'')"
    "first_failed (transaction_checks (nat (br_height demo_block_record)) 3 (demo_tx [])) = None" by code_simp+
  with transaction_row_checked [OF h, of 3 ?bad] transaction_row_checked [OF h, of 3 "demo_tx []"] show ?thesis by auto
qed

end
