(* ===== verification/Account_Fetch.thy ===== *)
theory Account_Fetch
  imports Block_Fetch
begin

text \<open>
  Account state from the node (\<open>src/crates/ingestion/src/driver.rs\<close>): the walk over a cursor-paginated
  endpoint, the balance rows of one address, and the accounts of a batch of dirty addresses, fetched by
  bounded concurrent tasks.
\<close>

section \<open>Pages\<close>

definition BALANCE_MAX_PAGES :: nat where "BALANCE_MAX_PAGES = 1000"
definition BALANCE_PAGE_SIZE :: nat where "BALANCE_PAGE_SIZE = 100"
definition BALANCE_SYNC_CHUNK_SIZE :: nat where "BALANCE_SYNC_CHUNK_SIZE = 100"
definition BALANCE_FETCH_CONCURRENCY :: nat where "BALANCE_FETCH_CONCURRENCY = 8"

type_synonym ('s, 'a) fetch_page = "string \<Rightarrow> 's \<Rightarrow> (rpc_error + 'a page) \<times> 's"

definition page_rows :: "'a page \<Rightarrow> 'a list" where
  "page_rows page = unwrap_or (page_result page) []"

fun walk_pages ::
    "string \<Rightarrow> string \<Rightarrow> ('s, 'a) fetch_page \<Rightarrow> nat list \<Rightarrow> string \<Rightarrow> 'a list \<Rightarrow> 's \<Rightarrow> (rpc_error + 'a list) \<times> 's" where
  "walk_pages endpoint address fetch_page [] cursor rows st =
     (Inl (UnterminatedPagination endpoint address BALANCE_MAX_PAGES), st)"
| "walk_pages endpoint address fetch_page (page_number # numbers) cursor rows st =
     (case fetch_page cursor st of
        (Inl e, st) \<Rightarrow> (Inl e, st)
      | (Inr page, st) \<Rightarrow>
          (let rows = rows @ page_rows page
           in case page_cursor page of
                Some next \<Rightarrow>
                  if next = [] then (Inr rows, st)
                  else if next \<noteq> cursor then walk_pages endpoint address fetch_page numbers next rows st
                  else (Inl (UnterminatedPagination endpoint address page_number), st)
              | None \<Rightarrow> (Inr rows, st)))"

definition collect_account_pages ::
    "string \<Rightarrow> string \<Rightarrow> ('s, 'a) fetch_page \<Rightarrow> 's \<Rightarrow> (rpc_error + 'a list) \<times> 's" where
  "collect_account_pages endpoint address fetch_page st =
     walk_pages endpoint address fetch_page [1..<BALANCE_MAX_PAGES + 1] [] [] st"

section \<open>Balances of one address\<close>

fun token_balances ::
    "(string \<Rightarrow> ('w, sdk_balance) rpc_op) \<Rightarrow> string set \<Rightarrow> sdk_token list \<Rightarrow> sdk_balance list \<Rightarrow> ('w, sdk_balance list) rpc_op" where
  "token_balances get_balance fungible_symbols [] balances st = (Inr balances, st)"
| "token_balances get_balance fungible_symbols (token # tokens) balances st =
     (if token_symbol token = [] \<or> token_symbol token \<in> fungible_symbols
      then token_balances get_balance fungible_symbols tokens balances st
      else case get_balance (token_symbol token) st of
             (Inl e, st) \<Rightarrow> (Inl e, st)
           | (Inr row, st) \<Rightarrow> token_balances get_balance fungible_symbols tokens (balances @ [row]) st)"

definition fetch_address_balances ::
    "'w sdk_node \<Rightarrow> sdk_client \<Rightarrow> string \<Rightarrow> string \<Rightarrow> ('w, sdk_balance list) rpc_op" where
  "fetch_address_balances node client chain address st =
     (case collect_account_pages ''getAccountFungibleTokens'' address
             (\<lambda>cursor. get_account_fungible_tokens node client address BALANCE_PAGE_SIZE cursor False) st of
        (Inl e, st) \<Rightarrow> (Inl e, st)
      | (Inr balances, st) \<Rightarrow>
          (let fungible_symbols = set (map balance_symbol balances)
           in case collect_account_pages ''getAccountOwnedTokens'' address
                     (\<lambda>cursor. get_account_owned_tokens node client address BALANCE_PAGE_SIZE cursor False) st of
                (Inl e, st) \<Rightarrow> (Inl e, st)
              | (Inr owned_tokens, st) \<Rightarrow>
                  token_balances (\<lambda>symbol. get_token_balance node client address symbol chain False)
                    fungible_symbols owned_tokens balances st))"

section \<open>Accounts of a batch\<close>

record dirty_address =
  dirty_id :: int
  dirty_name :: string
  dirty_block :: int

function chunks :: "nat \<Rightarrow> 'a list \<Rightarrow> 'a list list" where
  "chunks n xs = (if xs = [] \<or> n = 0 then [] else take n xs # chunks n (drop n xs))"
  by pat_completeness auto
termination by (relation "measure (\<lambda>(n, xs). length xs)") auto

declare chunks.simps [simp del]

fun single_infos ::
    "'w sdk_node \<Rightarrow> sdk_client \<Rightarrow> string list \<Rightarrow> sdk_account_info list \<Rightarrow> 'w rpc_world \<Rightarrow> sdk_account_info list \<times> 'w rpc_world" where
  "single_infos node client [] infos st = (infos, st)"
| "single_infos node client (address # addresses) infos st =
     (case get_account_info node client address False st of
        (Inr info, st) \<Rightarrow> single_infos node client addresses (infos @ [info]) st
      | (Inl _, st) \<Rightarrow> single_infos node client addresses infos st)"

fun chunk_infos ::
    "'w sdk_node \<Rightarrow> sdk_client \<Rightarrow> string list list \<Rightarrow> sdk_account_info list \<Rightarrow> 'w rpc_world \<Rightarrow> sdk_account_info list \<times> 'w rpc_world" where
  "chunk_infos node client [] infos st = (infos, st)"
| "chunk_infos node client (addresses # rest) infos st =
     (case get_account_infos node client addresses False st of
        (Inr new_infos, st) \<Rightarrow> chunk_infos node client rest (infos @ new_infos) st
      | (Inl _, st) \<Rightarrow>
          if 1 < length addresses
          then (let (infos, st) = single_infos node client addresses infos st in chunk_infos node client rest infos st)
          else chunk_infos node client rest infos st)"

definition fetch_infos ::
    "'w sdk_node \<Rightarrow> sdk_client \<Rightarrow> dirty_address list \<Rightarrow> 'w rpc_world \<Rightarrow> sdk_account_info list \<times> 'w rpc_world" where
  "fetch_infos node client dirty st =
     chunk_infos node client (map (map dirty_name) (chunks BALANCE_SYNC_CHUNK_SIZE dirty)) [] st"

text \<open>The bounded task set: tasks are started in order while fewer than eight run, and end in any order,
  with balances, with an error, or by crashing.\<close>

record fanout =
  pending :: "sdk_account_info list"
  running :: "sdk_account_info list"
  accounts :: "fetched_balance_account list"

datatype task_end = Fetched "sdk_balance list" | Failed rpc_error | Crashed

definition spawn_tasks :: "fanout \<Rightarrow> fanout" where
  "spawn_tasks s =
     (let n = BALANCE_FETCH_CONCURRENCY - length (running s)
      in s\<lparr>running := running s @ take n (pending s), pending := drop n (pending s)\<rparr>)"

definition join_task :: "nat \<Rightarrow> task_end \<Rightarrow> fanout \<Rightarrow> fanout" where
  "join_task i outcome s =
     (let info = running s ! i;
          s = s\<lparr>running := take i (running s) @ drop (Suc i) (running s)\<rparr>
      in case outcome of
           Fetched balances \<Rightarrow> s\<lparr>accounts := accounts s @ [\<lparr>account_info = info, account_balances = balances\<rparr>]\<rparr>
         | Failed _ \<Rightarrow> s
         | Crashed \<Rightarrow> s)"

inductive fanout_run :: "(sdk_account_info \<Rightarrow> task_end \<Rightarrow> bool) \<Rightarrow> fanout \<Rightarrow> fetched_balance_account list \<Rightarrow> bool" for ends where
  finished: "running (spawn_tasks s) = [] \<Longrightarrow> fanout_run ends s (accounts s)"
| joined: "i < length (running (spawn_tasks s)) \<Longrightarrow> ends (running (spawn_tasks s) ! i) outcome \<Longrightarrow>
    fanout_run ends (join_task i outcome (spawn_tasks s)) accs \<Longrightarrow> fanout_run ends s accs"

text \<open>A task fetches the balances of its address in whatever state the node is by then.\<close>

inductive task_ends :: "'w sdk_node \<Rightarrow> sdk_client \<Rightarrow> string \<Rightarrow> sdk_account_info \<Rightarrow> task_end \<Rightarrow> bool" for node client chain where
  fetched: "fetch_address_balances node client chain (account_address info) st = (Inr balances, st') \<Longrightarrow>
    task_ends node client chain info (Fetched balances)"
| failed: "fetch_address_balances node client chain (account_address info) st = (Inl e, st') \<Longrightarrow>
    task_ends node client chain info (Failed e)"
| crashed: "task_ends node client chain info Crashed"

inductive_cases fetched_taskE: "task_ends node client chain info (Fetched balances)"

definition fetch_balance_accounts ::
    "'w sdk_node \<Rightarrow> sdk_client \<Rightarrow> string \<Rightarrow> dirty_address list \<Rightarrow> 'w rpc_world \<Rightarrow> fetched_balance_account list \<Rightarrow> bool" where
  "fetch_balance_accounts node client chain dirty st accs \<longleftrightarrow>
     (if dirty = [] then accs = []
      else fanout_run (task_ends node client chain) \<lparr>pending = fst (fetch_infos node client dirty st), running = [], accounts = []\<rparr> accs)"

section \<open>Pagination\<close>

text \<open>The pages the node hands out from a cursor on: each page's cursor leads to the next, the last page
  has none or an empty one, and no page leads back to itself.\<close>

inductive pages_from :: "('s, 'a) fetch_page \<Rightarrow> string \<Rightarrow> 's \<Rightarrow> 'a page list \<Rightarrow> 's \<Rightarrow> bool" for fetch_page where
  last_page: "fetch_page cursor st = (Inr page, st') \<Longrightarrow> page_cursor page \<in> {None, Some []} \<Longrightarrow>
    pages_from fetch_page cursor st [page] st'"
| next_page: "fetch_page cursor st = (Inr page, st1) \<Longrightarrow> page_cursor page = Some following \<Longrightarrow>
    following \<noteq> [] \<Longrightarrow> following \<noteq> cursor \<Longrightarrow> pages_from fetch_page following st1 pages st' \<Longrightarrow>
    pages_from fetch_page cursor st (page # pages) st'"

lemma walk_pages_complete:
  assumes "pages_from fetch_page cursor st pages st'" "length pages \<le> length numbers"
  shows "walk_pages endpoint address fetch_page numbers cursor rows st = (Inr (rows @ concat (map page_rows pages)), st')"
  using assms
proof (induction arbitrary: numbers rows rule: pages_from.induct)
  case (last_page cursor st page st')
  then show ?case by (cases numbers) auto
next
  case (next_page cursor st page st1 following pages st')
  then show ?case by (cases numbers) auto
qed

lemma walk_pages_sound:
  "walk_pages endpoint address fetch_page numbers cursor rows st = (Inr out, st') \<Longrightarrow>
   \<exists>pages. pages_from fetch_page cursor st pages st' \<and> length pages \<le> length numbers \<and> out = rows @ concat (map page_rows pages)"
proof (induction endpoint address fetch_page numbers cursor rows st rule: walk_pages.induct)
  case (2 endpoint address fetch_page n ns cursor rows st)
  obtain r s where f: "fetch_page cursor st = (r, s)" by force
  from "2.prems" f obtain page where page: "r = Inr page" by (cases r) auto
  show ?case
  proof (cases "page_cursor page \<in> {None, Some []}")
    case True
    with "2.prems" f page have "st' = s" "out = rows @ page_rows page" by auto
    with True f page show ?thesis by (intro exI [of _ "[page]"]) (auto intro: last_page)
  next
    case False
    then obtain following where c: "page_cursor page = Some following" "following \<noteq> []" by auto
    with "2.prems" f page have "following \<noteq> cursor"
      "walk_pages endpoint address fetch_page ns following (rows @ page_rows page) s = (Inr out, st')"
      by (auto split: if_splits)
    with "2.IH" [OF f [symmetric] page refl c(1)] c obtain pages where "pages_from fetch_page following s pages st'"
      "length pages \<le> length ns" "out = (rows @ page_rows page) @ concat (map page_rows pages)" by auto
    with f page c \<open>following \<noteq> cursor\<close> show ?thesis
      by (intro exI [of _ "page # pages"]) (auto intro: next_page)
  qed
qed simp

text \<open>C23. A paginated account endpoint is read completely or refused, never truncated: the walk returns rows
  exactly when the node ends the walk itself within a thousand pages without handing the same cursor back,
  and the rows are those of all its pages in order.\<close>

theorem pagination_complete_or_refused:
  "collect_account_pages endpoint address fetch_page st = (Inr rows, st') \<longleftrightarrow>
   (\<exists>pages. pages_from fetch_page [] st pages st' \<and> length pages \<le> BALANCE_MAX_PAGES \<and> rows = concat (map page_rows pages))"
proof -
  have len: "length [1..<BALANCE_MAX_PAGES + 1] = BALANCE_MAX_PAGES" by simp
  show ?thesis unfolding collect_account_pages_def
    using walk_pages_sound [of endpoint address fetch_page "[1..<BALANCE_MAX_PAGES + 1]" "[]" "[]" st rows st']
      walk_pages_complete [of fetch_page "[]" st _ st' "[1..<BALANCE_MAX_PAGES + 1]" endpoint address "[]"]
    unfolding len by fastforce
qed

lemma collect_single_page:
  assumes "fetch_page [] st = (Inr page, st')" "page_cursor page \<in> {None, Some []}"
  shows "collect_account_pages endpoint address fetch_page st = (Inr (page_rows page), st')"
  using walk_pages_complete [OF last_page [of fetch_page, OF assms], of "[1..<BALANCE_MAX_PAGES + 1]" endpoint address "[]"]
  by (simp add: collect_account_pages_def BALANCE_MAX_PAGES_def del: upt_Suc upt_rec_numeral)

section \<open>The task set\<close>

lemma spawn_bound: "length (running s) \<le> BALANCE_FETCH_CONCURRENCY \<Longrightarrow> length (running (spawn_tasks s)) \<le> BALANCE_FETCH_CONCURRENCY"
  by (simp add: spawn_tasks_def Let_def)

lemma spawn_keeps:
  "mset (pending (spawn_tasks s)) + mset (running (spawn_tasks s)) = mset (pending s) + mset (running s)"
  "accounts (spawn_tasks s) = accounts s"
proof -
  have "mset (drop n xs) + mset (take n xs) = mset xs" for n and xs :: "sdk_account_info list"
    by (metis append_take_drop_id add.commute mset_append)
  then show "mset (pending (spawn_tasks s)) + mset (running (spawn_tasks s)) = mset (pending s) + mset (running s)"
    by (simp add: spawn_tasks_def Let_def add.commute)
qed (simp add: spawn_tasks_def Let_def)

lemma join_running:
  assumes "i < length (running s)"
  shows "add_mset (running s ! i) (mset (running (join_task i outcome s))) = mset (running s)"
    "pending (join_task i outcome s) = pending s"
proof -
  have "mset (running s) = mset (take i (running s) @ running s ! i # drop (Suc i) (running s))"
    using id_take_nth_drop [OF assms] by simp
  then show "add_mset (running s ! i) (mset (running (join_task i outcome s))) = mset (running s)"
    by (auto simp: join_task_def Let_def split: task_end.splits)
qed (auto simp: join_task_def Let_def split: task_end.splits)

text \<open>Every account collected belongs to its own task, which fetched it.\<close>

lemma fanout_accounts:
  assumes "fanout_run ends s accs"
  shows "\<exists>got. accs = accounts s @ got \<and> image_mset account_info (mset got) \<subseteq># mset (pending s) + mset (running s)
    \<and> (\<forall>a \<in> set got. ends (account_info a) (Fetched (account_balances a)))"
  using assms
proof (induction rule: fanout_run.induct)
  case (finished s)
  then show ?case by simp
next
  case (joined i s outcome accs)
  let ?s = "spawn_tasks s"
  let ?info = "running ?s ! i"
  let ?new = "case outcome of Fetched balances \<Rightarrow> [\<lparr>account_info = ?info, account_balances = balances\<rparr>] | _ \<Rightarrow> []"
  from joined.IH obtain got where got: "accs = accounts (join_task i outcome ?s) @ got"
    "image_mset account_info (mset got) \<subseteq># mset (pending ?s) + mset (running (join_task i outcome ?s))"
    "\<forall>a \<in> set got. ends (account_info a) (Fetched (account_balances a))"
    by (auto simp: join_running(2) joined.hyps(1))
  have new: "accounts (join_task i outcome ?s) = accounts s @ ?new"
    by (auto simp: join_task_def Let_def spawn_keeps(2) split: task_end.splits)
  have "image_mset account_info (mset ?new) \<subseteq># {#?info#}" by (auto split: task_end.splits)
  then have "image_mset account_info (mset (?new @ got)) \<subseteq># {#?info#} + (mset (pending ?s) + mset (running (join_task i outcome ?s)))"
    using got(2) by (simp only: mset_append image_mset_union) (rule subset_mset.add_mono)
  also have "\<dots> = mset (pending ?s) + add_mset ?info (mset (running (join_task i outcome ?s)))" by simp
  also have "\<dots> = mset (pending s) + mset (running s)"
    unfolding join_running(1) [OF joined.hyps(1)] by (rule spawn_keeps(1))
  finally have "image_mset account_info (mset (?new @ got)) \<subseteq># mset (pending s) + mset (running s)" .
  moreover have "\<forall>a \<in> set ?new. ends (account_info a) (Fetched (account_balances a))"
    using joined.hyps(2) by (auto split: task_end.splits)
  ultimately show ?case using got(1,3) new by (intro exI [of _ "?new @ got"]) auto
qed

end
