(* ===== verification/Balance_Sync.thy ===== *)
theory Balance_Sync
  imports Account_Fetch Sync_Driver Worker_Loop "HOL-Library.Product_Lexorder" Complex_Main
begin

text \<open>
  The balance synchronisation: dirty flags of addresses, set by the block writer and cleared by the
  balance task after it has stored a fresh account (\<open>sync_dirty_balances_once\<close> and its helpers in
  \<open>src/crates/ingestion/src/driver.rs\<close>, the queries in \<open>src/crates/db/src/lib.rs\<close>).

  Tables are lists of rows or maps on their unique key; a query is its effect on them.  PostgreSQL's
  reading of a numeric text is the parameter \<open>parse_numeric\<close>.  The balance task runs in three database
  transactions while the block writer goes on; what it finds at each of them is a separate state.
\<close>

section \<open>Tables\<close>

record address_row =
  ad_id :: int
  ad_chain :: int
  ad_address :: string
  ad_dirty :: int
  ad_name :: "string option"
  ad_name_updated :: int
  ad_stake_timestamp :: int
  ad_staked :: "rat option"
  ad_unclaimed :: "rat option"
  ad_total_soul :: rat

record token_row =
  tk_id :: int
  tk_chain :: int
  tk_symbol :: string

record block_refs =
  bk_id :: int
  bk_chain_address :: int
  bk_validator :: int
  bk_producer :: "int option"

record tx_refs =
  txr_id :: int
  txr_block :: int
  txr_sender :: int
  txr_gas_payer :: int
  txr_gas_target :: int

record event_refs =
  evr_transaction :: int
  evr_address :: int
  evr_target :: "int option"

record account_db =
  addresses :: "address_row list"
  tokens :: "token_row list"
  address_balances :: "int \<times> int \<rightharpoonup> rat"
  organizations :: "(int \<times> string) list"
  organization_addresses :: "(int \<times> int) set"
  block_table :: "block_refs list"
  tx_table :: "tx_refs list"
  event_table :: "event_refs list"

type_synonym parse_numeric = "string \<Rightarrow> rat option"

section \<open>Dirty flags\<close>

definition touched_addresses :: "int \<Rightarrow> account_db \<Rightarrow> int set" where
  "touched_addresses block_id db =
     (let blocks = filter (\<lambda>b. bk_id b = block_id) (block_table db);
          txs = filter (\<lambda>t. txr_block t = block_id) (tx_table db);
          events = filter (\<lambda>e. evr_transaction e \<in> set (map txr_id txs)) (event_table db)
      in set (map bk_chain_address blocks) \<union> set (map bk_validator blocks)
         \<union> set (List.map_filter bk_producer blocks)
         \<union> set (map txr_sender txs) \<union> set (map txr_gas_payer txs) \<union> set (map txr_gas_target txs)
         \<union> set (map evr_address events) \<union> set (List.map_filter evr_target events))"

definition mark_rows :: "(address_row \<Rightarrow> bool) \<Rightarrow> int \<Rightarrow> account_db \<Rightarrow> nat \<times> account_db" where
  "mark_rows p height db =
     (let hit = (\<lambda>r. p r \<and> ad_address r \<noteq> ''NULL'' \<and> ad_dirty r < height)
      in (length (filter hit (addresses db)),
          db\<lparr>addresses := map (\<lambda>r. if hit r then r\<lparr>ad_dirty := height\<rparr> else r) (addresses db)\<rparr>))"

definition mark_block_addresses_dirty :: "int \<Rightarrow> nat \<Rightarrow> account_db \<Rightarrow> ingestion_error + nat \<times> account_db" where
  "mark_block_addresses_dirty block_id block_height db =
     map_ok (\<lambda>h. mark_rows (\<lambda>r. ad_id r \<in> touched_addresses block_id db) h db) (block_height_to_i64 block_height)"

definition mark_all_chain_addresses_dirty :: "int \<Rightarrow> nat \<Rightarrow> account_db \<Rightarrow> ingestion_error + nat \<times> account_db" where
  "mark_all_chain_addresses_dirty chain_id block_height db =
     map_ok (\<lambda>h. mark_rows (\<lambda>r. ad_chain r = chain_id) h db) (block_height_to_i64 block_height)"

definition dirty_rows :: "int \<Rightarrow> account_db \<Rightarrow> address_row list" where
  "dirty_rows chain_id db =
     filter (\<lambda>r. ad_chain r = chain_id \<and> 0 < ad_dirty r \<and> ad_address r \<noteq> ''NULL'') (addresses db)"

definition count_dirty_addresses :: "int \<Rightarrow> account_db \<Rightarrow> int" where
  "count_dirty_addresses chain_id db = int (length (dirty_rows chain_id db))"

definition fetch_dirty_address_batch :: "int \<Rightarrow> int \<Rightarrow> account_db \<Rightarrow> dirty_address list" where
  "fetch_dirty_address_batch chain_id batch_size db =
     map (\<lambda>r. \<lparr>dirty_id = ad_id r, dirty_name = ad_address r, dirty_block = ad_dirty r\<rparr>)
       (take (nat batch_size) (sort_key (\<lambda>r. (ad_dirty r, ad_id r)) (dirty_rows chain_id db)))"

definition balance_dirty_batch_size :: "int \<Rightarrow> int" where
  "balance_dirty_batch_size dirty_count =
     (if 30000 \<le> dirty_count then 700 else if 10000 \<le> dirty_count then 500 else if 3000 \<le> dirty_count then 350
      else if 1000 \<le> dirty_count then 250 else if 300 \<le> dirty_count then 150 else 100)"

text \<open>A flag is cleared only where it still has the value that was read.\<close>

definition reset_dirty_balance_flags :: "dirty_address list \<Rightarrow> account_db \<Rightarrow> nat \<times> account_db" where
  "reset_dirty_balance_flags dirty db =
     (if dirty = [] then (0, db)
      else let hit = (\<lambda>r. list_ex (\<lambda>d. ad_id r = dirty_id d \<and> ad_dirty r = dirty_block d) dirty)
           in (length (filter hit (addresses db)),
               db\<lparr>addresses := map (\<lambda>r. if hit r then r\<lparr>ad_dirty := 0\<rparr> else r) (addresses db)\<rparr>))"

section \<open>Storing accounts\<close>

text \<open>\<open>NULLIF(text, '')::numeric\<close>.\<close>

definition numeric_or_null :: "parse_numeric \<Rightarrow> string \<Rightarrow> ingestion_error + rat option" where
  "numeric_or_null parse_numeric s =
     (if s = [] then Inr None
      else case parse_numeric s of None \<Rightarrow> Inl (Db ''database operation failed'') | Some v \<Rightarrow> Inr (Some v))"

definition token_ids :: "int \<Rightarrow> string \<Rightarrow> account_db \<Rightarrow> int list" where
  "token_ids chain_id symbol db = map tk_id (filter (\<lambda>t. tk_chain t = chain_id \<and> tk_symbol t = symbol) (tokens db))"

definition desired_balances ::
    "parse_numeric \<Rightarrow> int \<Rightarrow> (string \<times> string) list \<Rightarrow> account_db \<Rightarrow> ingestion_error + (int \<times> rat) list" where
  "desired_balances parse_numeric chain_id balances db =
     map_ok concat (collect_results (map (\<lambda>(symbol, amount_raw).
       case token_ids chain_id symbol db of
         [] \<Rightarrow> Inr []
       | ids \<Rightarrow> map_ok (\<lambda>v. map (\<lambda>id. (id, unwrap_or v 0)) ids) (numeric_or_null parse_numeric amount_raw)) balances))"

text \<open>One statement of \<open>INSERT ... ON CONFLICT DO UPDATE\<close> must not propose the same row twice.\<close>

definition replace_address_balances ::
    "parse_numeric \<Rightarrow> int \<Rightarrow> int \<Rightarrow> (string \<times> string) list \<Rightarrow> account_db \<Rightarrow> ingestion_error + string list \<times> account_db" where
  "replace_address_balances parse_numeric chain_id address_id balances db =
     (let missing_symbols = filter (\<lambda>symbol. token_ids chain_id symbol db = []) (sorted_list_of_set (set (map fst balances)))
      in and_then (desired_balances parse_numeric chain_id balances db) (\<lambda>desired.
         if \<not> distinct (map fst desired) then Inl (Db ''database operation failed'')
         else Inr (missing_symbols,
           db\<lparr>address_balances := (\<lambda>(a, t). if a = address_id then map_of desired t else address_balances db (a, t))\<rparr>)))"

definition upsert_address_account ::
    "parse_numeric \<Rightarrow> int \<Rightarrow> address_account_upsert \<Rightarrow> account_db \<Rightarrow> ingestion_error + string list \<times> account_db" where
  "upsert_address_account parse_numeric chain_id account db =
     and_then (numeric_or_null parse_numeric (up_staked_amount_raw account)) (\<lambda>staked.
     and_then (numeric_or_null parse_numeric (up_unclaimed_amount_raw account)) (\<lambda>unclaimed.
     and_then (numeric_or_null parse_numeric (up_soul_balance_raw account)) (\<lambda>soul.
       let db = db\<lparr>addresses := map (\<lambda>r.
             if ad_id r = up_address_id account \<and> ad_chain r = chain_id
             then r\<lparr>ad_name := up_address_name account, ad_name_updated := up_name_last_updated account,
                    ad_stake_timestamp := up_stake_timestamp account, ad_staked := staked, ad_unclaimed := unclaimed,
                    ad_total_soul := unwrap_or soul 0 + unwrap_or staked 0\<rparr>
             else r) (addresses db)\<rparr>
       in replace_address_balances parse_numeric chain_id (up_address_id account) (up_balances account) db)))"

text \<open>The loop over the fetched accounts, inside one transaction: an error discards what it wrote.\<close>

fun persist_accounts ::
    "parse_numeric \<Rightarrow> int \<Rightarrow> (string \<rightharpoonup> dirty_address) \<Rightarrow> int \<Rightarrow> fetched_balance_account list \<Rightarrow> dirty_address list \<Rightarrow> account_db \<Rightarrow>
     ingestion_error + dirty_address list \<times> account_db" where
  "persist_accounts parse_numeric chain_id dirty_by_address now [] updated db = Inr (updated, db)"
| "persist_accounts parse_numeric chain_id dirty_by_address now (account # accs) updated db =
     (case dirty_by_address (account_address (account_info account)) of
        None \<Rightarrow> persist_accounts parse_numeric chain_id dirty_by_address now accs updated db
      | Some d \<Rightarrow>
          (case upsert_address_account parse_numeric chain_id (account_info_to_upsert (dirty_id d) account now) db of
             Inl e \<Rightarrow> Inl e
           | Inr (missing, db) \<Rightarrow>
               persist_accounts parse_numeric chain_id dirty_by_address now accs
                 (if missing = [] then updated @ [d] else updated) db))"

definition persist_balance_accounts ::
    "parse_numeric \<Rightarrow> int \<Rightarrow> int \<Rightarrow> dirty_address list \<Rightarrow> fetched_balance_account list \<Rightarrow> account_db \<Rightarrow>
     ingestion_error + dirty_address list \<times> account_db" where
  "persist_balance_accounts parse_numeric now chain_id dirty accs db =
     (if accs = [] then Inr ([], db)
      else persist_accounts parse_numeric chain_id (map_of (rev (map (\<lambda>d. (dirty_name d, d)) dirty))) now accs [] db)"

definition masters_threshold :: rat where "masters_threshold = 5000000000000"

definition is_member_org :: "string \<Rightarrow> rat \<Rightarrow> bool" where
  "is_member_org name staked =
     (name = ''stakers'' \<and> 0 < staked \<or> name = ''masters'' \<and> masters_threshold \<le> staked)"

definition reconcile_stake_memberships :: "int list \<Rightarrow> account_db \<Rightarrow> account_db" where
  "reconcile_stake_memberships ids db =
     (if ids = [] then db
      else let scoped = map (\<lambda>r. (ad_id r, unwrap_or (ad_staked r) 0)) (filter (\<lambda>r. ad_id r \<in> set ids) (addresses db));
               orgs = filter (\<lambda>(_, name). name = ''stakers'' \<or> name = ''masters'') (organizations db);
               pairs = List.product orgs scoped;
               gone = set (map (\<lambda>((org, name), (a, staked)). (org, a)) (filter (\<lambda>((org, name), (a, staked)). \<not> is_member_org name staked) pairs));
               desired = set (map (\<lambda>((org, name), (a, staked)). (org, a)) (filter (\<lambda>((org, name), (a, staked)). is_member_org name staked) pairs))
           in db\<lparr>organization_addresses := (organization_addresses db - gone) \<union> desired\<rparr>)"

section \<open>One pass\<close>

record balance_report =
  brep_nexus :: string
  brep_chain :: string
  brep_tip :: nat
  brep_cursor :: nat
  brep_lag :: nat
  brep_dirty_before :: int
  brep_selected :: nat
  brep_updated :: nat
  brep_reset :: nat
  brep_skipped_catchup :: bool

text \<open>What else writes the tables while the pass waits may add rows and raise flags; it neither removes
  addresses nor lowers a flag.\<close>

definition flags_grow :: "account_db \<Rightarrow> account_db \<Rightarrow> bool" where
  "flags_grow db db' \<longleftrightarrow>
     distinct (map ad_id (addresses db'))
     \<and> (\<forall>r \<in> set (addresses db). \<exists>r' \<in> set (addresses db').
          ad_id r' = ad_id r \<and> ad_chain r' = ad_chain r \<and> ad_address r' = ad_address r \<and> ad_dirty r \<le> ad_dirty r')"

text \<open>The pass, from the position it reads (tip and cursor) and the tables at its three transactions.\<close>

definition balance_report_of :: "driver_config \<Rightarrow> nat \<Rightarrow> nat \<Rightarrow> int \<Rightarrow> balance_report" where
  "balance_report_of cfg tip cursor dirty_before =
     \<lparr>brep_nexus = drv_nexus cfg, brep_chain = drv_chain cfg, brep_tip = tip, brep_cursor = cursor, brep_lag = tip - cursor,
      brep_dirty_before = dirty_before, brep_selected = 0, brep_updated = 0, brep_reset = 0, brep_skipped_catchup = False\<rparr>"

inductive sync_dirty_balances_once ::
    "'w sdk_node \<Rightarrow> sdk_client \<Rightarrow> driver_config \<Rightarrow> parse_numeric \<Rightarrow> int \<Rightarrow> nat \<Rightarrow> nat \<Rightarrow> account_db \<Rightarrow>
     ingestion_error + balance_report \<Rightarrow> account_db \<Rightarrow> bool"
  for node client cfg parse_numeric chain_id tip cursor where
  zero_state: "validate_zero_state_scope (drv_chain cfg) cursor = Inl e \<Longrightarrow>
    sync_dirty_balances_once node client cfg parse_numeric chain_id tip cursor db (Inl e) db"
| catching_up: "validate_zero_state_scope (drv_chain cfg) cursor = Inr () \<Longrightarrow> BALANCE_SYNC_LAG_THRESHOLD < tip - cursor \<Longrightarrow>
    sync_dirty_balances_once node client cfg parse_numeric chain_id tip cursor db
      (Inr ((balance_report_of cfg tip cursor (count_dirty_addresses chain_id db))
         \<lparr>brep_skipped_catchup := 0 < count_dirty_addresses chain_id db\<rparr>)) db"
| nothing_dirty: "validate_zero_state_scope (drv_chain cfg) cursor = Inr () \<Longrightarrow> tip - cursor \<le> BALANCE_SYNC_LAG_THRESHOLD \<Longrightarrow>
    count_dirty_addresses chain_id db = 0 \<Longrightarrow>
    sync_dirty_balances_once node client cfg parse_numeric chain_id tip cursor db
      (Inr (balance_report_of cfg tip cursor 0)) db"
| persist_failed: "validate_zero_state_scope (drv_chain cfg) cursor = Inr () \<Longrightarrow> tip - cursor \<le> BALANCE_SYNC_LAG_THRESHOLD \<Longrightarrow>
    count_dirty_addresses chain_id db \<noteq> 0 \<Longrightarrow>
    dirty = fetch_dirty_address_batch chain_id (balance_dirty_batch_size (count_dirty_addresses chain_id db)) db \<Longrightarrow>
    fetch_balance_accounts node client (drv_chain cfg) dirty st accs \<Longrightarrow> flags_grow db db1 \<Longrightarrow>
    persist_balance_accounts parse_numeric now chain_id dirty accs db1 = Inl e \<Longrightarrow>
    sync_dirty_balances_once node client cfg parse_numeric chain_id tip cursor db (Inl e) db1"
| synced: "validate_zero_state_scope (drv_chain cfg) cursor = Inr () \<Longrightarrow> tip - cursor \<le> BALANCE_SYNC_LAG_THRESHOLD \<Longrightarrow>
    count_dirty_addresses chain_id db \<noteq> 0 \<Longrightarrow>
    dirty = fetch_dirty_address_batch chain_id (balance_dirty_batch_size (count_dirty_addresses chain_id db)) db \<Longrightarrow>
    fetch_balance_accounts node client (drv_chain cfg) dirty st accs \<Longrightarrow> flags_grow db db1 \<Longrightarrow>
    persist_balance_accounts parse_numeric now chain_id dirty accs db1 = Inr (updated, db2) \<Longrightarrow> flags_grow db2 db3 \<Longrightarrow>
    reset_dirty_balance_flags updated (reconcile_stake_memberships (map dirty_id updated) db3) = (reset, db4) \<Longrightarrow>
    sync_dirty_balances_once node client cfg parse_numeric chain_id tip cursor db
      (Inr ((balance_report_of cfg tip cursor (count_dirty_addresses chain_id db))
         \<lparr>brep_selected := length dirty, brep_updated := length updated, brep_reset := reset\<rparr>)) db4"

section \<open>Flags\<close>

text \<open>The part of the address table that storing accounts leaves alone.\<close>

definition flag_view :: "account_db \<Rightarrow> (int \<times> int \<times> string \<times> int) list" where
  "flag_view db = map (\<lambda>r. (ad_id r, ad_chain r, ad_address r, ad_dirty r)) (addresses db)"

lemma flag_view_ids: "flag_view db = flag_view db' \<Longrightarrow> map ad_id (addresses db) = map ad_id (addresses db')"
  by (drule arg_cong [where f = "map fst"]) (simp add: flag_view_def comp_def)

lemma flag_view_row:
  assumes "flag_view db = flag_view db'" "r \<in> set (addresses db)"
  shows "\<exists>r' \<in> set (addresses db'). ad_id r' = ad_id r \<and> ad_chain r' = ad_chain r \<and> ad_address r' = ad_address r \<and> ad_dirty r' = ad_dirty r"
proof -
  have "(ad_id r, ad_chain r, ad_address r, ad_dirty r) \<in> set (flag_view db)" using assms(2) by (auto simp: flag_view_def)
  then show ?thesis unfolding assms(1) by (auto simp: flag_view_def)
qed

lemma flags_grow_refl: "distinct (map ad_id (addresses db)) \<Longrightarrow> flags_grow db db"
  by (auto simp: flags_grow_def)

lemma flags_grow_view:
  assumes "flag_view db = flag_view db'" "distinct (map ad_id (addresses db))"
  shows "flags_grow db db'"
  using assms flag_view_ids [OF assms(1)] flag_view_row [OF assms(1)] unfolding flags_grow_def by fastforce

lemma flags_grow_trans:
  assumes "flags_grow db1 db2" "flags_grow db2 db3"
  shows "flags_grow db1 db3"
proof -
  have "\<exists>r' \<in> set (addresses db3). ad_id r' = ad_id r \<and> ad_chain r' = ad_chain r \<and> ad_address r' = ad_address r \<and> ad_dirty r \<le> ad_dirty r'"
    if "r \<in> set (addresses db1)" for r
  proof -
    from assms(1) that obtain r2 where r2: "r2 \<in> set (addresses db2)" "ad_id r2 = ad_id r" "ad_chain r2 = ad_chain r"
      "ad_address r2 = ad_address r" "ad_dirty r \<le> ad_dirty r2" by (auto simp: flags_grow_def)
    with assms(2) obtain r3 where "r3 \<in> set (addresses db3)" "ad_id r3 = ad_id r2" "ad_chain r3 = ad_chain r2"
      "ad_address r3 = ad_address r2" "ad_dirty r2 \<le> ad_dirty r3" unfolding flags_grow_def by blast
    with r2 show ?thesis by (intro bexI [of _ r3]) auto
  qed
  with assms(2) show ?thesis by (simp add: flags_grow_def)
qed

text \<open>The block writer is such a writer.\<close>

lemma mark_rows_grow:
  assumes "distinct (map ad_id (addresses db))"
  shows "flags_grow db (snd (mark_rows p height db))"
proof -
  define f where "f r = (if p r \<and> ad_address r \<noteq> ''NULL'' \<and> ad_dirty r < height then r\<lparr>ad_dirty := height\<rparr> else r)" for r :: address_row
  have keeps: "ad_id (f r) = ad_id r" "ad_chain (f r) = ad_chain r" "ad_address (f r) = ad_address r" "ad_dirty r \<le> ad_dirty (f r)" for r
    by (simp_all add: f_def)
  have db: "addresses (snd (mark_rows p height db)) = map f (addresses db)"
    by (simp add: mark_rows_def Let_def f_def [abs_def])
  have ids: "map ad_id (map f (addresses db)) = map ad_id (addresses db)" by (simp add: keeps)
  have "\<exists>r' \<in> set (map f (addresses db)). ad_id r' = ad_id r \<and> ad_chain r' = ad_chain r \<and> ad_address r' = ad_address r
      \<and> ad_dirty r \<le> ad_dirty r'" if "r \<in> set (addresses db)" for r
    using that keeps by (intro bexI [of _ "f r"]) auto
  with assms show ?thesis unfolding flags_grow_def db ids by blast
qed

lemma marking_grows:
  assumes "distinct (map ad_id (addresses db))"
  shows "mark_block_addresses_dirty block_id height db = Inr (n, db') \<Longrightarrow> flags_grow db db'"
    "mark_all_chain_addresses_dirty chain_id height db = Inr (n, db') \<Longrightarrow> flags_grow db db'"
  using mark_rows_grow [OF assms]
  by (auto simp: mark_block_addresses_dirty_def mark_all_chain_addresses_dirty_def map_ok_eq_Inr dest: sym)
    (metis snd_conv)+

lemma upsert_keeps_flags:
  "upsert_address_account parse_numeric chain_id account db = Inr (missing, db') \<Longrightarrow> flag_view db' = flag_view db"
  by (auto simp: upsert_address_account_def replace_address_balances_def result_eqs Let_def flag_view_def split: if_splits)

lemma persist_accounts_outcome:
  assumes "persist_accounts parse_numeric chain_id dba now accs updated db = Inr (updated', db')"
  shows "flag_view db' = flag_view db \<and> (\<exists>new. updated' = updated @ new
    \<and> (\<forall>d \<in> set new. \<exists>acc \<in> set accs. dba (account_address (account_info acc)) = Some d
        \<and> (\<exists>m m'. upsert_address_account parse_numeric chain_id (account_info_to_upsert (dirty_id d) acc now) m = Inr ([], m'))))"
  using assms
proof (induction accs arbitrary: updated db)
  case (Cons acc accs)
  show ?case
  proof (cases "dba (account_address (account_info acc))")
    case None
    with Cons show ?thesis by auto
  next
    case (Some d)
    let ?up = "upsert_address_account parse_numeric chain_id (account_info_to_upsert (dirty_id d) acc now) db"
    from Some Cons.prems obtain missing m where up: "?up = Inr (missing, m)" by (auto split: sum.splits)
    let ?upd = "if missing = [] then updated @ [d] else updated"
    from Some up Cons.prems have "persist_accounts parse_numeric chain_id dba now accs ?upd m = Inr (updated', db')" by simp
    from Cons.IH [OF this] obtain new where new: "flag_view db' = flag_view m" "updated' = ?upd @ new"
      "\<forall>d \<in> set new. \<exists>acc \<in> set accs. dba (account_address (account_info acc)) = Some d
        \<and> (\<exists>m m'. upsert_address_account parse_numeric chain_id (account_info_to_upsert (dirty_id d) acc now) m = Inr ([], m'))"
      by blast
    let ?new = "(if missing = [] then [d] else []) @ new"
    have "\<forall>d \<in> set ?new. \<exists>a \<in> set (acc # accs). dba (account_address (account_info a)) = Some d
        \<and> (\<exists>m m'. upsert_address_account parse_numeric chain_id (account_info_to_upsert (dirty_id d) a now) m = Inr ([], m'))"
      using new(3) Some up by (auto split: if_splits)
    moreover have "updated' = updated @ ?new" using new(2) by simp
    ultimately show ?thesis using new(1) upsert_keeps_flags [OF up] by metis
  qed
qed simp

lemma selected_row:
  assumes "d \<in> set (fetch_dirty_address_batch chain_id n db)"
  shows "\<exists>r \<in> set (addresses db). ad_id r = dirty_id d \<and> ad_address r = dirty_name d \<and> ad_dirty r = dirty_block d \<and> 0 < ad_dirty r"
  using assms by (auto simp: fetch_dirty_address_batch_def dirty_rows_def dest!: in_set_takeD)

lemma reset_row:
  assumes "reset_dirty_balance_flags dirty db = (n, db')" "r \<in> set (addresses db)"
  shows "\<exists>r' \<in> set (addresses db'). ad_id r' = ad_id r
    \<and> (ad_dirty r' = ad_dirty r \<or> ad_dirty r' = 0 \<and> (\<exists>d \<in> set dirty. dirty_id d = ad_id r \<and> dirty_block d = ad_dirty r))"
proof (cases "dirty = []")
  case False
  define f where "f r = (if \<exists>d \<in> set dirty. ad_id r = dirty_id d \<and> ad_dirty r = dirty_block d then r\<lparr>ad_dirty := 0\<rparr> else r)" for r :: address_row
  from assms(1) False have db: "addresses db' = map f (addresses db)"
    by (auto simp: reset_dirty_balance_flags_def Let_def list_ex_iff f_def [abs_def])
  have "ad_id (f r) = ad_id r \<and> (ad_dirty (f r) = ad_dirty r
      \<or> ad_dirty (f r) = 0 \<and> (\<exists>d \<in> set dirty. dirty_id d = ad_id r \<and> dirty_block d = ad_dirty r))" by (auto simp: f_def)
  with assms(2) show ?thesis unfolding db by (intro bexI [of _ "f r"]) auto
qed (use assms in \<open>auto simp: reset_dirty_balance_flags_def\<close>)

lemma reconcile_addresses [simp]: "addresses (reconcile_stake_memberships ids db) = addresses db"
  by (simp add: reconcile_stake_memberships_def Let_def)

text \<open>An address row is refreshed by a pass that fetched the account of its address and stored it with every
  balance symbol known.\<close>

definition refreshed :: "'w sdk_node \<Rightarrow> sdk_client \<Rightarrow> driver_config \<Rightarrow> parse_numeric \<Rightarrow> int \<Rightarrow> address_row \<Rightarrow> bool" where
  "refreshed node client cfg parse_numeric chain_id row \<longleftrightarrow>
     (\<exists>acc now m m'. account_address (account_info acc) = ad_address row
        \<and> task_ends node client (drv_chain cfg) (account_info acc) (Fetched (account_balances acc))
        \<and> upsert_address_account parse_numeric chain_id (account_info_to_upsert (ad_id row) acc now) m = Inr ([], m'))"

lemma persisted_rows_refreshed:
  assumes "dirty = fetch_dirty_address_batch chain_id n db"
    and "fetch_balance_accounts node client (drv_chain cfg) dirty st accs"
    and "persist_balance_accounts parse_numeric now chain_id dirty accs db1 = Inr (updated, db2)"
  shows "flag_view db2 = flag_view db1"
    "d \<in> set updated \<Longrightarrow> \<exists>row \<in> set (addresses db). ad_id row = dirty_id d \<and> ad_dirty row = dirty_block d
       \<and> refreshed node client cfg parse_numeric chain_id row"
proof -
  have out: "flag_view db2 = flag_view db1 \<and> (\<forall>d \<in> set updated. \<exists>acc \<in> set accs.
      map_of (rev (map (\<lambda>d. (dirty_name d, d)) dirty)) (account_address (account_info acc)) = Some d
      \<and> (\<exists>m m'. upsert_address_account parse_numeric chain_id (account_info_to_upsert (dirty_id d) acc now) m = Inr ([], m')))"
    using assms(3) persist_accounts_outcome [of parse_numeric chain_id "map_of (rev (map (\<lambda>d. (dirty_name d, d)) dirty))" now accs "[]" db1 updated db2]
    by (auto simp: persist_balance_accounts_def split: if_splits)
  then show "flag_view db2 = flag_view db1" by blast
  assume "d \<in> set updated"
  with out obtain acc m m' where acc: "acc \<in> set accs"
      "map_of (rev (map (\<lambda>d. (dirty_name d, d)) dirty)) (account_address (account_info acc)) = Some d"
      "upsert_address_account parse_numeric chain_id (account_info_to_upsert (dirty_id d) acc now) m = Inr ([], m')" by blast
  have d: "d \<in> set dirty" "dirty_name d = account_address (account_info acc)"
    using map_of_SomeD [OF acc(2)] by auto
  from d assms(2) have "fanout_run (task_ends node client (drv_chain cfg))
      \<lparr>pending = fst (fetch_infos node client dirty st), running = [], accounts = []\<rparr> accs"
    by (auto simp: fetch_balance_accounts_def split: if_splits)
  from fanout_accounts [OF this] acc(1)
  have "task_ends node client (drv_chain cfg) (account_info acc) (Fetched (account_balances acc))" by auto
  moreover from selected_row d(1) assms(1) obtain row where "row \<in> set (addresses db)" "ad_id row = dirty_id d"
    "ad_address row = dirty_name d" "ad_dirty row = dirty_block d" by blast
  ultimately show "\<exists>row \<in> set (addresses db). ad_id row = dirty_id d \<and> ad_dirty row = dirty_block d
       \<and> refreshed node client cfg parse_numeric chain_id row"
    unfolding refreshed_def using acc(3) d(2) by metis
qed

section \<open>Properties\<close>


text \<open>One dirty address; the node knows its account and one balance.\<close>

definition demo_info :: sdk_account_info where
  "demo_info = \<lparr>account_address = ''P1'', account_name = ''anonymous'', account_stake =
     \<lparr>stake_amount = ''1'', stake_unclaimed = [], stake_time = 3\<rparr>\<rparr>"

definition demo_balance :: sdk_balance where "demo_balance = \<lparr>balance_symbol = ''SOUL'', balance_amount = ''1''\<rparr>"

definition demo_account_node :: "unit sdk_node" where
  "demo_account_node = (demo_node 0 [])
     \<lparr>n_account_infos := (\<lambda>_ _ _ _ w. (Inr [demo_info], 0, w)),
      n_fungible_tokens := (\<lambda>_ _ _ _ _ _ _ w. (Inr \<lparr>page_result = Some [demo_balance], page_cursor = None\<rparr>, 0, w)),
      n_owned_tokens := (\<lambda>_ _ _ _ _ _ _ w. (Inr \<lparr>page_result = None, page_cursor = Some []\<rparr>, 0, w))\<rparr>"

definition demo_row :: "int \<Rightarrow> address_row" where
  "demo_row dirty = \<lparr>ad_id = 1, ad_chain = 1, ad_address = ''P1'', ad_dirty = dirty, ad_name = None, ad_name_updated = 0,
     ad_stake_timestamp = 0, ad_staked = None, ad_unclaimed = None, ad_total_soul = 0\<rparr>"

definition demo_accounts :: "int \<Rightarrow> account_db" where
  "demo_accounts dirty = \<lparr>addresses = [demo_row dirty], tokens = [\<lparr>tk_id = 4, tk_chain = 1, tk_symbol = ''SOUL''\<rparr>],
     address_balances = Map.empty, organizations = [], organization_addresses = {}, block_table = [], tx_table = [], event_table = []\<rparr>"

definition demo_numeric :: parse_numeric where
  "demo_numeric s = (if s = ''0'' then Some 0 else if s = ''1'' then Some 1 else None)"

definition demo_dirty :: "dirty_address list" where
  "demo_dirty = [\<lparr>dirty_id = 1, dirty_name = ''P1'', dirty_block = 7\<rparr>]"

abbreviation demo_account :: fetched_balance_account where
  "demo_account \<equiv> \<lparr>account_info = demo_info, account_balances = [demo_balance]\<rparr>"

lemma demo_fetched: "fetch_balance_accounts demo_account_node demo_client ''test'' demo_dirty demo_rpc [demo_account]"
proof -
  let ?fetch = "fetch_address_balances demo_account_node demo_client ''test'' (account_address demo_info) demo_rpc"
  let ?fungible = "\<lambda>cursor. get_account_fungible_tokens demo_account_node demo_client (account_address demo_info) BALANCE_PAGE_SIZE cursor False"
  let ?owned = "\<lambda>cursor. get_account_owned_tokens demo_account_node demo_client (account_address demo_info) BALANCE_PAGE_SIZE cursor False"
  have f: "?fungible [] demo_rpc = (Inr \<lparr>page_result = Some [demo_balance], page_cursor = None\<rparr>, snd (?fungible [] demo_rpc))" by code_simp
  have o: "?owned [] (snd (?fungible [] demo_rpc)) = (Inr \<lparr>page_result = None, page_cursor = Some []\<rparr>, snd (?owned [] (snd (?fungible [] demo_rpc))))"
    by code_simp
  have "\<exists>st. ?fetch = (Inr [demo_balance], st)"
    unfolding fetch_address_balances_def
    by (simp add: collect_single_page [of ?fungible, OF f] collect_single_page [of ?owned, OF o] page_rows_def)
  then obtain st where "?fetch = (Inr [demo_balance], st)" by blast
  then have ends: "task_ends demo_account_node demo_client ''test'' demo_info (Fetched [demo_balance])" by (rule task_ends.fetched)
  let ?s = "\<lparr>pending = [demo_info], running = [], accounts = []\<rparr>"
  have spawn: "spawn_tasks ?s = \<lparr>pending = [], running = [demo_info], accounts = []\<rparr>"
    by (simp add: spawn_tasks_def BALANCE_FETCH_CONCURRENCY_def)
  have join: "join_task 0 (Fetched [demo_balance]) (spawn_tasks ?s) = \<lparr>pending = [], running = [], accounts = [demo_account]\<rparr>"
    by (simp add: spawn join_task_def)
  have "fanout_run (task_ends demo_account_node demo_client ''test'') (join_task 0 (Fetched [demo_balance]) (spawn_tasks ?s)) [demo_account]"
    unfolding join using fanout_run.finished [of "\<lparr>pending = [], running = [], accounts = [demo_account]\<rparr>"]
    by (simp add: spawn_tasks_def)
  then have "fanout_run (task_ends demo_account_node demo_client ''test'') ?s [demo_account]"
    by (rule fanout_run.joined [rotated 2]) (simp_all add: spawn ends)
  moreover have "fst (fetch_infos demo_account_node demo_client demo_dirty demo_rpc) = [demo_info]" by code_simp
  ultimately show ?thesis by (simp add: fetch_balance_accounts_def demo_dirty_def)
qed

lemma demo_persist: "\<exists>m. persist_balance_accounts demo_numeric 0 1 demo_dirty [demo_account] (demo_accounts 7) = Inr (demo_dirty, m)"
proof -
  have "map_ok fst (persist_balance_accounts demo_numeric 0 1 demo_dirty [demo_account] (demo_accounts 7)) = Inr demo_dirty" by code_simp
  then show ?thesis by (auto simp: map_ok_eq_Inr)
qed

lemma demo_pass:
  "\<exists>r db'. sync_dirty_balances_once demo_account_node demo_client (demo_sync_config Normal_Mode) demo_numeric 1 20 20 (demo_accounts 7) r db'
     \<and> map ad_dirty (addresses db') = [0]"
proof -
  let ?db = "demo_accounts 7"
  have count: "count_dirty_addresses 1 ?db = 1" by code_simp
  have dirty: "demo_dirty = fetch_dirty_address_batch 1 (balance_dirty_batch_size (count_dirty_addresses 1 ?db)) ?db" by code_simp
  have ids: "distinct (map ad_id (addresses ?db))" by (simp add: demo_accounts_def)
  from demo_persist obtain m where m: "persist_balance_accounts demo_numeric 0 1 demo_dirty [demo_account] ?db = Inr (demo_dirty, m)" by blast
  have chain: "drv_chain (demo_sync_config Normal_Mode) = ''test''" by (simp add: demo_sync_config_def)
  note fetched = demo_fetched [folded chain]
  have view: "flag_view m = flag_view ?db" by (rule persisted_rows_refreshed(1) [OF dirty fetched m])
  have "distinct (map ad_id (addresses m))" using flag_view_ids [OF view] ids by simp
  then have grow: "flags_grow m m" by (rule flags_grow_refl)
  obtain reset db4 where reset: "reset_dirty_balance_flags demo_dirty (reconcile_stake_memberships (map dirty_id demo_dirty) m) = (reset, db4)"
    by force
  have zero: "validate_zero_state_scope (drv_chain (demo_sync_config Normal_Mode)) 20 = Inr ()"
    by (simp add: chain validate_zero_state_scope_def)
  have "sync_dirty_balances_once demo_account_node demo_client (demo_sync_config Normal_Mode) demo_numeric 1 20 20 ?db
      (Inr ((balance_report_of (demo_sync_config Normal_Mode) 20 20 (count_dirty_addresses 1 ?db))
         \<lparr>brep_selected := length demo_dirty, brep_updated := length demo_dirty, brep_reset := reset\<rparr>)) db4"
    by (rule synced [OF zero _ _ dirty fetched flags_grow_refl [OF ids] m grow reset]) (simp_all add: count)
  moreover have "map ad_dirty (addresses db4) = [0]"
  proof -
    obtain row where row: "addresses m = [row]" "ad_id row = 1" "ad_dirty row = 7"
      using view by (auto simp: flag_view_def demo_accounts_def demo_row_def map_eq_Cons_conv)
    with reset show ?thesis by (auto simp: reset_dirty_balance_flags_def demo_dirty_def Let_def)
  qed
  ultimately show ?thesis by (intro exI conjI)
qed


text \<open>Two balance rows of one symbol whose token is known make the statement that stores them fail, and with
  it the pass; the batch is selected again the next time.\<close>

lemma duplicate_balance_fails:
  assumes "token_ids chain_id symbol db = [t]" "parse_numeric a = Some v" "parse_numeric b = Some w" "a \<noteq> []" "b \<noteq> []"
  shows "replace_address_balances parse_numeric chain_id address_id [(symbol, a), (symbol, b)] db = Inl (Db ''database operation failed'')"
  using assms by (simp add: replace_address_balances_def desired_balances_def numeric_or_null_def)

end
