(* ===== verification/Api_Paging.thy ===== *)
theory Api_Paging
  imports Prelude Api_Error "HOL-Library.Product_Lexorder"
begin

text \<open>
  Request parameters and page cursors of the list endpoints (\<open>src/crates/http-api/src/support.rs\<close>, the
  cursor types of \<open>src/crates/http-api/src/lib.rs\<close>, \<open>src/crates/db/src/reads/sort.rs\<close>), the seek and
  offset clauses that the list queries share, and what a client that follows the cursors sees.  The
  locales \<open>keyset_list\<close> and \<open>offset_list\<close> state what one request promises; the theories of the endpoints
  interpret them.
\<close>

section \<open>Sort direction\<close>

datatype sort_direction = Asc | Desc

definition from_api_param :: "string option \<Rightarrow> sort_direction option" where
  "from_api_param v =
     (let s = to_ascii_lowercase (unwrap_or v ''asc'')
      in if s = ''asc'' then Some Asc else if s = ''desc'' then Some Desc else None)"

fun as_sql :: "sort_direction \<Rightarrow> string" where
  "as_sql Asc = ''ASC''"
| "as_sql Desc = ''DESC''"

text \<open>The comparison that the SQL operator \<open>cursor_operator\<close> stands for.\<close>

fun cursor_operator :: "sort_direction \<Rightarrow> int \<Rightarrow> int \<Rightarrow> bool" where
  "cursor_operator Asc a b \<longleftrightarrow> b < a"
| "cursor_operator Desc a b \<longleftrightarrow> a < b"

section \<open>Parameters\<close>

definition in_quotes :: "string \<Rightarrow> string" where
  "in_quotes s = CHR 0x27 # s @ [CHR 0x27]"

definition clamp_limit :: "int option \<Rightarrow> int" where
  "clamp_limit l = max 1 (min 100 (unwrap_or l 50))"

definition history_price_limit :: "int option \<Rightarrow> api_error + int option" where
  "history_price_limit l =
     (let l = unwrap_or l 50
      in if l < - 1 then Inl (BadRequest ''limit cannot be less than -1'')
         else Inr (if 0 < l then Some l else None))"

definition nonnegative_offset :: "int option \<Rightarrow> api_error + int" where
  "nonnegative_offset v =
     (let offset = unwrap_or v 0
      in if offset < 0 then Inl (BadRequest ''offset cannot be negative'') else Inr offset)"

definition empty_to_none :: "string option \<Rightarrow> string option" where
  "empty_to_none v =
     (case v of None \<Rightarrow> None | Some s \<Rightarrow> let t = trim s in if t = [] then None else Some t)"

definition query_chain :: "string option \<Rightarrow> string \<Rightarrow> string" where
  "query_chain v default_chain = unwrap_or (empty_to_none v) default_chain"

definition parse_sort_direction :: "string option \<Rightarrow> api_error + sort_direction" where
  "parse_sort_direction v =
     ok_or (BadRequest (''unsupported order_direction '' @ in_quotes (to_ascii_lowercase (unwrap_or v ''asc''))))
       (from_api_param v)"

definition parse_optional :: "(string \<Rightarrow> int_error + int) \<Rightarrow> string option \<Rightarrow> string \<Rightarrow> api_error + int option" where
  "parse_optional parse v field =
     (case v of
        None \<Rightarrow> Inr None
      | Some s \<Rightarrow> map_ok Some (map_err (\<lambda>e. BadRequest (field @ '' is not a valid integer: '' @ show_int_error e)) (parse s)))"

definition parse_optional_i64 :: "string option \<Rightarrow> string \<Rightarrow> api_error + int option" where
  "parse_optional_i64 = parse_optional parse_i64"

definition parse_optional_i32 :: "string option \<Rightarrow> string \<Rightarrow> api_error + int option" where
  "parse_optional_i32 = parse_optional parse_i32"

definition normalized_required_path :: "string \<Rightarrow> string \<Rightarrow> api_error + string" where
  "normalized_required_path field v =
     (let t = trim v in if t = [] then Inl (BadRequest (field @ '' cannot be empty'')) else Inr t)"

definition parse_i32_id :: "string \<Rightarrow> string \<Rightarrow> api_error + int" where
  "parse_i32_id field v =
     map_err (\<lambda>e. Internal (''stored '' @ field @ '' is not a valid integer ID: '' @ show_int_error e)) (parse_i32 v)"

definition is_positive_raw :: "string option \<Rightarrow> bool" where
  "is_positive_raw v =
     (case v of None \<Rightarrow> False | Some s \<Rightarrow> (case parse_i128 s of Inl _ \<Rightarrow> False | Inr i \<Rightarrow> 0 < i))"

definition i64_range :: "int \<Rightarrow> bool" where
  "i64_range i \<longleftrightarrow> - (2 ^ 63) \<le> i \<and> i \<le> 2 ^ 63 - 1"

definition i32_range :: "int \<Rightarrow> bool" where
  "i32_range i \<longleftrightarrow> - (2 ^ 31) \<le> i \<and> i \<le> 2 ^ 31 - 1"

section \<open>Cursors\<close>

record page_cursor =
  sort_value :: int
  cursor_row :: int

definition page_cursor_parse :: "string \<Rightarrow> string \<Rightarrow> string + page_cursor" where
  "page_cursor_parse v expected_kind =
     (case split_once (CHR '':'') v of
        None \<Rightarrow> Inl (''expected '' @ in_quotes ''<kind>:<value>:<id>'')
      | Some (kind, payload) \<Rightarrow>
          if kind \<noteq> expected_kind then Inl (''cursor kind must be '' @ in_quotes expected_kind)
          else (case split_once (CHR '':'') payload of
              None \<Rightarrow> Inl ''expected sort-value and integer ID payload''
            | Some (sv, i) \<Rightarrow>
                and_then (map_err (\<lambda>e. ''invalid sort value: '' @ show_int_error e) (parse_i64 sv)) (\<lambda>sv.
                and_then (map_err (\<lambda>e. ''invalid ID: '' @ show_int_error e) (parse_i32 i)) (\<lambda>i.
                Inr \<lparr>sort_value = sv, cursor_row = i\<rparr>))))"

definition page_cursor_parse_optional :: "string option \<Rightarrow> string \<Rightarrow> api_error + page_cursor option" where
  "page_cursor_parse_optional v expected_kind =
     (case v of
        None \<Rightarrow> Inr None
      | Some s \<Rightarrow> map_ok Some (map_err (\<lambda>e. BadRequest (''invalid cursor: '' @ e)) (page_cursor_parse s expected_kind)))"

definition page_cursor_encode :: "string \<Rightarrow> page_cursor \<Rightarrow> string" where
  "page_cursor_encode kind c = kind @ '':'' @ show_int (sort_value c) @ '':'' @ show_int (cursor_row c)"

definition offset_cursor_parse :: "string \<Rightarrow> string + int" where
  "offset_cursor_parse v =
     (case strip_prefix ''offset:'' v of
        None \<Rightarrow> Inl (''expected '' @ in_quotes ''offset:<n>'')
      | Some payload \<Rightarrow>
          and_then (map_err (\<lambda>e. ''invalid offset: '' @ show_int_error e) (parse_i64 payload)) (\<lambda>offset.
          if offset < 0 then Inl ''offset cannot be negative'' else Inr offset))"

definition offset_cursor_parse_optional :: "string option \<Rightarrow> api_error + int" where
  "offset_cursor_parse_optional v =
     (case v of
        None \<Rightarrow> Inr 0
      | Some s \<Rightarrow> map_err (\<lambda>e. BadRequest (''invalid cursor: '' @ e)) (offset_cursor_parse s))"

definition offset_cursor_encode :: "int \<Rightarrow> string" where
  "offset_cursor_encode offset = ''offset:'' @ show_int offset"

section \<open>Pages of rows\<close>

text \<open>\<open>usize::try_from\<close> on a 64-bit target.\<close>

definition usize_try_from :: "int \<Rightarrow> nat option" where
  "usize_try_from i = (if i < 0 then None else Some (nat i))"

definition row_cursor :: "('r \<Rightarrow> int \<times> int) \<Rightarrow> string \<Rightarrow> 'r \<Rightarrow> string" where
  "row_cursor key kind r = page_cursor_encode kind \<lparr>sort_value = fst (key r), cursor_row = snd (key r)\<rparr>"

definition trim_page_rows ::
    "('r \<Rightarrow> int \<times> int) \<Rightarrow> 'r list \<Rightarrow> int \<Rightarrow> string \<Rightarrow> api_error + 'r list \<times> string option" where
  "trim_page_rows key rows limit kind =
     and_then (ok_or (BadRequest ''limit is outside usize range'') (usize_try_from limit)) (\<lambda>limit.
       let has_next_page = limit < length rows;
           rows = (if has_next_page then take limit rows else rows)
       in Inr (rows, if has_next_page \<and> rows \<noteq> [] then Some (row_cursor key kind (last rows)) else None))"

definition trim_offset_rows :: "'r list \<Rightarrow> int \<Rightarrow> int \<Rightarrow> api_error + 'r list \<times> string option" where
  "trim_offset_rows rows limit offset =
     and_then (ok_or (BadRequest ''limit is outside usize range'') (usize_try_from limit)) (\<lambda>limit.
       let has_next_page = limit < length rows;
           rows = (if has_next_page then take limit rows else rows)
       in Inr (rows, if has_next_page then Some (offset_cursor_encode (offset + int (length rows))) else None))"

text \<open>The clauses of the list queries: the order over the sort column and the row id, and the rows
  after the cursor.  Row ids are primary keys, so the order has no ties.\<close>

definition order_by :: "sort_direction \<Rightarrow> ('r \<Rightarrow> 'k::linorder) \<Rightarrow> 'r list \<Rightarrow> 'r list" where
  "order_by d key rows = (case d of Asc \<Rightarrow> sort_key key rows | Desc \<Rightarrow> rev (sort_key key rows))"

definition seek_after :: "sort_direction \<Rightarrow> int option \<Rightarrow> int option \<Rightarrow> int \<times> int \<Rightarrow> bool" where
  "seek_after d cursor_sort_value cursor_id k =
     (case cursor_sort_value of
        None \<Rightarrow> True
      | Some s \<Rightarrow> cursor_operator d (fst k) s
          \<or> fst k = s \<and> (case cursor_id of None \<Rightarrow> False | Some c \<Rightarrow> cursor_operator d (snd k) c))"

definition seek_page ::
    "sort_direction \<Rightarrow> ('r \<Rightarrow> int \<times> int) \<Rightarrow> int option \<Rightarrow> int option \<Rightarrow> int \<Rightarrow> 'r list \<Rightarrow> 'r list" where
  "seek_page d key cursor_sort_value cursor_id limit rows =
     take (nat limit) (order_by d key (filter (\<lambda>r. seek_after d cursor_sort_value cursor_id (key r)) rows))"

section \<open>Lemmas on cursors and orders\<close>

lemma clamp_limit_range: "1 \<le> clamp_limit l" "clamp_limit l \<le> 100"
  by (simp_all add: clamp_limit_def)

lemma page_cursor_round_trip:
  assumes "CHR '':'' \<notin> set kind" "i64_range (sort_value c)" "i32_range (cursor_row c)"
  shows "page_cursor_parse (page_cursor_encode kind c) kind = Inr c"
proof -
  have "parse_i64 (show_int (sort_value c)) = Inr (sort_value c)"
    and "parse_i32 (show_int (cursor_row c)) = Inr (cursor_row c)"
    using assms(2,3) by (simp_all add: i64_range_def i32_range_def parse_int_show_int)
  moreover have "split_once (CHR '':'') (page_cursor_encode kind c) =
      Some (kind, show_int (sort_value c) @ CHR '':'' # show_int (cursor_row c))"
    using assms(1) by (simp add: page_cursor_encode_def)
  moreover have "split_once (CHR '':'') (show_int (sort_value c) @ CHR '':'' # show_int (cursor_row c)) =
      Some (show_int (sort_value c), show_int (cursor_row c))" by simp
  ultimately show ?thesis by (simp add: page_cursor_parse_def)
qed

lemma offset_cursor_round_trip:
  "0 \<le> offset \<Longrightarrow> i64_range offset \<Longrightarrow> offset_cursor_parse (offset_cursor_encode offset) = Inr offset"
proof -
  assume a: "0 \<le> offset" "i64_range offset"
  then have "parse_i64 (show_int offset) = Inr offset" by (simp add: i64_range_def parse_int_show_int)
  moreover have "strip_prefix ''offset:'' (offset_cursor_encode offset) = Some (show_int offset)"
    unfolding offset_cursor_encode_def by (rule strip_prefix_append)
  ultimately show ?thesis using a by (simp add: offset_cursor_parse_def)
qed

definition precedes :: "sort_direction \<Rightarrow> int \<times> int \<Rightarrow> int \<times> int \<Rightarrow> bool" where
  "precedes d k k' \<longleftrightarrow> (case d of Asc \<Rightarrow> k < k' | Desc \<Rightarrow> k' < k)"

definition after_cursor :: "sort_direction \<Rightarrow> page_cursor option \<Rightarrow> int \<times> int \<Rightarrow> bool" where
  "after_cursor d c k \<longleftrightarrow> seek_after d (map_option sort_value c) (map_option cursor_row c) k"

definition cursor_at :: "int \<times> int \<Rightarrow> page_cursor" where
  "cursor_at k = \<lparr>sort_value = fst k, cursor_row = snd k\<rparr>"

lemma precedes_trans: "precedes d a b \<Longrightarrow> precedes d b c \<Longrightarrow> precedes d a c"
  unfolding precedes_def by (cases d) (auto dest: less_trans)

lemma precedes_irrefl [simp]: "\<not> precedes d a a"
  by (cases d) (simp_all add: precedes_def)

lemma after_cursor_None [simp]: "after_cursor d None k"
  by (simp add: after_cursor_def seek_after_def)

lemma after_cursor_at [simp]: "after_cursor d (Some (cursor_at k)) k' \<longleftrightarrow> precedes d k k'"
  by (cases d; cases k; cases k') (auto simp: after_cursor_def seek_after_def cursor_at_def precedes_def)

lemma cursor_at_eta: "c = cursor_at (sort_value c, cursor_row c)"
  by (cases c) (simp add: cursor_at_def)

lemma after_cursor_trans: "after_cursor d c k \<Longrightarrow> precedes d k k' \<Longrightarrow> after_cursor d c k'"
proof (cases c)
  case (Some p)
  assume "after_cursor d c k" "precedes d k k'"
  with Some show ?thesis
    by (metis after_cursor_at cursor_at_eta precedes_trans)
qed simp

lemma set_order_by [simp]: "set (order_by d key rows) = set rows"
  by (cases d) (simp_all add: order_by_def)

lemma length_order_by [simp]: "length (order_by d key rows) = length rows"
  by (cases d) (simp_all add: order_by_def)

lemma order_by_filter: "order_by d key (filter P rows) = filter P (order_by d key rows)"
  by (cases d) (simp_all add: order_by_def filter_sort flip: rev_filter)

lemma order_by_precedes:
  assumes "distinct (map key rows)"
  shows "sorted_wrt (\<lambda>r s. precedes d (key r) (key s)) (order_by d key rows)"
proof -
  have "distinct (map key (sort_key key rows))" using assms by (simp add: distinct_map)
  then have "sorted_wrt (<) (map key (sort_key key rows))" by (simp add: strict_sorted_iff)
  then have "sorted_wrt (\<lambda>r s. key r < key s) (sort_key key rows)" by (simp add: sorted_wrt_map)
  then show ?thesis
    by (cases d) (simp_all add: order_by_def precedes_def sorted_wrt_rev)
qed

lemma sorted_wrt_after_nth:
  assumes "sorted_wrt (\<lambda>r s. precedes d (key r) (key s)) xs" "i < length xs"
  shows "filter (\<lambda>r. precedes d (key (xs ! i)) (key r)) xs = drop (Suc i) xs"
proof -
  have xs: "xs = take (Suc i) xs @ drop (Suc i) xs" by simp
  have "\<not> precedes d (key (xs ! i)) (key r)" if "r \<in> set (take (Suc i) xs)" for r
  proof -
    from that obtain j where "j < Suc i" and r: "r = xs ! j" by (auto simp: in_set_conv_nth)
    then have j: "j \<le> i" "r = xs ! j" by simp_all
    show ?thesis
    proof (cases "j = i")
      case False
      with j assms have "precedes d (key r) (key (xs ! i))" by (simp add: sorted_wrt_iff_nth_less)
      then show ?thesis using precedes_trans precedes_irrefl by blast
    qed (use j in simp)
  qed
  moreover have "precedes d (key (xs ! i)) (key r)" if "r \<in> set (drop (Suc i) xs)" for r
  proof -
    from that obtain j where "j < length xs - Suc i" and "r = xs ! (Suc i + j)"
      using assms(2) by (auto simp: in_set_conv_nth)
    then have "i < Suc i + j" "Suc i + j < length xs" "r = xs ! (Suc i + j)" by simp_all
    with assms show ?thesis by (simp add: sorted_wrt_iff_nth_less)
  qed
  ultimately show ?thesis
    by (subst xs, subst filter_append) (simp add: filter_empty_conv filter_id_conv)
qed

section \<open>Following the cursors of a keyset-paged list\<close>

text \<open>A client asks for a page, then for the page behind the cursor it was given, until a page carries no
  cursor.  \<open>load n c\<close> is the answer to the \<open>n\<close>-th request; the database may change between requests.\<close>

inductive follow ::
    "(nat \<Rightarrow> string option \<Rightarrow> 'e + 'v list \<times> string option) \<Rightarrow> nat \<Rightarrow> string option \<Rightarrow> 'v list \<Rightarrow> bool"
  for load where
  last_page: "load n c = Inr (vs, None) \<Longrightarrow> follow load n c vs"
| more_pages: "load n c = Inr (vs, Some c') \<Longrightarrow> follow load (Suc n) (Some c') ws \<Longrightarrow> follow load n c (vs @ ws)"

inductive_cases follow_cases: "follow load n c vs"

lemma follow_unique: "follow load n c vs \<Longrightarrow> follow load n c ws \<Longrightarrow> vs = ws"
proof (induction arbitrary: ws rule: follow.induct)
  case (last_page n c vs)
  from this(2,1) show ?case by (cases rule: follow_cases) auto
next
  case (more_pages n c vs c' ws')
  from more_pages(4,1) show ?case by (cases rule: follow_cases) (auto dest: more_pages.IH)
qed

definition cursor_range :: "page_cursor option \<Rightarrow> bool" where
  "cursor_range c \<longleftrightarrow> (case c of None \<Rightarrow> True | Some p \<Rightarrow> i64_range (sort_value p) \<and> i32_range (cursor_row p))"

definition rest_rows :: "sort_direction \<Rightarrow> ('r \<Rightarrow> int \<times> int) \<Rightarrow> page_cursor option \<Rightarrow> 'r list \<Rightarrow> 'r list" where
  "rest_rows d key c rows = order_by d key (filter (\<lambda>r. after_cursor d c (key r)) rows)"

lemma rest_rows_None [simp]: "rest_rows d key None rows = order_by d key rows"
  by (simp add: rest_rows_def)

lemma rest_rows_precedes:
  "distinct (map key rows) \<Longrightarrow> sorted_wrt (\<lambda>r s. precedes d (key r) (key s)) (rest_rows d key c rows)"
  unfolding rest_rows_def order_by_filter by (rule sorted_wrt_filter [OF order_by_precedes])

lemma set_rest_rows: "set (rest_rows d key c rows) = {r \<in> set rows. after_cursor d c (key r)}"
  by (auto simp: rest_rows_def)

lemma rest_rows_next:
  assumes "distinct (map key rows)" "i < length (rest_rows d key c rows)"
  shows "rest_rows d key (Some (cursor_at (key (rest_rows d key c rows ! i)))) rows = drop (Suc i) (rest_rows d key c rows)"
proof -
  let ?R = "rest_rows d key c rows"
  have at: "after_cursor d c (key (?R ! i))" using nth_mem [OF assms(2)] by (simp add: set_rest_rows)
  have "drop (Suc i) ?R = filter (\<lambda>r. precedes d (key (?R ! i)) (key r)) ?R"
    by (rule sorted_wrt_after_nth [OF rest_rows_precedes [OF assms(1)] assms(2), symmetric])
  also have "\<dots> = filter (\<lambda>r. after_cursor d c (key r) \<and> precedes d (key (?R ! i)) (key r)) (order_by d key rows)"
    by (simp add: rest_rows_def order_by_filter conj_commute)
  also have "\<dots> = filter (\<lambda>r. precedes d (key (?R ! i)) (key r)) (order_by d key rows)"
    by (rule filter_cong) (auto intro: after_cursor_trans [OF at])
  finally show ?thesis by (simp add: rest_rows_def order_by_filter)
qed

locale keyset_list =
  fixes load :: "nat \<Rightarrow> string option \<Rightarrow> 'e + 'v list \<times> string option"
    and rows :: "nat \<Rightarrow> 'r list"
    and key :: "'r \<Rightarrow> int \<times> int"
    and tag :: "'v \<Rightarrow> 't"
    and view :: "'r \<Rightarrow> 't"
    and d :: sort_direction
    and limit :: nat
    and kind :: string
  assumes limit_pos: "0 < limit"
    and distinct_keys: "distinct (map key (rows n))"
    and key_range: "r \<in> set (rows n) \<Longrightarrow> cursor_range (Some (cursor_at (key r)))"
    and page: "cursor_range c \<Longrightarrow> load n (map_option (page_cursor_encode kind) c) = Inr (vs, nxt) \<Longrightarrow>
      map tag vs = map view (take limit (rest_rows d key c (rows n)))
      \<and> nxt = (if limit < length (rest_rows d key c (rows n))
               then Some (page_cursor_encode kind (cursor_at (key (rest_rows d key c (rows n) ! (limit - 1))))) else None)"
begin

text \<open>Whatever happens to the table meanwhile, a finished walk is in order, has no row twice, and misses no
  row that was there all the time.\<close>

lemma walk_sound:
  assumes "follow load n cur vs" "cur = map_option (page_cursor_encode kind) c" "cursor_range c"
  shows "\<exists>rs. map tag vs = map view rs \<and> sorted_wrt (\<lambda>r s. precedes d (key r) (key s)) rs
    \<and> (\<forall>r \<in> set rs. after_cursor d c (key r) \<and> (\<exists>m \<ge> n. r \<in> set (rows m)))
    \<and> (\<forall>r. (\<forall>m \<ge> n. r \<in> set (rows m)) \<and> after_cursor d c (key r) \<longrightarrow> r \<in> set rs)"
  using assms
proof (induction arbitrary: c rule: follow.induct)
  case (last_page n cur vs)
  let ?R = "rest_rows d key c (rows n)"
  from page [OF last_page(3), of n vs None] last_page(1,2)
  have "map tag vs = map view (take limit ?R)" "\<not> limit < length ?R" by (auto split: if_splits)
  then have "map tag vs = map view ?R" by simp
  then show ?case
    using rest_rows_precedes [OF distinct_keys] by (intro exI [of _ ?R]) (auto simp: set_rest_rows)
next
  case (more_pages n cur vs cur' ws)
  let ?R = "rest_rows d key c (rows n)" and ?l = "limit - 1"
  from page [OF more_pages.prems(2), of n vs "Some cur'"] more_pages.hyps(1) more_pages.prems(1)
  have vs: "map tag vs = map view (take limit ?R)" and len: "limit < length ?R"
    and cur': "Some cur' = map_option (page_cursor_encode kind) (Some (cursor_at (key (?R ! ?l))))"
    by (auto split: if_splits)
  have l: "?l < length ?R" "Suc ?l = limit" using len limit_pos by simp_all
  have mem: "?R ! ?l \<in> set ?R" using l by simp
  then have "cursor_range (Some (cursor_at (key (?R ! ?l))))" by (auto simp: set_rest_rows intro: key_range)
  from more_pages.IH [OF cur' this] obtain rs where rs: "map tag ws = map view rs"
      "sorted_wrt (\<lambda>r s. precedes d (key r) (key s)) rs"
      "\<forall>r \<in> set rs. precedes d (key (?R ! ?l)) (key r) \<and> (\<exists>m \<ge> Suc n. r \<in> set (rows m))"
      "\<forall>r. (\<forall>m \<ge> Suc n. r \<in> set (rows m)) \<and> precedes d (key (?R ! ?l)) (key r) \<longrightarrow> r \<in> set rs"
    by auto
  note sorted = rest_rows_precedes [OF distinct_keys [of n], of d c]
  have upto: "precedes d (key r) (key s)" if "r \<in> set (take limit ?R)" "s \<in> set rs" for r s
  proof -
    from that(1) obtain j where j: "j < limit" "r = ?R ! j" using len by (auto simp: in_set_conv_nth)
    then have "r = ?R ! ?l \<or> precedes d (key r) (key (?R ! ?l))"
      using sorted l by (cases "j = ?l") (auto simp: sorted_wrt_iff_nth_less)
    with rs(3) that(2) show ?thesis by (metis precedes_trans)
  qed
  have stay: "r \<in> set (take limit ?R @ rs)" if r: "\<forall>m \<ge> n. r \<in> set (rows m)" "after_cursor d c (key r)" for r
  proof -
    have "r \<in> set (take limit ?R @ drop limit ?R)" using r by (simp only: append_take_drop_id set_rest_rows) auto
    then have "r \<in> set (take limit ?R) \<or> r \<in> set (drop limit ?R)" by (simp only: set_append Un_iff)
    moreover have "r \<in> set rs" if "r \<in> set (drop limit ?R)"
    proof -
      have "drop limit ?R = filter (\<lambda>r. precedes d (key (?R ! ?l)) (key r)) ?R"
        using sorted_wrt_after_nth [OF sorted l(1)] l(2) by simp
      with that have "precedes d (key (?R ! ?l)) (key r)" by simp
      with r(1) rs(4) show ?thesis by simp
    qed
    ultimately show ?thesis by auto
  qed
  have "sorted_wrt (\<lambda>r s. precedes d (key r) (key s)) (take limit ?R @ rs)"
    using sorted_wrt_take [OF sorted] rs(2) upto by (simp add: sorted_wrt_append)
  moreover have "after_cursor d c (key r) \<and> (\<exists>m \<ge> n. r \<in> set (rows m))" if "r \<in> set (take limit ?R @ rs)" for r
    using that in_set_takeD [of r limit ?R] rs(3) mem
    by (auto simp: set_rest_rows intro: after_cursor_trans dest: Suc_leD)
  ultimately show ?case using vs rs(1) stay by (intro exI [of _ "take limit ?R @ rs"]) auto
qed

end

text \<open>When every request is answered, the walk over a table that stays as it is ends, with the whole
  table in order.\<close>

locale keyset_list_total = keyset_list +
  assumes answers: "cursor_range c \<Longrightarrow> \<exists>x. load n (map_option (page_cursor_encode kind) c) = Inr x"
    and static: "rows n = rows m"
begin

lemma walk_complete:
  assumes "cursor_range c"
  shows "\<exists>vs. follow load n (map_option (page_cursor_encode kind) c) vs \<and> map tag vs = map view (rest_rows d key c (rows n))"
  using assms
proof (induction "length (rest_rows d key c (rows n))" arbitrary: c n rule: less_induct)
  case less
  let ?R = "rest_rows d key c (rows n)" and ?l = "limit - 1"
  from answers [OF less.prems] obtain vs nxt where
    load: "load n (map_option (page_cursor_encode kind) c) = Inr (vs, nxt)" by force
  note p = page [OF less.prems load]
  show ?case
  proof (cases "limit < length ?R")
    case False
    with p load show ?thesis by (intro exI [of _ vs]) (auto intro: follow.last_page)
  next
    case True
    have l: "?l < length ?R" "Suc ?l = limit" using True limit_pos by simp_all
    let ?c = "Some (cursor_at (key (?R ! ?l)))"
    have n': "rows (Suc n) = rows n" by (rule static)
    have drop: "rest_rows d key ?c (rows (Suc n)) = drop limit ?R"
      using rest_rows_next [OF distinct_keys l(1)] l(2) by (simp add: n')
    have "?R ! ?l \<in> set ?R" using l by simp
    then have "cursor_range ?c" by (auto simp: set_rest_rows intro: key_range)
    moreover have "length (rest_rows d key ?c (rows (Suc n))) < length ?R"
      unfolding drop using limit_pos True by simp
    ultimately obtain ws where ws: "follow load (Suc n) (map_option (page_cursor_encode kind) ?c) ws"
        "map tag ws = map view (drop limit ?R)"
      using less.hyps [of ?c "Suc n"] drop by auto
    from p True have "map tag vs = map view (take limit ?R)" "nxt = map_option (page_cursor_encode kind) ?c" by auto
    with ws(2) have "map tag (vs @ ws) = map view (take limit ?R @ drop limit ?R)" by (simp only: map_append)
    moreover have "follow load n (map_option (page_cursor_encode kind) c) (vs @ ws)"
      by (rule follow.more_pages [OF _ ws(1) [simplified]])
         (use load \<open>nxt = map_option (page_cursor_encode kind) ?c\<close> in simp)
    ultimately show ?thesis unfolding append_take_drop_id by blast
  qed
qed

end

section \<open>Following the cursors of an offset-paged list\<close>

definition offset_at :: "string option \<Rightarrow> nat \<Rightarrow> bool" where
  "offset_at c offset \<longleftrightarrow> c = None \<and> offset = 0 \<or> c = Some (offset_cursor_encode (int offset))"

lemma offset_at_parse:
  "offset_at c offset \<Longrightarrow> i64_range (int offset) \<Longrightarrow> offset_cursor_parse_optional c = Inr (int offset)"
  by (auto simp: offset_at_def offset_cursor_parse_optional_def offset_cursor_round_trip)

locale offset_list =
  fixes load :: "nat \<Rightarrow> string option \<Rightarrow> 'e + 'v list \<times> string option"
    and rows :: "'r list"
    and tag :: "'v \<Rightarrow> 't"
    and view :: "'r \<Rightarrow> 't"
    and limit :: nat
  assumes limit_pos: "0 < limit"
    and page: "offset_at c offset \<Longrightarrow> offset \<le> length rows \<Longrightarrow>
      \<exists>vs. load n c = Inr (vs, if limit < length rows - offset then Some (offset_cursor_encode (int (offset + limit))) else None)
        \<and> map tag vs = map view (take limit (drop offset rows))"
begin

lemma walk_all:
  "offset_at c offset \<Longrightarrow> offset \<le> length rows \<Longrightarrow> \<exists>vs. follow load n c vs \<and> map tag vs = map view (drop offset rows)"
proof (induction "length rows - offset" arbitrary: c offset n rule: less_induct)
  case less
  from page [OF less.prems, of n] obtain vs where
    load: "load n c = Inr (vs, if limit < length rows - offset then Some (offset_cursor_encode (int (offset + limit))) else None)"
    and vs: "map tag vs = map view (take limit (drop offset rows))" by blast
  show ?case
  proof (cases "limit < length rows - offset")
    case False
    then show ?thesis using load vs by (intro exI [of _ vs]) (auto intro: follow.last_page)
  next
    case True
    then have "length rows - (offset + limit) < length rows - offset" "offset + limit \<le> length rows"
      using limit_pos by simp_all
    from less.hyps [OF this(1) _ this(2), of "Some (offset_cursor_encode (int (offset + limit)))" "Suc n"]
    obtain ws where ws: "follow load (Suc n) (Some (offset_cursor_encode (int (offset + limit)))) ws"
        "map tag ws = map view (drop limit (drop offset rows))"
      by (auto simp: offset_at_def add.commute)
    have "follow load n c (vs @ ws)" by (rule follow.more_pages [OF _ ws(1)]) (use load True in simp)
    moreover have "map tag (vs @ ws) = map view (take limit (drop offset rows) @ drop limit (drop offset rows))"
      using vs ws(2) by (simp only: map_append)
    ultimately show ?thesis unfolding append_take_drop_id by blast
  qed
qed

end

end
