(* ===== verification/Event_Response.thy ===== *)
theory Event_Response
  imports Json Api_Error Api_Paging Complex_Main
begin

text \<open>
  From an event row to the event the API serves (\<open>src/crates/http-api/src/support.rs\<close>): token amounts as
  decimal text, the enrichment of the typed payload objects, the projection of special resolutions and
  the served payload.  Unicode upper case is the argument \<open>up\<close>, and the tokens of a page are a lookup by
  upper-case symbol.
\<close>

section \<open>Scalars and amounts\<close>

fun json_scalar_to_string :: "json \<Rightarrow> string option" where
  "json_scalar_to_string (JString s) = Some s"
| "json_scalar_to_string (JNumber t) = Some t"
| "json_scalar_to_string (JBool b) = Some (if b then ''true'' else ''false'')"
| "json_scalar_to_string _ = None"

fun json_as_object :: "json \<Rightarrow> json str_map option" where
  "json_as_object (JObject m) = Some m"
| "json_as_object _ = None"

fun json_as_array :: "json \<Rightarrow> json list option" where
  "json_as_array (JArray js) = Some js"
| "json_as_array _ = None"

fun json_as_i64 :: "json \<Rightarrow> int option" where
  "json_as_i64 (JNumber t) = (case parse_i64 t of Inl _ \<Rightarrow> None | Inr i \<Rightarrow> Some i)"
| "json_as_i64 _ = None"

definition format_digits :: "string \<Rightarrow> nat \<Rightarrow> string" where
  "format_digits digits token_decimals =
     (if length digits \<le> token_decimals then
        let padded = replicate (token_decimals - length digits) (CHR ''0'') @ digits;
            decimal_part = trim_end_matches (CHR ''0'') padded
        in if decimal_part = [] then ''0'' else ''0.'' @ decimal_part
      else
        let decimal_start = length digits - token_decimals;
            decimal_part = trim_end_matches (CHR ''0'') (drop decimal_start digits)
        in if decimal_part = [] then take decimal_start digits
           else take decimal_start digits @ ''.'' @ decimal_part)"

definition format_token_amount :: "string \<Rightarrow> nat \<Rightarrow> string" where
  "format_token_amount amount token_decimals =
     (let amount = trim amount
      in if amount = ''0'' \<or> token_decimals = 0 then amount
         else
           let negative = strip_prefix ''-'' amount;
               digits = unwrap_or negative amount
           in if \<not> list_all is_ascii_digit digits then amount
              else let formatted = format_digits digits token_decimals
                   in if negative \<noteq> None \<and> formatted \<noteq> ''0'' then ''-'' @ formatted else formatted)"

section \<open>Enrichment\<close>

definition object_or_default :: "json \<Rightarrow> json str_map" where
  "object_or_default v = unwrap_or (json_as_object v) []"

definition scalar_at :: "string \<Rightarrow> json str_map \<Rightarrow> string option" where
  "scalar_at k m = Option.bind (map_of m k) json_scalar_to_string"

definition token_decimals_of :: "json \<Rightarrow> nat" where
  "token_decimals_of token =
     (case Option.bind (json_get ''decimals'' token) json_as_i64 of
        None \<Rightarrow> 0 | Some i \<Rightarrow> unwrap_or (usize_try_from i) 0)"

definition enrich_token_event ::
    "(string \<Rightarrow> string) \<Rightarrow> json \<Rightarrow> string option \<Rightarrow> (string \<Rightarrow> json option) \<Rightarrow> json" where
  "enrich_token_event up v contract_symbol tokens =
     (let m = object_or_default v
      in case or_else (scalar_at ''token'' m) contract_symbol of
           None \<Rightarrow> JObject m
         | Some symbol \<Rightarrow>
             (case tokens (up symbol) of
                None \<Rightarrow> JObject (map_insert ''token'' (JString symbol) m)
              | Some token \<Rightarrow>
                  let m = map_insert ''token'' token m
                  in case or_else (scalar_at ''value_raw'' m) (scalar_at ''value'' m) of
                       None \<Rightarrow> JObject m
                     | Some raw \<Rightarrow>
                         JObject (map_insert ''value_raw'' (JString raw)
                           (map_insert ''value'' (JString (format_token_amount raw (token_decimals_of token))) m))))"

text \<open>The gas fee: \<open>price * amount\<close> in \<open>i128\<close>.  An overflow panics under overflow checks and wraps without
  them; the result is the wrapped product here.\<close>

definition wrap_i128 :: "int \<Rightarrow> int" where
  "wrap_i128 i = (i + 2 ^ 127) mod 2 ^ 128 - 2 ^ 127"

definition gas_fee_raw :: "string option \<Rightarrow> string \<Rightarrow> string" where
  "gas_fee_raw price amount_raw =
     (case price of
        None \<Rightarrow> amount_raw
      | Some p \<Rightarrow>
          (case (parse_i128 p, parse_i128 amount_raw) of
             (Inr p, Inr a) \<Rightarrow> show_int (wrap_i128 (p * a))
           | _ \<Rightarrow> amount_raw))"

definition enrich_gas_event :: "json \<Rightarrow> json" where
  "enrich_gas_event v =
     (let m = object_or_default v;
          m = (case scalar_at ''address'' m of
                 None \<Rightarrow> m
               | Some a \<Rightarrow> map_insert ''address'' (json_object [(''address'', JString a)]) m)
      in case scalar_at ''amount'' m of
           None \<Rightarrow> JObject m
         | Some amount_raw \<Rightarrow>
             let m = map_insert ''amount'' (JString (format_token_amount amount_raw 10)) m
             in JObject (map_insert ''fee''
                  (JString (format_token_amount (gas_fee_raw (scalar_at ''price'' m) amount_raw) 10)) m))"

definition enrich_chain_event :: "json \<Rightarrow> json" where
  "enrich_chain_event v =
     (let m = object_or_default v
      in case scalar_at ''chain'' m of
           None \<Rightarrow> JObject m
         | Some c \<Rightarrow> JObject (map_insert ''chain'' (json_object [(''chain_name'', JString c)]) m))"

fun enrich_token_keys ::
    "(string \<Rightarrow> string) \<Rightarrow> (string \<Rightarrow> json option) \<Rightarrow> string list \<Rightarrow> json str_map \<Rightarrow> json str_map" where
  "enrich_token_keys up tokens [] m = m"
| "enrich_token_keys up tokens (k # ks) m =
     enrich_token_keys up tokens ks
       (case Option.bind (scalar_at k m) (\<lambda>symbol. tokens (up symbol)) of
          None \<Rightarrow> m | Some token \<Rightarrow> map_insert k token m)"

definition enrich_multi_token_event ::
    "(string \<Rightarrow> string) \<Rightarrow> json \<Rightarrow> (string \<Rightarrow> json option) \<Rightarrow> string list \<Rightarrow> json" where
  "enrich_multi_token_event up v tokens keys = JObject (enrich_token_keys up tokens keys (object_or_default v))"

definition enrich_single_token_event ::
    "(string \<Rightarrow> string) \<Rightarrow> json \<Rightarrow> (string \<Rightarrow> json option) \<Rightarrow> string \<Rightarrow> json" where
  "enrich_single_token_event up v tokens key = enrich_multi_token_event up v tokens [key]"

definition enrich_token_series_event :: "(string \<Rightarrow> string) \<Rightarrow> json \<Rightarrow> (string \<Rightarrow> json option) \<Rightarrow> json" where
  "enrich_token_series_event up v tokens =
     (let m = object_or_default (enrich_single_token_event up v tokens ''token'')
      in case scalar_at ''owner'' m of
           None \<Rightarrow> JObject m
         | Some a \<Rightarrow> JObject (map_insert ''owner'' (json_object [(''address'', JString a)]) m))"

definition enrich_address_event :: "json \<Rightarrow> json" where
  "enrich_address_event v =
     (case json_get ''address'' v of
        None \<Rightarrow> v
      | Some (JObject _) \<Rightarrow> v
      | Some a \<Rightarrow>
          (case json_scalar_to_string a of
             None \<Rightarrow> v
           | Some s \<Rightarrow> json_object [(''address'', json_object [(''address'', JString s)])]))"

section \<open>Special resolutions\<close>

definition SPECIAL_RESOLUTION_INLINE_CALLS :: nat where
  "SPECIAL_RESOLUTION_INLINE_CALLS = 50"

definition calls_of :: "json str_map \<Rightarrow> json list" where
  "calls_of m = unwrap_or (Option.bind (map_of m ''calls'') json_as_array) []"

definition copy_keys :: "string list \<Rightarrow> json str_map \<Rightarrow> json str_map" where
  "copy_keys keys m = fold (\<lambda>k p. case map_of m k of None \<Rightarrow> p | Some v \<Rightarrow> map_insert k v p) keys []"

lemma size_map_of: "map_of m k = Some v \<Longrightarrow> size v < size (JObject m)"
proof (induction m)
  case (Cons e m)
  then show ?case by (cases e) (auto split: if_splits)
qed simp

lemma size_calls_of:
  assumes "call \<in> set (calls_of m)"
  shows "size call < size (JObject m)"
proof -
  obtain js where js: "map_of m ''calls'' = Some (JArray js)" "call \<in> set js"
    using assms by (cases "map_of m ''calls''"; cases "the (map_of m ''calls'')") (auto simp: calls_of_def)
  from js(2) have "size call < size (JArray js)" by (induction js) auto
  with size_map_of [OF js(1)] show ?thesis by simp
qed

function project_resolution_call :: "json \<Rightarrow> json" where
  "project_resolution_call call =
     (case call of
        JObject m \<Rightarrow>
          JObject (map_insert ''calls'' (JArray (map project_resolution_call (take SPECIAL_RESOLUTION_INLINE_CALLS (calls_of m))))
            (map_insert ''calls_total'' (JNumber (show_nat (length (calls_of m))))
              (map_insert ''has_arguments'' (JBool (map_of m ''arguments'' \<noteq> None))
                (copy_keys [''module'', ''module_id'', ''method'', ''method_id''] m))))
      | _ \<Rightarrow> call)"
  by pat_completeness auto
termination
  by (relation "measure size") (auto dest!: in_set_takeD size_calls_of)

definition project_resolution_calls :: "json list \<Rightarrow> json list" where
  "project_resolution_calls calls = map project_resolution_call (take SPECIAL_RESOLUTION_INLINE_CALLS calls)"

definition project_special_resolution :: "json \<Rightarrow> json" where
  "project_special_resolution payload =
     (case payload of
        JObject m \<Rightarrow>
          JObject (map_insert ''calls'' (JArray (project_resolution_calls (calls_of m)))
            (map_insert ''calls_total'' (JNumber (show_nat (length (calls_of m))))
              (copy_keys [''resolution_id'', ''description''] m)))
      | _ \<Rightarrow> payload)"

definition payload_json_without_special_resolution :: "json \<Rightarrow> json" where
  "payload_json_without_special_resolution payload =
     (case payload of
        JObject m \<Rightarrow>
          if map_of m ''special_resolution_event'' = None then payload
          else json_object (filter (\<lambda>(k, v). k \<noteq> ''special_resolution_event'') m)
      | _ \<Rightarrow> payload)"

definition rehydrate_event_payload :: "json option \<Rightarrow> string \<Rightarrow> string option \<Rightarrow> json option" where
  "rehydrate_event_payload payload chain_name address =
     map_option (\<lambda>p. case p of
         JObject m \<Rightarrow>
           let m = map_insert ''chain'' (JString chain_name) m
           in JObject (case address of None \<Rightarrow> m | Some a \<Rightarrow> map_insert ''address'' (JString a) m)
       | _ \<Rightarrow> p) payload"

section \<open>Typed event data\<close>

record event_data_fields =
  address_event :: "json option"
  chain_event :: "json option"
  gas_event :: "json option"
  governance_gas_config_event :: "json option"
  governance_chain_config_event :: "json option"
  special_resolution_event :: "json option"
  hash_event :: "json option"
  infusion_event :: "json option"
  market_event :: "json option"
  organization_event :: "json option"
  sale_event :: "json option"
  string_event :: "json option"
  token_create_event :: "json option"
  token_event :: "json option"
  token_series_event :: "json option"
  transaction_settle_event :: "json option"
  unknown_event :: "json option"

definition no_event_data :: event_data_fields where
  "no_event_data =
     \<lparr>address_event = None, chain_event = None, gas_event = None, governance_gas_config_event = None,
      governance_chain_config_event = None, special_resolution_event = None, hash_event = None,
      infusion_event = None, market_event = None, organization_event = None, sale_event = None,
      string_event = None, token_create_event = None, token_event = None, token_series_event = None,
      transaction_settle_event = None, unknown_event = None\<rparr>"

definition has_any_event_data :: "event_data_fields \<Rightarrow> bool" where
  "has_any_event_data f \<longleftrightarrow>
     address_event f \<noteq> None \<or> chain_event f \<noteq> None \<or> gas_event f \<noteq> None \<or> governance_gas_config_event f \<noteq> None
     \<or> governance_chain_config_event f \<noteq> None \<or> special_resolution_event f \<noteq> None \<or> hash_event f \<noteq> None
     \<or> infusion_event f \<noteq> None \<or> market_event f \<noteq> None \<or> organization_event f \<noteq> None \<or> sale_event f \<noteq> None
     \<or> string_event f \<noteq> None \<or> token_create_event f \<noteq> None \<or> token_event f \<noteq> None
     \<or> token_series_event f \<noteq> None \<or> transaction_settle_event f \<noteq> None"

definition event_data_key :: "string \<Rightarrow> string option" where
  "event_data_key kind =
     (if kind \<in> set [''AddressRegister'', ''ChainCreate'', ''ContractDeploy'', ''ContractUpgrade'', ''Custom'',
         ''LeaderboardCreate'', ''OrganizationCreate'', ''PlatformCreate'', ''ValidatorSwitch''] then Some ''string_event''
      else if kind = ''ChainSwap'' then Some ''transaction_settle_event''
      else if kind = ''Crowdsale'' then Some ''sale_event''
      else if kind \<in> set [''CrownRewards'', ''TokenBurn'', ''TokenClaim'', ''TokenMint'', ''TokenReceive'', ''TokenSend'',
         ''TokenStake''] then Some ''token_event''
      else if kind \<in> set [''FileCreate'', ''FileDelete''] then Some ''hash_event''
      else if kind \<in> set [''GasEscrow'', ''GasPayment''] then Some ''gas_event''
      else if kind = ''GovernanceSetChainConfig'' then Some ''governance_chain_config_event''
      else if kind = ''GovernanceSetGasConfig'' then Some ''governance_gas_config_event''
      else if kind = ''Infusion'' then Some ''infusion_event''
      else if kind \<in> set [''OrderBid'', ''OrderCancelled'', ''OrderClosed'', ''OrderCreated'', ''OrderFilled'']
         then Some ''market_event''
      else if kind \<in> set [''OrganizationAdd'', ''OrganizationRemove''] then Some ''organization_event''
      else if kind = ''SpecialResolution'' then Some ''special_resolution_event''
      else if kind = ''TokenCreate'' then Some ''token_create_event''
      else if kind = ''TokenSeriesCreate'' then Some ''token_series_event''
      else if kind \<in> set [''ValidatorElect'', ''ValidatorPropose''] then Some ''address_event''
      else if kind \<in> set [''ValueCreate'', ''ValueUpdate''] then Some ''chain_event''
      else None)"

definition typed_event_data ::
    "(string \<Rightarrow> string) \<Rightarrow> json str_map \<Rightarrow> string option \<Rightarrow> (string \<Rightarrow> json option) \<Rightarrow> event_data_fields" where
  "typed_event_data up m contract_symbol tokens =
     \<lparr>address_event = map_option enrich_address_event (map_of m ''address_event''),
      chain_event = map_option enrich_chain_event (map_of m ''chain_event''),
      gas_event = map_option enrich_gas_event (map_of m ''gas_event''),
      governance_gas_config_event = map_of m ''governance_gas_config_event'',
      governance_chain_config_event = map_of m ''governance_chain_config_event'',
      special_resolution_event = map_option project_special_resolution (map_of m ''special_resolution_event''),
      hash_event = map_of m ''hash_event'',
      infusion_event = map_option (\<lambda>v. enrich_multi_token_event up v tokens [''base_token'', ''infused_token'']) (map_of m ''infusion_event''),
      market_event = map_option (\<lambda>v. enrich_multi_token_event up v tokens [''base_token'', ''quote_token'']) (map_of m ''market_event''),
      organization_event = map_of m ''organization_event'',
      sale_event = map_of m ''sale_event'',
      string_event = map_of m ''string_event'',
      token_create_event = map_option (\<lambda>v. enrich_single_token_event up v tokens ''token'') (map_of m ''token_create_event''),
      token_event = map_option (\<lambda>v. enrich_token_event up v contract_symbol tokens) (map_of m ''token_event''),
      token_series_event = map_option (\<lambda>v. enrich_token_series_event up v tokens) (map_of m ''token_series_event''),
      transaction_settle_event = map_of m ''transaction_settle_event'',
      unknown_event = None\<rparr>"

definition build_event_data_fields ::
    "(string \<Rightarrow> string) \<Rightarrow> string \<Rightarrow> json option \<Rightarrow> string option \<Rightarrow> (string \<Rightarrow> json option) \<Rightarrow> event_data_fields" where
  "build_event_data_fields up event_kind payload contract_symbol tokens =
     (case Option.bind payload json_as_object of
        None \<Rightarrow> no_event_data
      | Some m \<Rightarrow>
          let f = typed_event_data up m contract_symbol tokens
          in if event_data_key event_kind \<noteq> None \<and> \<not> has_any_event_data f \<and> map_of m ''raw_data'' \<noteq> None
             then f\<lparr>unknown_event := Some (json_object [(''payload_json'', JObject m)])\<rparr> else f)"

section \<open>Event rows\<close>

text \<open>The columns of the list projection, and those of the joined tables that the list filters read.  \<open>nft_metadata_json\<close> and \<open>series_json\<close> are JSON objects that the
  API reads into response structures; that reading is derived by serde and an argument here.\<close>

record event_list_row =
  ev_row_id :: int
  ev_transaction_id :: int
  ev_index :: int
  ev_source :: string
  ev_chain_name :: string
  ev_timestamp :: int
  ev_block_hash :: string
  ev_transaction_hash :: string
  ev_kind :: string
  ev_name :: "string option"
  ev_address :: "string option"
  ev_address_name :: "string option"
  ev_contract_hash :: "string option"
  ev_contract_name :: "string option"
  ev_contract_symbol :: "string option"
  ev_token_id :: "string option"
  ev_payload_json :: "json option"
  ev_raw_data :: "string option"
  ev_nft_metadata_json :: "json option"
  ev_series_json :: "json option"
  ev_sort_value :: int
  ev_chain_id :: int
  ev_kind_id :: int
  ev_block_height :: int
  ev_address_id :: "int option"
  ev_target_address_id :: "int option"
  ev_target_address :: "string option"
  ev_nft_name :: "string option"
  ev_nft_description :: "string option"

record contract_ref =
  cr_hash :: string
  cr_name :: "string option"
  cr_symbol :: "string option"

record ('n, 's) event_response =
  event_id :: int
  event_index :: int
  event_source :: string
  er_chain :: string
  er_date :: string
  er_block_hash :: string
  er_transaction_hash :: string
  er_event_kind :: string
  er_event_name :: "string option"
  er_address :: "string option"
  er_address_name :: "string option"
  er_contract :: "contract_ref option"
  er_token_id :: "string option"
  er_payload_json :: "string option"
  er_raw_data :: "string option"
  er_nft_metadata :: "'n option"
  er_series :: "'s option"
  er_event_data :: event_data_fields

text \<open>What the endpoints call outside the repository: Unicode upper case, the text of a JSON value, the
  derived readers, and the operations on 64-bit floats.\<close>

record ('f, 'n, 's) api_lib =
  to_uppercase :: "string \<Rightarrow> string"
  json_text :: "json \<Rightarrow> string"
  read_nft_metadata :: "json \<Rightarrow> string + 'n"
  read_series :: "json \<Rightarrow> string + 's"
  f64_parse :: "string \<Rightarrow> 'f option"
  f64_pow10 :: "int \<Rightarrow> 'f"
  f64_div :: "'f \<Rightarrow> 'f \<Rightarrow> 'f"
  f64_mul :: "'f \<Rightarrow> 'f \<Rightarrow> 'f"
  f64_zero :: 'f
  f64_positive :: "'f \<Rightarrow> bool"
  f64_nonzero :: "'f \<Rightarrow> bool"
  f64_json :: "'f \<Rightarrow> json"

definition json_opt :: "(json \<Rightarrow> string + 'a) \<Rightarrow> json option \<Rightarrow> api_error + 'a option" where
  "json_opt read v =
     (case v of
        None \<Rightarrow> Inr None
      | Some j \<Rightarrow> map_ok Some (map_err (\<lambda>e. Internal (''stored JSON shape is invalid: '' @ e)) (read j)))"

definition event_from_row ::
    "('f, 'n, 's) api_lib \<Rightarrow> event_list_row \<Rightarrow> (string \<Rightarrow> json option) \<Rightarrow> bool \<Rightarrow> bool \<Rightarrow> bool
     \<Rightarrow> api_error + ('n, 's) event_response" where
  "event_from_row lib row tokens with_event_data with_metadata with_series =
     (let payload_value = rehydrate_event_payload (ev_payload_json row) (ev_chain_name row) (ev_address row);
          event_data = (if with_event_data
            then build_event_data_fields (to_uppercase lib) (ev_kind row) payload_value (ev_contract_symbol row) tokens
            else no_event_data);
          payload_json = (if with_event_data
            then map_option (\<lambda>p. json_text lib (payload_json_without_special_resolution p)) payload_value else None)
      in and_then (if with_metadata then json_opt (read_nft_metadata lib) (ev_nft_metadata_json row) else Inr None) (\<lambda>nft.
         and_then (if with_series then json_opt (read_series lib) (ev_series_json row) else Inr None) (\<lambda>series.
         Inr \<lparr>event_id = ev_row_id row, event_index = ev_index row, event_source = ev_source row,
              er_chain = ev_chain_name row, er_date = show_int (ev_timestamp row),
              er_block_hash = ev_block_hash row, er_transaction_hash = ev_transaction_hash row,
              er_event_kind = ev_kind row, er_event_name = ev_name row, er_address = ev_address row,
              er_address_name = ev_address_name row,
              er_contract = map_option (\<lambda>h. \<lparr>cr_hash = h, cr_name = ev_contract_name row, cr_symbol = ev_contract_symbol row\<rparr>)
                (ev_contract_hash row),
              er_token_id = ev_token_id row, er_payload_json = payload_json, er_raw_data = ev_raw_data row,
              er_nft_metadata = nft, er_series = series, er_event_data = event_data\<rparr>)))"

section \<open>Tokens of a page\<close>

definition payload_token_keys :: "(string \<times> string) list" where
  "payload_token_keys =
     [(''token_event'', ''token''), (''token_create_event'', ''token''), (''token_series_event'', ''token''),
      (''infusion_event'', ''base_token''), (''infusion_event'', ''infused_token''),
      (''market_event'', ''base_token''), (''market_event'', ''quote_token'')]"

definition collect_token_symbol_from_payload_key ::
    "(string \<Rightarrow> string) \<Rightarrow> json str_map \<Rightarrow> string \<Rightarrow> string \<Rightarrow> string option" where
  "collect_token_symbol_from_payload_key up payload event_key token_key =
     map_option up (Option.bind (Option.bind (map_of payload event_key) (json_get token_key)) json_scalar_to_string)"

definition row_token_symbols :: "(string \<Rightarrow> string) \<Rightarrow> event_list_row \<Rightarrow> string list" where
  "row_token_symbols up row =
     (case ev_contract_symbol row of None \<Rightarrow> [] | Some s \<Rightarrow> [up s])
     @ (case ev_payload_json row of
          Some (JObject m) \<Rightarrow>
            List.map_filter (\<lambda>(event_key, token_key). collect_token_symbol_from_payload_key up m event_key token_key) payload_token_keys
        | _ \<Rightarrow> [])"

definition collect_event_token_symbols :: "(string \<Rightarrow> string) \<Rightarrow> event_list_row list \<Rightarrow> string set" where
  "collect_event_token_symbols up rows = set (concat (map (row_token_symbols up) rows))"

record event_token_row =
  et_symbol :: string
  et_fungible :: bool
  et_transferable :: bool
  et_divisible :: bool
  et_fuel :: bool
  et_stakable :: bool
  et_fiat :: bool
  et_swappable :: bool
  et_burnable :: bool
  et_mintable :: bool
  et_decimals :: int
  et_max_supply_raw :: "string option"

definition event_token_json :: "event_token_row \<Rightarrow> json" where
  "event_token_json r =
     json_object
       [(''symbol'', JString (et_symbol r)), (''fungible'', JBool (et_fungible r)),
        (''transferable'', JBool (et_transferable r)), (''finite'', JBool (is_positive_raw (et_max_supply_raw r))),
        (''divisible'', JBool (et_divisible r)), (''fuel'', JBool (et_fuel r)), (''stakable'', JBool (et_stakable r)),
        (''fiat'', JBool (et_fiat r)), (''swappable'', JBool (et_swappable r)), (''burnable'', JBool (et_burnable r)),
        (''mintable'', JBool (et_mintable r)), (''decimals'', JNumber (show_int (et_decimals r)))]"

text \<open>Rows in the order of the query; a later row of a symbol replaces an earlier one.\<close>

definition list_event_tokens_by_symbols :: "event_token_row list \<Rightarrow> string set \<Rightarrow> event_token_row list" where
  "list_event_tokens_by_symbols tokens symbols = filter (\<lambda>r. et_symbol r \<in> symbols) tokens"

definition load_event_tokens_by_symbols ::
    "(string \<Rightarrow> string) \<Rightarrow> event_token_row list \<Rightarrow> string set \<Rightarrow> string \<Rightarrow> json option" where
  "load_event_tokens_by_symbols up tokens symbols =
     (if symbols = {} then (\<lambda>_. None)
      else map_of (rev (map (\<lambda>r. (up (et_symbol r), event_token_json r)) (list_event_tokens_by_symbols tokens symbols))))"

section \<open>Lemmas on projections\<close>

lemma map_of_copy_keys_aux:
  "map_of (fold (\<lambda>k p. case map_of m k of None \<Rightarrow> p | Some v \<Rightarrow> map_insert k v p) keys p) x =
     (if x \<in> set keys \<and> map_of m x \<noteq> None then map_of m x else map_of p x)"
  by (induction keys arbitrary: p) (auto simp: map_of_insert split: option.splits)

lemma map_of_copy_keys: "map_of (copy_keys keys m) x = (if x \<in> set keys then map_of m x else None)"
  by (auto simp: copy_keys_def map_of_copy_keys_aux)

declare project_resolution_call.simps [simp del]

text \<open>A call as a list answer may carry it: no arguments, at no level, and no more calls per level than the
  inline limit.\<close>

function light_call :: "json \<Rightarrow> bool" where
  "light_call call =
     (case call of
        JObject m \<Rightarrow> map_of m ''arguments'' = None \<and> length (calls_of m) \<le> 50 \<and> list_all light_call (calls_of m)
      | _ \<Rightarrow> True)"
  by pat_completeness auto
termination
  by (relation "measure size") (auto dest!: size_calls_of)

declare light_call.simps [simp del]

lemma project_resolution_call_scalar:
  "light_call (project_resolution_call JNull)" "light_call (project_resolution_call (JBool b))"
  "light_call (project_resolution_call (JNumber t))" "light_call (project_resolution_call (JString t))"
  "light_call (project_resolution_call (JArray js))"
  by (subst project_resolution_call.simps, subst light_call.simps, simp)+

lemma light_project_resolution_call: "light_call (project_resolution_call call)"
proof (induction call rule: project_resolution_call.induct)
  case (1 call)
  show ?case
  proof (cases call)
    case (JObject m)
    let ?cs = "map project_resolution_call (take SPECIAL_RESOLUTION_INLINE_CALLS (calls_of m))"
    define p where "p = map_insert ''calls'' (JArray ?cs) (map_insert ''calls_total'' (JNumber (show_nat (length (calls_of m))))
        (map_insert ''has_arguments'' (JBool (map_of m ''arguments'' \<noteq> None))
          (copy_keys [''module'', ''module_id'', ''method'', ''method_id''] m)))"
    have p: "calls_of p = ?cs" "map_of p ''arguments'' = None"
      by (simp_all add: p_def calls_of_def [of "map_insert _ _ _"] map_of_insert map_of_copy_keys)
    have "project_resolution_call call = JObject p"
      unfolding JObject p_def by (subst project_resolution_call.simps) simp
    have "list_all light_call ?cs" using 1 [OF JObject] by (simp add: list_all_iff)
    with p \<open>project_resolution_call call = JObject p\<close> show ?thesis by (simp add: light_call.simps [of "JObject p"] SPECIAL_RESOLUTION_INLINE_CALLS_def)
  qed (simp_all add: project_resolution_call_scalar)
qed

text \<open>C31.  A special resolution in an event answer is bounded whatever was stored: the true number of calls
  is reported, at most fifty of them are inlined, on every level, and no level carries arguments; the id
  and the description are those that were stored.\<close>
theorem resolution_projection_bounded:
  "json_get ''calls_total'' (project_special_resolution (JObject m)) = Some (JNumber (show_nat (length (calls_of m))))
   \<and> (\<exists>calls. json_get ''calls'' (project_special_resolution (JObject m)) = Some (JArray calls)
        \<and> length calls = min 50 (length (calls_of m)) \<and> list_all light_call calls)
   \<and> json_get ''resolution_id'' (project_special_resolution (JObject m)) = map_of m ''resolution_id''
   \<and> json_get ''description'' (project_special_resolution (JObject m)) = map_of m ''description''
   \<and> json_get ''arguments'' (project_special_resolution (JObject m)) = None"
  by (simp add: project_special_resolution_def project_resolution_calls_def map_of_insert map_of_copy_keys
      list_all_iff light_project_resolution_call SPECIAL_RESOLUTION_INLINE_CALLS_def)

section \<open>The value of an amount\<close>

text \<open>Reading of a decimal text.\<close>

definition digits_value :: "string \<Rightarrow> nat" where
  "digits_value s = foldl (\<lambda>a c. 10 * a + (code c - 48)) 0 s"

definition unsigned_value :: "string \<Rightarrow> rat" where
  "unsigned_value s =
     (case split_once (CHR ''.'') s of
        None \<Rightarrow> of_nat (digits_value s)
      | Some (whole, fraction) \<Rightarrow> of_nat (digits_value whole) + of_nat (digits_value fraction) / 10 ^ length fraction)"

definition decimal_value :: "string \<Rightarrow> rat" where
  "decimal_value s = (case strip_prefix ''-'' s of None \<Rightarrow> unsigned_value s | Some t \<Rightarrow> - unsigned_value t)"

lemma foldl_digits: "foldl (\<lambda>a c. 10 * a + (code c - 48)) n s = n * 10 ^ length s + digits_value s"
proof (induction s arbitrary: n)
  case (Cons c s)
  have "foldl (\<lambda>a c. 10 * a + (code c - 48)) n (c # s) = (10 * n + (code c - 48)) * 10 ^ length s + digits_value s"
    by (simp add: Cons.IH)
  moreover have "digits_value (c # s) = (code c - 48) * 10 ^ length s + digits_value s"
    using Cons.IH [of "code c - 48"] by (simp add: digits_value_def)
  ultimately show ?case by (simp add: algebra_simps)
qed (simp add: digits_value_def)

lemma digits_value_append: "digits_value (s @ t) = digits_value s * 10 ^ length t + digits_value t"
  by (simp add: digits_value_def [of "s @ t"]) (simp add: foldl_digits flip: digits_value_def)

lemma digits_value_zeros [simp]: "digits_value (replicate k (CHR ''0'')) = 0"
  by (induction k) (simp_all add: digits_value_def)

lemma trim_end_zeros: "\<exists>k. s = trim_end_matches (CHR ''0'') s @ replicate k (CHR ''0'')"
proof -
  let ?z = "takeWhile (\<lambda>d. d = CHR ''0'') (rev s)"
  have "\<forall>c \<in> set ?z. c = CHR ''0''" by (auto dest: set_takeWhileD)
  then have z: "rev ?z = replicate (length ?z) (CHR ''0'')"
    by (metis replicate_length_same rev_replicate)
  have "rev (?z @ dropWhile (\<lambda>d. d = CHR ''0'') (rev s)) = s" by (simp only: takeWhile_dropWhile_id rev_rev_ident)
  then have "s = rev (dropWhile (\<lambda>d. d = CHR ''0'') (rev s)) @ rev ?z" by (simp only: rev_append)
  then show ?thesis unfolding trim_end_matches_def z by blast
qed

lemma digits_value_trim_end:
  "(of_nat (digits_value (trim_end_matches (CHR ''0'') s)) :: rat) / 10 ^ length (trim_end_matches (CHR ''0'') s) =
   of_nat (digits_value s) / 10 ^ length s"
proof -
  obtain k where k: "s = trim_end_matches (CHR ''0'') s @ replicate k (CHR ''0'')" using trim_end_zeros by blast
  have "digits_value s = digits_value (trim_end_matches (CHR ''0'') s) * 10 ^ k"
    by (subst k) (simp add: digits_value_append)
  moreover have "length s = length (trim_end_matches (CHR ''0'') s) + k" by (subst k) simp
  ultimately show ?thesis by (simp add: power_add)
qed

lemma split_once_None: "c \<notin> set s \<Longrightarrow> split_once c s = None"
  by (induction s) auto

lemma unsigned_value_digits: "CHR ''.'' \<notin> set s \<Longrightarrow> unsigned_value s = of_nat (digits_value s)"
  by (simp add: unsigned_value_def split_once_None)

lemma unsigned_value_point:
  "CHR ''.'' \<notin> set a \<Longrightarrow> unsigned_value (a @ ''.'' @ b) = of_nat (digits_value a) + of_nat (digits_value b) / 10 ^ length b"
  by (simp add: unsigned_value_def)

lemma format_digits_value:
  assumes "CHR ''.'' \<notin> set s"
  shows "unsigned_value (format_digits s d) = of_nat (digits_value s) / 10 ^ d"
proof (cases "length s \<le> d")
  case True
  let ?p = "replicate (d - length s) (CHR ''0'') @ s"
  have v: "digits_value ?p = digits_value s" "length ?p = d" using True by (simp_all add: digits_value_append)
  have e: "of_nat (digits_value s) / 10 ^ d =
      (of_nat (digits_value (trim_end_matches (CHR ''0'') ?p)) :: rat) / 10 ^ length (trim_end_matches (CHR ''0'') ?p)"
    using digits_value_trim_end [of ?p] v by simp
  show ?thesis
  proof (cases "trim_end_matches (CHR ''0'') ?p = []")
    case True
    with e \<open>length s \<le> d\<close> show ?thesis
      by (simp add: format_digits_def unsigned_value_def digits_value_def)
  next
    case False
    then have "format_digits s d = ''0'' @ ''.'' @ trim_end_matches (CHR ''0'') ?p"
      using \<open>length s \<le> d\<close> by (simp add: format_digits_def)
    moreover have "digits_value ''0'' = 0" by (simp add: digits_value_def)
    ultimately show ?thesis unfolding e using unsigned_value_point [of "''0''"] by simp
  qed
next
  case False
  let ?w = "take (length s - d) s" and ?f = "drop (length s - d) s"
  have "digits_value s = digits_value ?w * 10 ^ d + digits_value ?f"
    using False digits_value_append [of ?w ?f] by simp
  then have e: "of_nat (digits_value s) / 10 ^ d = (of_nat (digits_value ?w) :: rat) + of_nat (digits_value ?f) / 10 ^ d"
    by (simp add: add_divide_distrib)
  have t: "(of_nat (digits_value ?f) :: rat) / 10 ^ d =
      of_nat (digits_value (trim_end_matches (CHR ''0'') ?f)) / 10 ^ length (trim_end_matches (CHR ''0'') ?f)"
    using digits_value_trim_end [of ?f] False by simp
  have w: "CHR ''.'' \<notin> set ?w" using assms by (auto dest: in_set_takeD)
  show ?thesis
  proof (cases "trim_end_matches (CHR ''0'') ?f = []")
    case True
    with False w show ?thesis unfolding e t by (simp add: format_digits_def unsigned_value_digits digits_value_def [of "[]"])
  next
    case F: False
    then have "format_digits s d = ?w @ ''.'' @ trim_end_matches (CHR ''0'') ?f"
      using False by (simp add: format_digits_def Let_def)
    then show ?thesis unfolding e t by (simp only: unsigned_value_point [OF w])
  qed
qed

lemma digit_visible: "is_ascii_digit c \<Longrightarrow> visible_ascii c \<and> c \<noteq> CHR ''.'' \<and> c \<noteq> CHR ''-''"
  by (auto simp: is_ascii_digit_def visible_ascii_def)

lemma set_trim_end: "c \<in> set (trim_end_matches z s) \<Longrightarrow> c \<in> set s"
  by (auto simp: trim_end_matches_def dest: set_dropWhileD)

lemma format_digits_chars: "c \<in> set (format_digits s d) \<Longrightarrow> c \<in> set s \<or> c = CHR ''0'' \<or> c = CHR ''.''"
  by (auto simp: format_digits_def Let_def split: if_splits dest!: set_trim_end dest: in_set_takeD in_set_dropD)

lemma format_digits_no_trailing_zero:
  "CHR ''.'' \<in> set (format_digits s d) \<Longrightarrow> CHR ''.'' \<notin> set s \<Longrightarrow> last (format_digits s d) \<noteq> CHR ''0''"
proof -
  have l: "trim_end_matches (CHR ''0'') t \<noteq> [] \<Longrightarrow> last (trim_end_matches (CHR ''0'') t) \<noteq> CHR ''0''" for t
    using hd_dropWhile [of "\<lambda>d. d = CHR ''0''" "rev t"] by (auto simp: trim_end_matches_def last_rev)
  assume "CHR ''.'' \<in> set (format_digits s d)" "CHR ''.'' \<notin> set s"
  then show ?thesis using l by (auto simp: format_digits_def Let_def split: if_splits dest: in_set_takeD)
qed

text \<open>C29.  A token amount is shown exactly: for every raw amount, an optional sign and decimal digits, the
  text denotes the raw amount divided by ten to the number of decimals, and its fraction, if any, does not
  end in a zero.\<close>
theorem token_amount_exact:
  assumes "sign \<in> {[], ''-''}" "digits \<noteq> []" "list_all is_ascii_digit digits"
  shows "decimal_value (format_token_amount (sign @ digits) d) = decimal_value (sign @ digits) / 10 ^ d
    \<and> (CHR ''.'' \<in> set (format_token_amount (sign @ digits) d) \<longrightarrow> last (format_token_amount (sign @ digits) d) \<noteq> CHR ''0'')"
proof -
  have ds: "c \<in> set digits \<Longrightarrow> visible_ascii c \<and> c \<noteq> CHR ''.'' \<and> c \<noteq> CHR ''-''" for c
    using assms(3) digit_visible by (auto simp: list_all_iff)
  then have point: "CHR ''.'' \<notin> set digits" by blast
  have dash: "strip_prefix ''-'' digits = None"
    using ds assms(2) by (cases digits) (auto simp: strip_prefix_def)
  have fdash: "strip_prefix ''-'' (format_digits digits d) = None"
    using format_digits_chars [of _ digits d] ds by (auto simp: strip_prefix_def prefix_def) fastforce
  have trim: "trim (sign @ digits) = sign @ digits"
  proof (rule trim_visible)
    show "sign @ digits \<noteq> []" "visible_ascii (hd (sign @ digits))" "visible_ascii (last (sign @ digits))"
      using assms(1,2) ds hd_in_set [OF assms(2)] last_in_set [OF assms(2)] by (auto simp: visible_ascii_def [of "CHR ''-''"])
  qed
  have v: "decimal_value (sign @ digits) = (if sign = [] then of_nat (digits_value digits) else - of_nat (digits_value digits))"
    using assms(1) dash by (auto simp: decimal_value_def unsigned_value_digits [OF point] strip_prefix_append [of "''-''", simplified])
  have fv: "unsigned_value (format_digits digits d) = of_nat (digits_value digits) / 10 ^ d"
    by (rule format_digits_value [OF point])
  show ?thesis
  proof (cases "sign @ digits = ''0'' \<or> d = 0")
    case True
    have "decimal_value ''0'' = 0" by (simp add: decimal_value_def strip_prefix_def unsigned_value_def digits_value_def)
    with True point trim assms(1) show ?thesis by (auto simp: format_token_amount_def)
  next
    case False
    have f: "format_token_amount (sign @ digits) d =
        (if sign \<noteq> [] \<and> format_digits digits d \<noteq> ''0'' then ''-'' @ format_digits digits d else format_digits digits d)"
      using False trim assms(1,3) dash
      by (auto simp: format_token_amount_def Let_def strip_prefix_append [of "''-''", simplified])
    have "format_digits digits d = ''0'' \<Longrightarrow> digits_value digits = 0"
      using fv by (simp add: unsigned_value_def digits_value_def [of "''0''"])
    then have "decimal_value (format_token_amount (sign @ digits) d) = decimal_value (sign @ digits) / 10 ^ d"
      unfolding v f using fv fdash assms(1)
      by (auto simp: decimal_value_def strip_prefix_append [of "''-''", simplified])
    moreover have "last (format_token_amount (sign @ digits) d) \<noteq> CHR ''0''"
      if "CHR ''.'' \<in> set (format_token_amount (sign @ digits) d)"
      using that format_digits_no_trailing_zero [OF _ point, of d] unfolding f by (auto split: if_splits)
    ultimately show ?thesis by blast
  qed
qed

theorem token_amount_exact_witness:
  "decimal_value (format_token_amount ''-1250'' 4) = decimal_value ''-1250'' / 10 ^ 4"
  using token_amount_exact [of "''-''" "''1250''" 4] by (simp add: is_ascii_digit_def)

end
