(* ===== verification/Transaction_Reads.thy ===== *)
theory Transaction_Reads
  imports Api_Paging Event_Response "HOL-Library.Word"
begin

text \<open>
  The transaction endpoints: the read queries (\<open>src/crates/db/src/reads/transactions.rs\<close>, the lookups of
  \<open>chains.rs\<close>, \<open>addresses.rs\<close> and \<open>events.rs\<close>) over the tables they join, and the handlers and mappers of
  \<open>src/crates/http-api/src\<close> on top of them.  A table that others refer to is a map from its primary key; a
  table that is listed is the list of its rows.  Case-insensitive pattern match is the argument \<open>ilike\<close>.
\<close>

section \<open>Tables\<close>

record chain_table_row =
  chain_key :: int
  chain_text :: string
  chain_height :: int

record block_table_row =
  bl_id :: int
  bl_chain_id :: int
  bl_height :: int
  bl_hash :: string
  bl_timestamp :: int
  bl_protocol :: "int option"
  bl_chain_address_id :: "int option"
  bl_validator_address_id :: "int option"
  bl_producer_address_id :: "int option"
  bl_reward :: "string option"

record address_table_row =
  ad_id :: int
  ad_address :: string
  ad_name :: "string option"

record tx_table_row =
  tx_id :: int
  tx_block_id :: int
  tx_index :: int
  tx_hash :: string
  tx_timestamp :: int
  tx_state_id :: int
  tx_fee_raw :: "int option"
  tx_script :: "u8 list option"
  tx_result :: "string option"
  tx_debug_comment :: "string option"
  tx_payload :: "string option"
  tx_expiration :: "int option"
  tx_gas_price_raw :: "int option"
  tx_gas_limit_raw :: "int option"
  tx_sender_id :: "int option"
  tx_gas_payer_id :: "int option"
  tx_gas_target_id :: "int option"
  tx_carbon_type :: "int option"
  tx_carbon_data :: "u8 list option"

record address_tx_row =
  at_address_id :: int
  at_transaction_id :: int
  at_timestamp :: int

record signature_table_row =
  sg_id :: int
  sg_transaction_id :: int
  sg_kind :: string
  sg_data :: "u8 list"

text \<open>Events are kept as the rows their list projection yields, tokens with their chain and prices.\<close>

record 'f token_price_row =
  tp_chain_id :: int
  tp_symbol :: string
  tp_decimals :: int
  tp_price :: "'f option"
  tp_daily :: "(int \<times> 'f) list"

record 'f api_db =
  db_chains :: "chain_table_row list"
  db_states :: "(int \<times> string) list"
  db_blocks :: "block_table_row list"
  db_addresses :: "address_table_row list"
  db_transactions :: "tx_table_row list"
  db_address_transactions :: "address_tx_row list"
  db_signatures :: "signature_table_row list"
  db_events :: "event_list_row list"
  db_event_kinds :: "(int \<times> string) list"
  db_event_tokens :: "event_token_row list"
  db_token_prices :: "'f token_price_row list"

section \<open>Lookups\<close>

definition chain_ids_by_name :: "'f api_db \<Rightarrow> string \<Rightarrow> int list" where
  "chain_ids_by_name db name = take 2 (sort (map chain_key (filter (\<lambda>c. chain_text c = name) (db_chains db))))"

definition resolve_chain_id_by_name :: "'f api_db \<Rightarrow> string \<Rightarrow> api_error + int" where
  "resolve_chain_id_by_name db chain =
     (case chain_ids_by_name db chain of
        [i] \<Rightarrow> Inr i
      | [] \<Rightarrow> Inl (NotFound (''chain '' @ chain @ '' was not found''))
      | _ \<Rightarrow> Inl (Internal (''chain '' @ chain @ '' is ambiguous in the database'')))"

definition transaction_state_id_by_name :: "(string \<Rightarrow> string) \<Rightarrow> 'f api_db \<Rightarrow> string \<Rightarrow> int option" where
  "transaction_state_id_by_name lower db name =
     (case sort (map fst (filter (\<lambda>s. lower (snd s) = lower name) (db_states db))) of [] \<Rightarrow> None | i # _ \<Rightarrow> Some i)"

definition resolve_transaction_state_id ::
    "(string \<Rightarrow> string) \<Rightarrow> 'f api_db \<Rightarrow> string option \<Rightarrow> api_error + int option" where
  "resolve_transaction_state_id lower db name =
     (case name of
        None \<Rightarrow> Inr None
      | Some s \<Rightarrow> ok_or (BadRequest (''Unsupported value for '' @ in_quotes ''state'' @ '' parameter.''))
          (map_option Some (transaction_state_id_by_name lower db s)))"

text \<open>An exact address before an address name; among equal candidates the first of the table.\<close>

definition address_id_by_address :: "'f api_db \<Rightarrow> string \<Rightarrow> int option" where
  "address_id_by_address db address =
     map_option ad_id (or_else (find (\<lambda>a. ad_address a = address) (db_addresses db))
       (find (\<lambda>a. ad_name a = Some address) (db_addresses db)))"

definition address_by_id :: "'f api_db \<Rightarrow> int option \<Rightarrow> address_table_row option" where
  "address_by_id db i = Option.bind i (\<lambda>i. find (\<lambda>a. ad_id a = i) (db_addresses db))"

definition block_by_id :: "'f api_db \<Rightarrow> int \<Rightarrow> block_table_row option" where
  "block_by_id db i = find (\<lambda>b. bl_id b = i) (db_blocks db)"

section \<open>Columns\<close>

definition hex_upper :: "u8 list \<Rightarrow> string" where
  "hex_upper bs = concat (map (\<lambda>b. map (\<lambda>d. char_of (if d < 10 then 48 + d else 55 + d :: nat))
     [unat b div 16, unat b mod 16]) bs)"

text \<open>\<open>trim_scale(v * power(10::numeric, -10))::text\<close>\<close>

definition numeric_text :: "int \<Rightarrow> string" where
  "numeric_text v =
     (let whole = nat (abs v) div 10 ^ 10;
          digits = show_nat (nat (abs v) mod 10 ^ 10);
          fraction = trim_end_matches (CHR ''0'') (replicate (10 - length digits) (CHR ''0'') @ digits)
      in (if v < 0 then ''-'' else '''') @ show_nat whole @ (if fraction = [] then '''' else ''.'' @ fraction))"

record transaction_list_row =
  tr_id :: int
  tr_cursor_id :: int
  tr_cursor_sort_value :: int
  tr_block_id :: int
  tr_hash :: string
  tr_block_hash :: string
  tr_block_height :: int
  tr_chain_id :: int
  tr_chain_name :: string
  tr_index :: int
  tr_timestamp :: int
  tr_fee :: "string option"
  tr_fee_raw :: "string option"
  tr_script_raw :: "string option"
  tr_result :: "string option"
  tr_debug_comment :: "string option"
  tr_payload :: "string option"
  tr_expiration :: "int option"
  tr_gas_price :: "string option"
  tr_gas_price_raw :: "string option"
  tr_gas_limit :: "string option"
  tr_gas_limit_raw :: "string option"
  tr_state_id :: int
  tr_state :: string
  tr_carbon_tx_type :: "int option"
  tr_carbon_tx_data :: "string option"
  tr_sender :: "address_table_row option"
  tr_gas_payer :: "address_table_row option"
  tr_gas_target :: "address_table_row option"

definition transaction_script_raw_column :: "bool \<Rightarrow> tx_table_row \<Rightarrow> string option" where
  "transaction_script_raw_column with_script t = (if with_script then map_option hex_upper (tx_script t) else None)"

text \<open>One row of \<open>FROM transactions tx JOIN blocks \<dots> JOIN chains \<dots> JOIN transaction_states \<dots>\<close> with its
  projected columns; the sort value is filled in by the query.\<close>

definition transaction_select :: "'f api_db \<Rightarrow> bool \<Rightarrow> tx_table_row \<Rightarrow> transaction_list_row option" where
  "transaction_select db with_script t =
     (case block_by_id db (tx_block_id t) of
        None \<Rightarrow> None
      | Some b \<Rightarrow>
          (case (find (\<lambda>c. chain_key c = bl_chain_id b) (db_chains db), map_of (db_states db) (tx_state_id t)) of
             (Some c, Some st) \<Rightarrow> Some
               \<lparr>tr_id = tx_id t, tr_cursor_id = tx_id t, tr_cursor_sort_value = tx_timestamp t, tr_block_id = tx_block_id t,
                tr_hash = tx_hash t, tr_block_hash = bl_hash b, tr_block_height = bl_height b, tr_chain_id = bl_chain_id b,
                tr_chain_name = chain_text c, tr_index = tx_index t, tr_timestamp = tx_timestamp t,
                tr_fee = map_option numeric_text (tx_fee_raw t), tr_fee_raw = map_option show_int (tx_fee_raw t),
                tr_script_raw = transaction_script_raw_column with_script t, tr_result = tx_result t,
                tr_debug_comment = tx_debug_comment t, tr_payload = tx_payload t, tr_expiration = tx_expiration t,
                tr_gas_price = map_option numeric_text (tx_gas_price_raw t), tr_gas_price_raw = map_option show_int (tx_gas_price_raw t),
                tr_gas_limit = (if tx_gas_limit_raw t = Some 18446744073709551615 then None
                  else map_option numeric_text (tx_gas_limit_raw t)),
                tr_gas_limit_raw = map_option show_int (tx_gas_limit_raw t), tr_state_id = tx_state_id t, tr_state = st,
                tr_carbon_tx_type = tx_carbon_type t, tr_carbon_tx_data = map_option hex_upper (tx_carbon_data t),
                tr_sender = address_by_id db (tx_sender_id t), tr_gas_payer = address_by_id db (tx_gas_payer_id t),
                tr_gas_target = address_by_id db (tx_gas_target_id t)\<rparr>
           | _ \<Rightarrow> None))"

definition joined_transactions :: "'f api_db \<Rightarrow> bool \<Rightarrow> transaction_list_row list" where
  "joined_transactions db with_script = List.map_filter (transaction_select db with_script) (db_transactions db)"

section \<open>List queries\<close>

datatype transaction_order_by = TxDate | TxBlockHeight

definition transaction_order_by_from_api_param :: "string option \<Rightarrow> transaction_order_by option" where
  "transaction_order_by_from_api_param v =
     (let s = unwrap_or v ''date''
      in if s = ''id'' \<or> s = ''date'' then Some TxDate else if s = ''block_height'' then Some TxBlockHeight else None)"

fun tx_column :: "transaction_order_by \<Rightarrow> transaction_list_row \<Rightarrow> int" where
  "tx_column TxDate r = tr_timestamp r"
| "tx_column TxBlockHeight r = tr_block_height r"

record transaction_page =
  pg_order_by :: transaction_order_by
  pg_direction :: sort_direction
  pg_cursor_sort_value :: "int option"
  pg_cursor_id :: "int option"
  pg_limit :: int

record transaction_filter =
  tf_hash :: "string option"
  tf_block_height :: "int option"
  tf_block_hash :: "string option"
  tf_chain_id :: "int option"
  tf_state_id :: "int option"
  tf_q :: "string option"
  tf_date_greater :: "int option"
  tf_date_less :: "int option"

definition contains_pattern :: "string \<Rightarrow> string" where
  "contains_pattern s = ''%'' @ s @ ''%''"

definition transaction_q_forms :: "string option \<Rightarrow> int option \<times> string option" where
  "transaction_q_forms q =
     (let q_height = Option.bind q (\<lambda>s. case parse_i64 s of Inl _ \<Rightarrow> None | Inr i \<Rightarrow> Some i)
      in (q_height, if q_height = None then map_option contains_pattern q else None))"

text \<open>\<open>($n IS NULL OR predicate)\<close>\<close>

definition optional :: "'a option \<Rightarrow> ('a \<Rightarrow> bool) \<Rightarrow> bool" where
  "optional v p = (case v of None \<Rightarrow> True | Some a \<Rightarrow> p a)"

definition transaction_matches ::
    "(string \<Rightarrow> string \<Rightarrow> bool) \<Rightarrow> transaction_filter \<Rightarrow> transaction_list_row \<Rightarrow> bool" where
  "transaction_matches ilike f r =
     (let (q_height, q_like) = transaction_q_forms (tf_q f)
      in optional (tf_chain_id f) (\<lambda>c. tr_chain_id r = c)
       \<and> optional (tf_hash f) (\<lambda>h. tr_hash r = h)
       \<and> optional (tf_block_height f) (\<lambda>h. tr_block_height r = h)
       \<and> optional (tf_block_hash f) (\<lambda>h. tr_block_hash r = h)
       \<and> optional (tf_state_id f) (\<lambda>s. tr_state_id r = s)
       \<and> optional (tf_date_greater f) (\<lambda>d. tr_timestamp r \<ge> d)
       \<and> optional (tf_date_less f) (\<lambda>d. tr_timestamp r \<le> d)
       \<and> (q_like = None \<and> q_height = None
          \<or> (case q_like of None \<Rightarrow> False | Some p \<Rightarrow> ilike (tr_hash r) p \<or> ilike (tr_block_hash r) p)
          \<or> (case q_height of None \<Rightarrow> False | Some h \<Rightarrow> tr_block_height r = h)))"

definition row_key :: "transaction_list_row \<Rightarrow> int \<times> int" where
  "row_key r = (tr_cursor_sort_value r, tr_cursor_id r)"

definition global_rows ::
    "'f api_db \<Rightarrow> (string \<Rightarrow> string \<Rightarrow> bool) \<Rightarrow> transaction_filter \<Rightarrow> transaction_order_by \<Rightarrow> bool \<Rightarrow> transaction_list_row list" where
  "global_rows db ilike f ord with_script =
     map (\<lambda>r. r\<lparr>tr_cursor_sort_value := tx_column ord r\<rparr>) (filter (transaction_matches ilike f) (joined_transactions db with_script))"

definition list_transactions_global ::
    "'f api_db \<Rightarrow> (string \<Rightarrow> string \<Rightarrow> bool) \<Rightarrow> transaction_filter \<Rightarrow> transaction_page \<Rightarrow> bool \<Rightarrow> transaction_list_row list" where
  "list_transactions_global db ilike f page with_script =
     seek_page (pg_direction page) row_key (pg_cursor_sort_value page) (pg_cursor_id page) (pg_limit page + 1)
       (global_rows db ilike f (pg_order_by page) with_script)"

text \<open>An activity row of an address with the transaction it points to.\<close>

definition address_activity_row ::
    "'f api_db \<Rightarrow> bool \<Rightarrow> transaction_order_by \<Rightarrow> address_tx_row \<Rightarrow> transaction_list_row option" where
  "address_activity_row db with_script ord a =
     map_option (\<lambda>r. r\<lparr>tr_cursor_id := at_transaction_id a,
         tr_cursor_sort_value := (case ord of TxDate \<Rightarrow> at_timestamp a | TxBlockHeight \<Rightarrow> tr_block_height r)\<rparr>)
       (find (\<lambda>r. tr_id r = at_transaction_id a) (joined_transactions db with_script))"

definition filtered_address_rows ::
    "'f api_db \<Rightarrow> (string \<Rightarrow> string \<Rightarrow> bool) \<Rightarrow> int \<Rightarrow> transaction_filter \<Rightarrow> transaction_order_by \<Rightarrow> bool \<Rightarrow> transaction_list_row list" where
  "filtered_address_rows db ilike address_id f ord with_script =
     filter (transaction_matches ilike f)
       (List.map_filter (address_activity_row db with_script ord) (filter (\<lambda>a. at_address_id a = address_id) (db_address_transactions db)))"

definition list_transactions_for_filtered_address ::
    "'f api_db \<Rightarrow> (string \<Rightarrow> string \<Rightarrow> bool) \<Rightarrow> int \<Rightarrow> transaction_filter \<Rightarrow> transaction_page \<Rightarrow> bool \<Rightarrow> transaction_list_row list" where
  "list_transactions_for_filtered_address db ilike address_id f page with_script =
     seek_page (pg_direction page) row_key (pg_cursor_sort_value page) (pg_cursor_id page) (pg_limit page + 1)
       (filtered_address_rows db ilike address_id f (pg_order_by page) with_script)"

text \<open>The timeline first pages the activity rows (their own timestamp, or the block height through the
  joins), then joins the transactions of the page and orders them again.\<close>

definition address_page_keys :: "'f api_db \<Rightarrow> int \<Rightarrow> transaction_order_by \<Rightarrow> (int \<times> address_tx_row) list" where
  "address_page_keys db address_id ord =
     (let rows = filter (\<lambda>a. at_address_id a = address_id) (db_address_transactions db)
      in case ord of
           TxDate \<Rightarrow> map (\<lambda>a. (at_timestamp a, a)) rows
         | TxBlockHeight \<Rightarrow> List.map_filter (\<lambda>a.
             Option.bind (find (\<lambda>t. tx_id t = at_transaction_id a) (db_transactions db)) (\<lambda>t.
               map_option (\<lambda>b. (bl_height b, a)) (block_by_id db (tx_block_id t)))) rows)"

definition list_transactions_for_address_timeline ::
    "'f api_db \<Rightarrow> int \<Rightarrow> transaction_page \<Rightarrow> bool \<Rightarrow> transaction_list_row list" where
  "list_transactions_for_address_timeline db address_id page with_script =
     order_by (pg_direction page) row_key
       (List.map_filter (\<lambda>(v, a).
           map_option (\<lambda>r. r\<lparr>tr_cursor_id := at_transaction_id a, tr_cursor_sort_value := v\<rparr>)
             (find (\<lambda>r. tr_id r = at_transaction_id a) (joined_transactions db with_script)))
         (seek_page (pg_direction page) (\<lambda>(v, a). (v, at_transaction_id a))
           (pg_cursor_sort_value page) (pg_cursor_id page) (pg_limit page + 1)
           (address_page_keys db address_id (pg_order_by page))))"

definition list_transactions_by_block_ids :: "'f api_db \<Rightarrow> int list \<Rightarrow> bool \<Rightarrow> transaction_list_row list" where
  "list_transactions_by_block_ids db block_ids with_script =
     sort_key (\<lambda>r. (tr_block_height r, tr_index r, tr_id r))
       (filter (\<lambda>r. tr_block_id r \<in> set block_ids) (joined_transactions db with_script))"

section \<open>Single transactions\<close>

definition transaction_row_by_block_index :: "'f api_db \<Rightarrow> string \<Rightarrow> int \<Rightarrow> int \<Rightarrow> transaction_list_row option" where
  "transaction_row_by_block_index db chain height index =
     find (\<lambda>r. tr_chain_name r = chain \<and> tr_block_height r = height \<and> tr_index r = index) (joined_transactions db True)"

definition transaction_by_hash_block_index ::
    "'f api_db \<Rightarrow> string \<Rightarrow> string \<Rightarrow> int \<Rightarrow> int \<Rightarrow> transaction_list_row option" where
  "transaction_by_hash_block_index db chain hash height index =
     find (\<lambda>r. tr_chain_name r = chain \<and> tr_hash r = hash \<and> tr_block_height r = height \<and> tr_index r = index)
       (joined_transactions db True)"

definition single_transaction_by_hash :: "'f api_db \<Rightarrow> string \<Rightarrow> string \<Rightarrow> transaction_list_row option" where
  "single_transaction_by_hash db chain hash =
     find (\<lambda>r. tr_chain_name r = chain \<and> tr_hash r = hash) (joined_transactions db True)"

text \<open>The occurrences of a hash: transactions with their block and chain, without their state.\<close>

definition transaction_occurrences :: "'f api_db \<Rightarrow> string \<Rightarrow> string \<Rightarrow> (tx_table_row \<times> block_table_row) list" where
  "transaction_occurrences db chain hash =
     List.map_filter (\<lambda>t.
         if tx_hash t \<noteq> hash then None
         else Option.bind (block_by_id db (tx_block_id t)) (\<lambda>b.
           Option.bind (find (\<lambda>c. chain_key c = bl_chain_id b) (db_chains db)) (\<lambda>c.
             if chain_text c = chain then Some (t, b) else None)))
       (db_transactions db)"

definition transaction_occurrence_count :: "'f api_db \<Rightarrow> string \<Rightarrow> string \<Rightarrow> int" where
  "transaction_occurrence_count db chain hash = int (length (transaction_occurrences db chain hash))"

definition list_transaction_occurrences ::
    "'f api_db \<Rightarrow> string \<Rightarrow> string \<Rightarrow> (tx_table_row \<times> block_table_row) list" where
  "list_transaction_occurrences db chain hash =
     take 100 (sort_key (\<lambda>(t, b). (bl_height b, tx_index t)) (transaction_occurrences db chain hash))"

definition transaction_neighbors ::
    "'f api_db \<Rightarrow> int \<Rightarrow> int \<Rightarrow> int option \<Rightarrow> string option \<times> string option" where
  "transaction_neighbors db transaction_id timestamp chain_id =
     (let key = (\<lambda>t. (tx_timestamp t, tx_id t));
          rows = filter (\<lambda>t. case block_by_id db (tx_block_id t) of
              None \<Rightarrow> False | Some b \<Rightarrow> optional chain_id (\<lambda>c. bl_chain_id b = c)) (db_transactions db);
          first = (\<lambda>ts. case ts of [] \<Rightarrow> None | t # _ \<Rightarrow> Some (tx_hash t))
      in (first (order_by Desc key (filter (\<lambda>t. key t < (timestamp, transaction_id)) rows)),
          first (order_by Asc key (filter (\<lambda>t. key t > (timestamp, transaction_id)) rows))))"

definition list_signatures :: "'f api_db \<Rightarrow> int \<Rightarrow> (int \<times> string \<times> string) list" where
  "list_signatures db transaction_id =
     (let rows = sort_key sg_id (filter (\<lambda>s. sg_transaction_id s = transaction_id) (db_signatures db))
      in map (\<lambda>(i, s). (int i, sg_kind s, hex_upper (sg_data s))) (zip [0..<length rows] rows))"

definition list_events_by_transaction_ids :: "'f api_db \<Rightarrow> int list \<Rightarrow> bool \<Rightarrow> event_list_row list" where
  "list_events_by_transaction_ids db ids with_event_data =
     map (\<lambda>r. if with_event_data then r else r\<lparr>ev_payload_json := None\<rparr>)
       (sort_key (\<lambda>r. (ev_transaction_id r, ev_index r)) (filter (\<lambda>r. ev_transaction_id r \<in> set ids) (db_events db)))"

section \<open>Fiat prices of market events\<close>

definition start_of_day :: "int \<Rightarrow> int" where
  "start_of_day timestamp = timestamp - timestamp mod 86400"

definition market_quote_symbol :: "(string \<Rightarrow> string) \<Rightarrow> json \<Rightarrow> string option" where
  "market_quote_symbol up market =
     (case json_get ''quote_token'' market of
        Some (JObject m) \<Rightarrow> map_option up (Option.bind (map_of m ''symbol'') json_as_str)
      | Some (JString s) \<Rightarrow> Some (up s)
      | _ \<Rightarrow> None)"

definition compute_fiat_usd :: "('f, 'n, 's) api_lib \<Rightarrow> string \<Rightarrow> int \<Rightarrow> 'f option \<Rightarrow> 'f option \<Rightarrow> 'f option" where
  "compute_fiat_usd lib raw decimals daily spot =
     (if raw = [] \<or> raw = ''0'' then None
      else Option.bind (f64_parse lib raw) (\<lambda>v.
        let whole = f64_div lib v (f64_pow10 lib decimals);
            daily = unwrap_or daily (f64_zero lib);
            result = (if f64_positive lib daily then f64_mul lib whole daily
                      else f64_mul lib whole (unwrap_or spot (f64_zero lib)))
        in if f64_nonzero lib result then Some result else None))"

text \<open>Daily prices by chain, symbol and day, and decimals with the spot price by chain and symbol.\<close>

definition market_event_usd_prices ::
    "'f api_db \<Rightarrow> int \<Rightarrow> string list \<Rightarrow> int list \<Rightarrow> (string \<times> int \<times> 'f) list \<times> (string \<times> int \<times> 'f option) list" where
  "market_event_usd_prices db chain_id symbols days =
     (let tokens = filter (\<lambda>t. tp_chain_id t = chain_id \<and> tp_symbol t \<in> set symbols) (db_token_prices db)
      in (concat (map (\<lambda>t. map (\<lambda>(day, p). (tp_symbol t, day, p)) (filter (\<lambda>(day, p). day \<in> set days) (tp_daily t))) tokens),
          map (\<lambda>t. (tp_symbol t, tp_decimals t, tp_price t)) tokens))"

record fiat_need =
  need_chain_name :: string
  need_symbol :: string
  need_day :: int
  need_raw_price :: "string option"
  need_raw_end :: "string option"

definition fiat_need_of :: "(string \<Rightarrow> string) \<Rightarrow> ('n, 's) event_response \<Rightarrow> fiat_need option" where
  "fiat_need_of up ev =
     Option.bind (market_event (er_event_data ev)) (\<lambda>market.
     Option.bind (market_quote_symbol up market) (\<lambda>symbol.
     case parse_i64 (er_date ev) of
       Inl _ \<Rightarrow> None
     | Inr t \<Rightarrow>
         let raw_price = Option.bind (json_get ''price'' market) json_as_str;
             raw_end = Option.bind (json_get ''end_price'' market) json_as_str
         in if raw_price = None \<and> raw_end = None then None
            else Some \<lparr>need_chain_name = er_chain ev, need_symbol = symbol, need_day = start_of_day t,
                       need_raw_price = raw_price, need_raw_end = raw_end\<rparr>))"

definition first_chain_id :: "'f api_db \<Rightarrow> string \<Rightarrow> int option" where
  "first_chain_id db name = (case chain_ids_by_name db name of [] \<Rightarrow> None | i # _ \<Rightarrow> Some i)"

definition fiat_block :: "('f, 'n, 's) api_lib \<Rightarrow> 'f option \<Rightarrow> 'f option \<Rightarrow> json" where
  "fiat_block lib price price_end =
     (let number = (\<lambda>v. case v of None \<Rightarrow> JNull | Some f \<Rightarrow> f64_json lib f)
      in json_object [(''fiat_currency'', JString ''USD''), (''fiat_price'', number price), (''fiat_price_end'', number price_end)])"

definition attach_fiat ::
    "('f, 'n, 's) api_lib \<Rightarrow> 'f api_db \<Rightarrow> fiat_need list \<Rightarrow> fiat_need \<Rightarrow> ('n, 's) event_response \<Rightarrow> ('n, 's) event_response" where
  "attach_fiat lib db needs need ev =
     (case first_chain_id db (need_chain_name need) of
        None \<Rightarrow> ev
      | Some chain_id \<Rightarrow>
          let here = filter (\<lambda>n. first_chain_id db (need_chain_name n) = Some chain_id) needs;
              (daily_rows, meta_rows) = market_event_usd_prices db chain_id (map need_symbol here) (map need_day here)
          in case map_of (rev (map (\<lambda>(s, d, p). (s, d)) meta_rows)) (need_symbol need) of
               None \<Rightarrow> ev
             | Some token_decimals \<Rightarrow>
                 let daily = map_of (rev (map (\<lambda>(s, d, p). ((s, d), p)) daily_rows)) (need_symbol need, need_day need);
                     spot = map_of (rev (List.map_filter (\<lambda>(s, d, p). map_option (Pair s) p) meta_rows)) (need_symbol need);
                     usd = (\<lambda>raw. Option.bind raw (\<lambda>raw. compute_fiat_usd lib raw token_decimals daily spot));
                     fiat_price = usd (need_raw_price need);
                     fiat_price_end = usd (need_raw_end need)
                 in if fiat_price = None \<and> fiat_price_end = None then ev
                    else (case market_event (er_event_data ev) of
                        Some (JObject m) \<Rightarrow> ev\<lparr>er_event_data := (er_event_data ev)
                          \<lparr>market_event := Some (JObject (map_insert ''fiat_price'' (fiat_block lib fiat_price fiat_price_end) m))\<rparr>\<rparr>
                      | _ \<Rightarrow> ev))"

definition attach_fiat_to_market_events ::
    "('f, 'n, 's) api_lib \<Rightarrow> 'f api_db \<Rightarrow> ('n, 's) event_response list \<Rightarrow> bool \<Rightarrow> ('n, 's) event_response list" where
  "attach_fiat_to_market_events lib db events with_fiat =
     (if \<not> with_fiat then events
      else let needs = List.map_filter (fiat_need_of (to_uppercase lib)) events
           in map (\<lambda>ev. case fiat_need_of (to_uppercase lib) ev of None \<Rightarrow> ev | Some n \<Rightarrow> attach_fiat lib db needs n ev) events)"

section \<open>Mappers\<close>

record address_ref_response =
  ref_address :: string
  ref_address_name :: "string option"

definition address_ref :: "address_table_row option \<Rightarrow> address_ref_response option" where
  "address_ref a = map_option (\<lambda>a. \<lparr>ref_address = ad_address a, ref_address_name = ad_name a\<rparr>) a"

record ('n, 's) transaction_response =
  transaction_id :: string
  rs_hash :: string
  rs_block_hash :: string
  rs_block_height :: string
  rs_chain :: string
  rs_previous_hash :: "string option"
  rs_next_hash :: "string option"
  rs_index :: int
  rs_date :: string
  rs_fee :: "string option"
  rs_fee_raw :: "string option"
  rs_script_raw :: "string option"
  rs_result :: "string option"
  rs_debug_comment :: "string option"
  rs_payload :: "string option"
  rs_expiration :: "string option"
  rs_gas_price :: "string option"
  rs_gas_price_raw :: "string option"
  rs_gas_limit :: "string option"
  rs_gas_limit_raw :: "string option"
  rs_state :: string
  rs_sender :: "address_ref_response option"
  rs_gas_payer :: "address_ref_response option"
  rs_gas_target :: "address_ref_response option"
  rs_carbon_tx_type :: "int option"
  rs_carbon_tx_data :: "string option"
  rs_events :: "('n, 's) event_response list option"

definition transaction_from_row :: "transaction_list_row \<Rightarrow> ('n, 's) transaction_response" where
  "transaction_from_row r =
     \<lparr>transaction_id = show_int (tr_id r), rs_hash = tr_hash r, rs_block_hash = tr_block_hash r,
      rs_block_height = show_int (tr_block_height r), rs_chain = tr_chain_name r, rs_previous_hash = None, rs_next_hash = None,
      rs_index = tr_index r, rs_date = show_int (tr_timestamp r), rs_fee = tr_fee r, rs_fee_raw = tr_fee_raw r,
      rs_script_raw = tr_script_raw r, rs_result = tr_result r, rs_debug_comment = tr_debug_comment r,
      rs_payload = tr_payload r, rs_expiration = map_option show_int (tr_expiration r), rs_gas_price = tr_gas_price r,
      rs_gas_price_raw = tr_gas_price_raw r, rs_gas_limit = tr_gas_limit r, rs_gas_limit_raw = tr_gas_limit_raw r,
      rs_state = tr_state r, rs_sender = address_ref (tr_sender r), rs_gas_payer = address_ref (tr_gas_payer r),
      rs_gas_target = address_ref (tr_gas_target r), rs_carbon_tx_type = tr_carbon_tx_type r,
      rs_carbon_tx_data = tr_carbon_tx_data r, rs_events = None\<rparr>"

section \<open>Events of transactions\<close>

definition group_by_key :: "(int \<times> 'a) list \<Rightarrow> int \<Rightarrow> 'a list" where
  "group_by_key kvs k = map snd (filter (\<lambda>(k', v). k' = k) kvs)"

definition load_events_by_transaction_ids ::
    "('f, 'n, 's) api_lib \<Rightarrow> 'f api_db \<Rightarrow> int list \<Rightarrow> bool \<Rightarrow> bool \<Rightarrow> bool \<Rightarrow> api_error + (int \<Rightarrow> ('n, 's) event_response list)" where
  "load_events_by_transaction_ids lib db ids with_event_data with_nft with_fiat =
     (if ids = [] then Inr (\<lambda>_. [])
      else
        let rows = list_events_by_transaction_ids db ids with_event_data;
            tokens = load_event_tokens_by_symbols (to_uppercase lib) (db_event_tokens db)
              (collect_event_token_symbols (to_uppercase lib) rows)
        in map_ok (\<lambda>events.
             group_by_key (zip (map ev_transaction_id rows) (attach_fiat_to_market_events lib db events with_fiat)))
           (collect_results (map (\<lambda>r. event_from_row lib r tokens with_event_data with_nft with_nft) rows)))"

text \<open>\<open>grouped.remove(&id)\<close>: a second transaction with the same id would find nothing left.\<close>

fun take_groups ::
    "(int \<Rightarrow> ('n, 's) event_response list) \<Rightarrow> ('n, 's) transaction_response list \<Rightarrow> api_error + ('n, 's) transaction_response list" where
  "take_groups grouped [] = Inr []"
| "take_groups grouped (t # ts) =
     and_then (parse_i32_id ''transaction_id'' (transaction_id t)) (\<lambda>i.
     map_ok ((#) (t\<lparr>rs_events := Some (grouped i)\<rparr>)) (take_groups (grouped(i := [])) ts))"

definition attach_events_to_transactions ::
    "('f, 'n, 's) api_lib \<Rightarrow> 'f api_db \<Rightarrow> ('n, 's) transaction_response list \<Rightarrow> bool \<Rightarrow> bool \<Rightarrow> bool
     \<Rightarrow> api_error + ('n, 's) transaction_response list" where
  "attach_events_to_transactions lib db txs with_event_data with_nft with_fiat =
     and_then (collect_results (map (\<lambda>t. parse_i32_id ''transaction_id'' (transaction_id t)) txs)) (\<lambda>ids.
     and_then (load_events_by_transaction_ids lib db ids with_event_data with_nft with_fiat) (\<lambda>grouped.
     take_groups grouped txs))"

definition load_transaction_events ::
    "('f, 'n, 's) api_lib \<Rightarrow> 'f api_db \<Rightarrow> int \<Rightarrow> api_error + ('n, 's) event_response list" where
  "load_transaction_events lib db i =
     map_ok (\<lambda>grouped. grouped i) (load_events_by_transaction_ids lib db [i] True False False)"

section \<open>The list endpoint\<close>

record transaction_list_query =
  tq_limit :: "int option"
  tq_order_by :: "string option"
  tq_order_direction :: "string option"
  tq_hash :: "string option"
  tq_block_height :: "int option"
  tq_block_hash :: "string option"
  tq_address :: "string option"
  tq_state :: "string option"
  tq_q :: "string option"
  tq_chain :: "string option"
  tq_date_greater :: "string option"
  tq_date_less :: "string option"
  tq_with_neighbors :: "int option"
  tq_with_events :: "int option"
  tq_with_event_data :: "int option"
  tq_with_script :: "int option"
  tq_with_nft :: "int option"
  tq_with_fiat :: "int option"
  tq_cursor :: "string option"

record ('n, 's) transaction_list_response =
  tl_transactions :: "('n, 's) transaction_response list"
  tl_next_cursor :: "string option"

record ('f, 'n, 's) api_state =
  st_lib :: "('f, 'n, 's) api_lib"
  st_ilike :: "string \<Rightarrow> string \<Rightarrow> bool"
  st_lower :: "string \<Rightarrow> string"
  st_chain :: string

definition cursor_kind :: "string option \<Rightarrow> string" where
  "cursor_kind address = (if address \<noteq> None then ''tx-address'' else ''tx'')"

definition resolve_optional_chain :: "'f api_db \<Rightarrow> string option \<Rightarrow> api_error + int option" where
  "resolve_optional_chain db chain =
     (case chain of None \<Rightarrow> Inr None | Some c \<Rightarrow> map_ok Some (resolve_chain_id_by_name db c))"

definition parse_order_by :: "(string option \<Rightarrow> 'o option) \<Rightarrow> string option \<Rightarrow> api_error + 'o" where
  "parse_order_by from_param v =
     ok_or (BadRequest (''unsupported order_by '' @ in_quotes (unwrap_or v ''''))) (from_param v)"

text \<open>The rows a request asks for, by the variant of the list it selects.\<close>

definition select_transactions ::
    "('f, 'n, 's) api_state \<Rightarrow> 'f api_db \<Rightarrow> string option \<Rightarrow> string option \<Rightarrow> transaction_filter \<Rightarrow> transaction_page \<Rightarrow> bool
     \<Rightarrow> transaction_list_row list" where
  "select_transactions st db address state_filter f page with_script =
     (case address of
        None \<Rightarrow> list_transactions_global db (st_ilike st) f page with_script
      | Some a \<Rightarrow>
          (case address_id_by_address db a of
             None \<Rightarrow> []
           | Some address_id \<Rightarrow>
               if tf_hash f = None \<and> tf_block_height f = None \<and> tf_block_hash f = None \<and> tf_chain_id f = None
                  \<and> state_filter = None \<and> tf_q f = None \<and> tf_date_greater f = None \<and> tf_date_less f = None
               then list_transactions_for_address_timeline db address_id page with_script
               else list_transactions_for_filtered_address db (st_ilike st) address_id f page with_script))"

definition set_neighbors ::
    "'f api_db \<Rightarrow> int option \<Rightarrow> transaction_list_row list \<Rightarrow> ('n, 's) transaction_response list \<Rightarrow> ('n, 's) transaction_response list" where
  "set_neighbors db chain_id rows txs =
     (case (rows, txs) of
        (r # _, t # ts) \<Rightarrow>
          let (previous, following) = transaction_neighbors db (tr_id r) (tr_timestamp r) chain_id
          in t\<lparr>rs_previous_hash := previous, rs_next_hash := following\<rparr> # ts
      | _ \<Rightarrow> txs)"

definition load_transactions ::
    "('f, 'n, 's) api_state \<Rightarrow> 'f api_db \<Rightarrow> transaction_list_query \<Rightarrow> api_error + ('n, 's) transaction_list_response" where
  "load_transactions st db query =
     (let limit = clamp_limit (tq_limit query);
          hash = empty_to_none (tq_hash query);
          block_hash = empty_to_none (tq_block_hash query);
          address = empty_to_none (tq_address query);
          kind = cursor_kind address
      in and_then (page_cursor_parse_optional (tq_cursor query) kind) (\<lambda>cursor.
         let state_filter = empty_to_none (tq_state query)
         in and_then (resolve_transaction_state_id (st_lower st) db state_filter) (\<lambda>state_id.
         let q = empty_to_none (tq_q query)
         in and_then (resolve_optional_chain db (empty_to_none (tq_chain query))) (\<lambda>chain_id.
         and_then (parse_optional_i64 (empty_to_none (tq_date_greater query)) ''date_greater'') (\<lambda>date_greater.
         and_then (parse_optional_i64 (empty_to_none (tq_date_less query)) ''date_less'') (\<lambda>date_less.
         and_then (parse_order_by transaction_order_by_from_api_param (empty_to_none (tq_order_by query))) (\<lambda>ord.
         and_then (parse_sort_direction (tq_order_direction query)) (\<lambda>direction.
         let f = \<lparr>tf_hash = hash, tf_block_height = tq_block_height query, tf_block_hash = block_hash, tf_chain_id = chain_id,
                  tf_state_id = state_id, tf_q = q, tf_date_greater = date_greater, tf_date_less = date_less\<rparr>;
             page = \<lparr>pg_order_by = ord, pg_direction = direction, pg_cursor_sort_value = map_option sort_value cursor,
                     pg_cursor_id = map_option cursor_row cursor, pg_limit = limit\<rparr>;
             with_script = (tq_with_script query = Some 1)
         in and_then (trim_page_rows row_key (select_transactions st db address state_filter f page with_script) limit kind)
              (\<lambda>(rows, next_cursor).
            let txs = map transaction_from_row rows;
                txs = (if with_script then txs else map (\<lambda>t. t\<lparr>rs_script_raw := None\<rparr>) txs);
                txs = (if tq_with_neighbors query = Some 1 \<and> hash \<noteq> None \<and> length rows = 1
                       then set_neighbors db chain_id rows txs else txs)
            in map_ok (\<lambda>txs. \<lparr>tl_transactions = txs, tl_next_cursor = next_cursor\<rparr>)
                 (if tq_with_events query = Some 1
                  then attach_events_to_transactions (st_lib st) db txs (tq_with_event_data query = Some 1)
                         (tq_with_nft query = Some 1) (tq_with_fiat query = Some 1)
                  else Inr txs))))))))))"

definition transaction_legacy ::
    "('f, 'n, 's) api_state \<Rightarrow> 'f api_db \<Rightarrow> transaction_list_query \<Rightarrow> api_error + ('n, 's) transaction_list_response" where
  "transaction_legacy st db query = load_transactions st db (query\<lparr>tq_limit := Some 1, tq_cursor := None\<rparr>)"

section \<open>Details of one transaction\<close>

record ('n, 's) transaction_detail =
  td_transaction :: "('n, 's) transaction_response"
  td_signatures :: "(int \<times> string \<times> string) list"
  td_events :: "('n, 's) event_response list"

definition load_transaction_detail ::
    "('f, 'n, 's) api_state \<Rightarrow> 'f api_db \<Rightarrow> ('n, 's) transaction_response \<Rightarrow> api_error + ('n, 's) transaction_detail" where
  "load_transaction_detail st db t =
     and_then (parse_i32_id ''transaction_id'' (transaction_id t)) (\<lambda>i.
     map_ok (\<lambda>events. \<lparr>td_transaction = t, td_signatures = list_signatures db i, td_events = events\<rparr>)
       (load_transaction_events (st_lib st) db i))"

definition transaction_occurrence_from_row :: "string \<Rightarrow> tx_table_row \<times> block_table_row \<Rightarrow> transaction_occurrence" where
  "transaction_occurrence_from_row chain = (\<lambda>(t, b).
     \<lparr>occ_transaction_id = show_int (tx_id t), occ_hash = tx_hash t, occ_block_hash = bl_hash b,
      occ_block_height = show_int (bl_height b), occ_chain = chain, occ_index = tx_index t, occ_date = show_int (tx_timestamp t)\<rparr>)"

definition load_transaction_occurrences_by_hash ::
    "('f, 'n, 's) api_state \<Rightarrow> 'f api_db \<Rightarrow> string \<Rightarrow> int \<times> transaction_occurrence list" where
  "load_transaction_occurrences_by_hash st db hash =
     (transaction_occurrence_count db (st_chain st) hash,
      map (transaction_occurrence_from_row (st_chain st)) (list_transaction_occurrences db (st_chain st) hash))"

definition transaction_by_hash ::
    "('f, 'n, 's) api_state \<Rightarrow> 'f api_db \<Rightarrow> string \<Rightarrow> int option \<Rightarrow> int option \<Rightarrow> api_error + ('n, 's) transaction_detail" where
  "transaction_by_hash st db hash block_height index =
     and_then (normalized_required_path ''hash'' hash) (\<lambda>hash.
       case (block_height, index) of
         (Some h, Some i) \<Rightarrow>
           (case transaction_by_hash_block_index db (st_chain st) hash h i of
              None \<Rightarrow> Inl (NotFound (''transaction '' @ hash @ '' at block '' @ show_int h @ '' index '' @ show_int i @ '' was not found''))
            | Some r \<Rightarrow> load_transaction_detail st db (transaction_from_row r))
       | (None, None) \<Rightarrow>
           (let (occurrence_count, matches) = load_transaction_occurrences_by_hash st db hash
            in if occurrence_count = 0 then Inl (NotFound (''transaction '' @ hash @ '' was not found''))
               else if occurrence_count = 1 then
                 (case single_transaction_by_hash db (st_chain st) hash of
                    None \<Rightarrow> Inl (NotFound (''transaction '' @ hash @ '' was not found''))
                  | Some r \<Rightarrow> load_transaction_detail st db (transaction_from_row r))
               else Inl (AmbiguousTransactionHash hash occurrence_count matches))
       | _ \<Rightarrow> Inl (BadRequest ''block_height and index must be supplied together''))"

definition transaction_by_block_index ::
    "('f, 'n, 's) api_state \<Rightarrow> 'f api_db \<Rightarrow> int \<Rightarrow> int \<Rightarrow> api_error + ('n, 's) transaction_detail" where
  "transaction_by_block_index st db height index =
     (case transaction_row_by_block_index db (st_chain st) height index of
        None \<Rightarrow> Inl (NotFound (''transaction at block '' @ show_int height @ '' index '' @ show_int index @ '' was not found''))
      | Some r \<Rightarrow> load_transaction_detail st db (transaction_from_row r))"

end
