(* ===== verification/Transaction_Paging.thy ===== *)
theory Transaction_Paging
  imports Transaction_Reads "HOL-Library.Multiset"
begin

text \<open>
  What a client of the transaction list sees when it follows the cursors: the rows a request asks for,
  that one answer is a page of them (interpretations of \<open>keyset_list\<close>), and that the pages together are
  all of them.
\<close>

section \<open>Tables with their keys\<close>

definition tx_row_ok :: "'f api_db \<Rightarrow> tx_table_row \<Rightarrow> bool" where
  "tx_row_ok db t \<longleftrightarrow> i32_range (tx_id t) \<and> i64_range (tx_timestamp t)
     \<and> (case block_by_id db (tx_block_id t) of
          None \<Rightarrow> False
        | Some b \<Rightarrow> i64_range (bl_height b) \<and> find (\<lambda>c. chain_key c = bl_chain_id b) (db_chains db) \<noteq> None)
     \<and> map_of (db_states db) (tx_state_id t) \<noteq> None"

text \<open>Primary and foreign keys of the schema, and the ranges of the columns.\<close>

definition api_db_ok :: "'f api_db \<Rightarrow> bool" where
  "api_db_ok db \<longleftrightarrow> distinct (map tx_id (db_transactions db))
     \<and> list_all (tx_row_ok db) (db_transactions db)
     \<and> distinct (map (\<lambda>a. (at_address_id a, at_transaction_id a)) (db_address_transactions db))
     \<and> list_all (\<lambda>a. i64_range (at_timestamp a) \<and> at_transaction_id a \<in> set (map tx_id (db_transactions db)))
         (db_address_transactions db)"

lemma set_map_filter: "set (List.map_filter f xs) = {y. \<exists>x \<in> set xs. f x = Some y}"
  by (induction xs) (auto simp: List.map_filter_simps split: option.splits)

lemma distinct_map_partial:
  "distinct (map g xs) \<Longrightarrow> (\<And>x y. f x = Some y \<Longrightarrow> h y = g x) \<Longrightarrow> distinct (map h (List.map_filter f xs))"
proof (induction xs)
  case (Cons x xs)
  then show ?case by (auto simp: List.map_filter_simps set_map_filter image_iff split: option.splits)
qed (simp add: List.map_filter_simps)

lemma map_filter_Some: "(\<And>x. x \<in> set xs \<Longrightarrow> f x = Some (g x)) \<Longrightarrow> List.map_filter f xs = map g xs"
  by (induction xs) (auto simp: List.map_filter_simps)

lemma transaction_select_id:
  "transaction_select db ws t = Some r \<Longrightarrow> tr_id r = tx_id t \<and> tr_cursor_id r = tx_id t \<and> tr_timestamp r = tx_timestamp t
     \<and> (\<exists>b. block_by_id db (tx_block_id t) = Some b \<and> tr_block_height r = bl_height b)"
  by (auto simp: transaction_select_def split: option.splits)

lemma joined_ids: "distinct (map tx_id (db_transactions db)) \<Longrightarrow> distinct (map tr_id (joined_transactions db ws))"
  unfolding joined_transactions_def
  by (erule distinct_map_partial) (simp add: transaction_select_id)

lemma joined_range:
  assumes "api_db_ok db" "r \<in> set (joined_transactions db ws)"
  shows "i32_range (tr_id r) \<and> tr_cursor_id r = tr_id r \<and> i64_range (tr_timestamp r) \<and> i64_range (tr_block_height r)"
proof -
  from assms(2) obtain t where t: "t \<in> set (db_transactions db)" "transaction_select db ws t = Some r"
    by (auto simp: joined_transactions_def set_map_filter)
  moreover from t(1) assms(1) have "tx_row_ok db t" by (auto simp: api_db_ok_def list_all_iff)
  ultimately show ?thesis
    using transaction_select_id [OF t(2)] by (auto simp: tx_row_ok_def)
qed

lemma joined_find:
  assumes "api_db_ok db" "i \<in> set (map tx_id (db_transactions db))"
  obtains r where "find (\<lambda>r. tr_id r = i) (joined_transactions db ws) = Some r" "tr_id r = i" "r \<in> set (joined_transactions db ws)"
proof -
  from assms(2) obtain t where t: "t \<in> set (db_transactions db)" "tx_id t = i" by auto
  from t(1) assms(1) have "tx_row_ok db t" by (auto simp: api_db_ok_def list_all_iff)
  then obtain r where "transaction_select db ws t = Some r"
    by (auto simp: tx_row_ok_def transaction_select_def split: option.splits)
  with t have "\<exists>r \<in> set (joined_transactions db ws). tr_id r = i"
    by (force simp: joined_transactions_def set_map_filter dest: transaction_select_id)
  then have "find (\<lambda>r. tr_id r = i) (joined_transactions db ws) \<noteq> None" by (auto simp: find_None_iff)
  then obtain r where "find (\<lambda>r. tr_id r = i) (joined_transactions db ws) = Some r" by blast
  moreover then have "tr_id r = i" "r \<in> set (joined_transactions db ws)" by (auto simp: find_Some_iff)
  ultimately show ?thesis by (rule that)
qed

section \<open>The rows a request asks for\<close>

definition requested_rows ::
    "('f, 'n, 's) api_state \<Rightarrow> 'f api_db \<Rightarrow> string option \<Rightarrow> transaction_filter \<Rightarrow> transaction_order_by \<Rightarrow> bool
     \<Rightarrow> transaction_list_row list" where
  "requested_rows st db address f ord with_script =
     (case address of
        None \<Rightarrow> global_rows db (st_ilike st) f ord with_script
      | Some a \<Rightarrow>
          (case address_id_by_address db a of
             None \<Rightarrow> []
           | Some address_id \<Rightarrow> filtered_address_rows db (st_ilike st) address_id f ord with_script))"

definition row_ok :: "transaction_list_row \<Rightarrow> bool" where
  "row_ok r \<longleftrightarrow> i32_range (tr_cursor_id r) \<and> i64_range (tr_cursor_sort_value r) \<and> tr_id r = tr_cursor_id r"

lemma distinct_row_key: "distinct (map tr_cursor_id rows) \<Longrightarrow> distinct (map row_key rows)"
  by (induction rows) (auto simp: row_key_def)

lemma global_rows_ok:
  assumes "api_db_ok db"
  shows "distinct (map tr_cursor_id (global_rows db ilike f ord ws)) \<and> list_all row_ok (global_rows db ilike f ord ws)"
proof
  have ids: "distinct (map tr_id (joined_transactions db ws))"
    using assms by (intro joined_ids) (simp add: api_db_ok_def)
  have "map tr_cursor_id (global_rows db ilike f ord ws) =
      map tr_id (filter (transaction_matches ilike f) (joined_transactions db ws))"
    using joined_range [OF assms] by (auto simp: global_rows_def)
  moreover have "distinct \<dots>" using ids by (rule distinct_map_filter)
  ultimately show "distinct (map tr_cursor_id (global_rows db ilike f ord ws))" by simp
  show "list_all row_ok (global_rows db ilike f ord ws)"
    using joined_range [OF assms] by (cases ord) (auto simp: global_rows_def list_all_iff row_ok_def)
qed

section \<open>Activity rows of an address\<close>

lemma insort_key_map: "insort_key f (g x) (map g xs) = map g (insort_key (\<lambda>x. f (g x)) x xs)"
  by (induction xs) auto

lemma order_by_map: "order_by d key (map g xs) = map g (order_by d (\<lambda>x. key (g x)) xs)"
proof -
  have "sort_key key (map g xs) = map g (sort_key (\<lambda>x. key (g x)) xs)"
    by (induction xs) (simp_all add: insort_key_map)
  then show ?thesis by (cases d) (simp_all add: order_by_def rev_map)
qed

lemma seek_page_map:
  "seek_page d key sv cid n (map g xs) = map g (seek_page d (\<lambda>x. key (g x)) sv cid n xs)"
  by (simp add: seek_page_def filter_map comp_def order_by_map take_map)

lemma order_by_sorted:
  assumes "sorted_wrt (\<lambda>r s. precedes d (key r) (key s)) xs"
  shows "order_by d key xs = xs"
proof -
  have less: "sorted_wrt (\<lambda>r s. key r < key s) (case d of Asc \<Rightarrow> xs | Desc \<Rightarrow> rev xs)"
    using assms by (cases d) (simp_all add: precedes_def sorted_wrt_rev)
  let ?ys = "case d of Asc \<Rightarrow> xs | Desc \<Rightarrow> rev xs"
  from less have "sorted_wrt (<) (map key ?ys)" by (simp add: sorted_wrt_map)
  then have "sorted (map key ?ys)" "distinct (map key ?ys)" by (simp_all add: strict_sorted_iff)
  moreover have "set ?ys = set xs" "mset xs = mset ?ys" by (cases d; simp)+
  ultimately have "sort_key key xs = ?ys"
    by (intro sort_key_inj_key_eq) (auto simp: distinct_map)
  then show ?thesis by (cases d) (simp_all add: order_by_def)
qed

definition activity_value :: "'f api_db \<Rightarrow> bool \<Rightarrow> transaction_order_by \<Rightarrow> address_tx_row \<Rightarrow> int" where
  "activity_value db ws ord a =
     (case ord of TxDate \<Rightarrow> at_timestamp a
      | TxBlockHeight \<Rightarrow> tr_block_height (the (find (\<lambda>r. tr_id r = at_transaction_id a) (joined_transactions db ws))))"

definition activity_row :: "'f api_db \<Rightarrow> bool \<Rightarrow> transaction_order_by \<Rightarrow> address_tx_row \<Rightarrow> transaction_list_row" where
  "activity_row db ws ord a =
     (the (find (\<lambda>r. tr_id r = at_transaction_id a) (joined_transactions db ws)))
       \<lparr>tr_cursor_id := at_transaction_id a, tr_cursor_sort_value := activity_value db ws ord a\<rparr>"

definition activities :: "'f api_db \<Rightarrow> int \<Rightarrow> address_tx_row list" where
  "activities db address_id = filter (\<lambda>a. at_address_id a = address_id) (db_address_transactions db)"

lemma activity_target:
  "api_db_ok db \<Longrightarrow> a \<in> set (activities db i) \<Longrightarrow> i64_range (at_timestamp a) \<and> at_transaction_id a \<in> set (map tx_id (db_transactions db))"
  by (auto simp: api_db_ok_def list_all_iff activities_def)

lemma activity_row_Some:
  assumes "api_db_ok db" "a \<in> set (activities db i)"
  shows "address_activity_row db ws ord a = Some (activity_row db ws ord a)" "row_ok (activity_row db ws ord a)"
    "row_key (activity_row db ws ord a) = (activity_value db ws ord a, at_transaction_id a)"
proof -
  have a: "i64_range (at_timestamp a)" "at_transaction_id a \<in> set (map tx_id (db_transactions db))"
    using activity_target [OF assms] by auto
  obtain r where r: "find (\<lambda>r. tr_id r = at_transaction_id a) (joined_transactions db ws) = Some r"
      "tr_id r = at_transaction_id a" "r \<in> set (joined_transactions db ws)"
    using joined_find [OF assms(1) a(2)] by blast
  from r show "address_activity_row db ws ord a = Some (activity_row db ws ord a)"
    by (cases ord) (simp_all add: address_activity_row_def activity_row_def activity_value_def)
  from r joined_range [OF assms(1) r(3)] a(1) show "row_ok (activity_row db ws ord a)"
    by (cases ord) (simp_all add: activity_row_def activity_value_def row_ok_def)
  show "row_key (activity_row db ws ord a) = (activity_value db ws ord a, at_transaction_id a)"
    by (simp add: activity_row_def row_key_def)
qed

lemma activities_distinct: "api_db_ok db \<Longrightarrow> distinct (map at_transaction_id (activities db i))"
proof -
  assume "api_db_ok db"
  then have "distinct (map (\<lambda>a. (at_address_id a, at_transaction_id a)) (activities db i))"
    unfolding api_db_ok_def activities_def by (blast intro: distinct_map_filter)
  then have d: "distinct (activities db i)" "inj_on (\<lambda>a. (at_address_id a, at_transaction_id a)) (set (activities db i))"
    by (simp_all add: distinct_map)
  have "inj_on at_transaction_id (set (activities db i))"
    using d(2) by (auto simp: inj_on_def activities_def)
  with d(1) show ?thesis by (simp add: distinct_map)
qed

lemma filtered_address_rows_eq:
  assumes "api_db_ok db"
  shows "filtered_address_rows db ilike i f ord ws =
    filter (transaction_matches ilike f) (map (activity_row db ws ord) (activities db i))"
proof -
  have "List.map_filter (address_activity_row db ws ord) (activities db i) = map (activity_row db ws ord) (activities db i)"
    by (rule map_filter_Some) (rule activity_row_Some(1) [OF assms])
  then show ?thesis by (simp only: filtered_address_rows_def flip: activities_def)
qed

lemma filtered_address_rows_ok:
  assumes "api_db_ok db"
  shows "distinct (map tr_cursor_id (filtered_address_rows db ilike i f ord ws))
    \<and> list_all row_ok (filtered_address_rows db ilike i f ord ws)"
proof -
  have "map tr_cursor_id (map (activity_row db ws ord) (activities db i)) = map at_transaction_id (activities db i)"
    by (simp add: activity_row_def)
  then have "distinct (map tr_cursor_id (map (activity_row db ws ord) (activities db i)))"
    using activities_distinct [OF assms] by (simp only:)
  then show ?thesis
    unfolding filtered_address_rows_eq [OF assms]
    using activity_row_Some(2) [OF assms] by (auto simp: list_all_iff simp del: map_map intro: distinct_map_filter)
qed

lemma seek_page_cong:
  assumes "\<And>r. r \<in> set rows \<Longrightarrow> key r = key' r"
  shows "seek_page d key sv cid n rows = seek_page d key' sv cid n rows"
proof -
  have "sort_key key xs = sort_key key' xs" if "set xs \<subseteq> set rows" for xs
    using that
  proof (induction xs)
    case (Cons x xs)
    have "insort_key key x ys = insort_key key' x ys" if "set ys \<subseteq> set rows" for ys
      using that Cons.prems assms by (induction ys) auto
    with Cons show ?case by simp
  qed simp
  then have "order_by d key xs = order_by d key' xs" if "set xs \<subseteq> set rows" for xs
    using that by (cases d) (simp_all add: order_by_def)
  moreover have "filter (\<lambda>r. seek_after d sv cid (key r)) rows = filter (\<lambda>r. seek_after d sv cid (key' r)) rows"
    by (rule filter_cong) (simp_all add: assms)
  ultimately show ?thesis by (simp add: seek_page_def)
qed

definition empty_filter :: transaction_filter where
  "empty_filter = \<lparr>tf_hash = None, tf_block_height = None, tf_block_hash = None, tf_chain_id = None, tf_state_id = None,
     tf_q = None, tf_date_greater = None, tf_date_less = None\<rparr>"

lemma transaction_matches_empty [simp]: "transaction_matches ilike empty_filter r"
  by (simp add: transaction_matches_def empty_filter_def transaction_q_forms_def optional_def)

lemma address_page_keys_eq:
  assumes "api_db_ok db"
  shows "address_page_keys db i ord = map (\<lambda>a. (activity_value db ws ord a, a)) (activities db i)"
proof (cases ord)
  case TxBlockHeight
  have "Option.bind (find (\<lambda>t. tx_id t = at_transaction_id a) (db_transactions db))
      (\<lambda>t. map_option (\<lambda>b. (bl_height b, a)) (block_by_id db (tx_block_id t))) = Some (activity_value db ws ord a, a)"
    if "a \<in> set (activities db i)" for a
  proof -
    have a: "at_transaction_id a \<in> set (map tx_id (db_transactions db))"
      using activity_target [OF assms that] by auto
    obtain r where r: "find (\<lambda>r. tr_id r = at_transaction_id a) (joined_transactions db ws) = Some r"
        "tr_id r = at_transaction_id a" "r \<in> set (joined_transactions db ws)"
      using joined_find [OF assms a] by blast
    from r(3) obtain t where t: "t \<in> set (db_transactions db)" "transaction_select db ws t = Some r"
      by (auto simp: joined_transactions_def set_map_filter)
    from a have "find (\<lambda>t. tx_id t = at_transaction_id a) (db_transactions db) \<noteq> None"
      by (auto simp: find_None_iff)
    then obtain t' where t': "find (\<lambda>t. tx_id t = at_transaction_id a) (db_transactions db) = Some t'" by blast
    then have "t' \<in> set (db_transactions db)" "tx_id t' = tx_id t"
      using transaction_select_id [OF t(2)] r(2) by (auto simp: find_Some_iff)
    then have "t' = t" using t(1) assms by (auto simp: api_db_ok_def distinct_map inj_on_def)
    with t' transaction_select_id [OF t(2)] r(1) TxBlockHeight show ?thesis by (auto simp: activity_value_def)
  qed
  then show ?thesis
    by (simp add: address_page_keys_def TxBlockHeight map_filter_Some flip: activities_def)
qed (simp add: address_page_keys_def activity_value_def flip: activities_def)

lemma timeline_eq:
  assumes "api_db_ok db"
  shows "list_transactions_for_address_timeline db i page ws =
    seek_page (pg_direction page) row_key (pg_cursor_sort_value page) (pg_cursor_id page) (pg_limit page + 1)
      (filtered_address_rows db ilike i empty_filter (pg_order_by page) ws)"
proof -
  let ?g = "activity_row db ws (pg_order_by page)" and ?v = "activity_value db ws (pg_order_by page)"
  let ?S = "\<lambda>key xs. seek_page (pg_direction page) key (pg_cursor_sort_value page) (pg_cursor_id page) (pg_limit page + 1) xs"
  let ?A = "activities db i" and ?k = "\<lambda>a. (?v a, at_transaction_id a)"
  have mem: "a \<in> set (?S key ?A) \<Longrightarrow> a \<in> set ?A" for a and key :: "address_tx_row \<Rightarrow> int \<times> int"
    by (auto simp: seek_page_def dest: in_set_takeD)
  have keys: "row_key (?g a) = ?k a" if "a \<in> set ?A" for a using activity_row_Some(3) [OF assms that] .
  have find: "find (\<lambda>r. tr_id r = at_transaction_id a) (joined_transactions db ws) = Some (the (find (\<lambda>r. tr_id r = at_transaction_id a) (joined_transactions db ws)))"
    if "a \<in> set ?A" for a
    using activity_target [OF assms that] joined_find [OF assms] by (metis option.sel)
  have page: "?S (\<lambda>(v, a). (v, at_transaction_id a)) (address_page_keys db i (pg_order_by page)) = map (\<lambda>a. (?v a, a)) (?S ?k ?A)"
    unfolding address_page_keys_eq [OF assms, where ws = ws] seek_page_map by simp
  have rows: "?S row_key (map ?g ?A) = map ?g (?S ?k ?A)"
  proof -
    have "?S row_key (map ?g ?A) = map ?g (?S (\<lambda>a. row_key (?g a)) ?A)" by (rule seek_page_map)
    also have "?S (\<lambda>a. row_key (?g a)) ?A = ?S ?k ?A"
      by (rule seek_page_cong) (rule keys)
    finally show ?thesis .
  qed
  have join: "List.map_filter (\<lambda>(v, a). map_option (\<lambda>r. r\<lparr>tr_cursor_id := at_transaction_id a, tr_cursor_sort_value := v\<rparr>)
        (find (\<lambda>r. tr_id r = at_transaction_id a) (joined_transactions db ws))) (map (\<lambda>a. (?v a, a)) (?S ?k ?A)) = map ?g (?S ?k ?A)"
  proof -
    have "map_option (\<lambda>r. r\<lparr>tr_cursor_id := at_transaction_id a, tr_cursor_sort_value := ?v a\<rparr>)
        (find (\<lambda>r. tr_id r = at_transaction_id a) (joined_transactions db ws)) = Some (?g a)" if "a \<in> set (?S ?k ?A)" for a
      by (subst find [OF mem [OF that]]) (simp add: activity_row_def)
    then show ?thesis by (subst map_filter_Some [where g = "\<lambda>(v, a). ?g a"]) auto
  qed
  have "distinct (map row_key (map ?g ?A))"
    using filtered_address_rows_ok [OF assms, of ilike i empty_filter "pg_order_by page" ws]
    unfolding filtered_address_rows_eq [OF assms] by (intro distinct_row_key) simp
  then have "sorted_wrt (\<lambda>r s. precedes (pg_direction page) (row_key r) (row_key s)) (?S row_key (map ?g ?A))"
    unfolding seek_page_def order_by_filter
    by (intro sorted_wrt_take sorted_wrt_filter order_by_precedes)
  then have "order_by (pg_direction page) row_key (?S row_key (map ?g ?A)) = ?S row_key (map ?g ?A)" by (rule order_by_sorted)
  then show ?thesis
    unfolding list_transactions_for_address_timeline_def page join filtered_address_rows_eq [OF assms] by (simp add: rows)
qed

lemma empty_filter_eq:
  "tf_hash f = None \<and> tf_block_height f = None \<and> tf_block_hash f = None \<and> tf_chain_id f = None
    \<and> tf_state_id f = None \<and> tf_q f = None \<and> tf_date_greater f = None \<and> tf_date_less f = None \<Longrightarrow> f = empty_filter"
  by (cases f) (simp add: empty_filter_def)

lemma select_transactions_page:
  assumes "api_db_ok db" "state_filter = None \<Longrightarrow> tf_state_id f = None"
  shows "select_transactions st db address state_filter f page ws =
    seek_page (pg_direction page) row_key (pg_cursor_sort_value page) (pg_cursor_id page) (pg_limit page + 1)
      (requested_rows st db address f (pg_order_by page) ws)"
proof (cases address)
  case None
  then show ?thesis by (simp add: select_transactions_def requested_rows_def list_transactions_global_def)
next
  case (Some a)
  have nil: "seek_page d key sv cid n [] = []" for d :: sort_direction and key :: "transaction_list_row \<Rightarrow> int \<times> int" and sv cid n
    by (cases d) (simp_all add: seek_page_def order_by_def)
  show ?thesis
  proof (cases "address_id_by_address db a")
    case None
    with Some show ?thesis by (simp add: select_transactions_def requested_rows_def nil)
  next
    case (Some i)
    show ?thesis
    proof (cases "tf_hash f = None \<and> tf_block_height f = None \<and> tf_block_hash f = None \<and> tf_chain_id f = None
        \<and> state_filter = None \<and> tf_q f = None \<and> tf_date_greater f = None \<and> tf_date_less f = None")
      case True
      then have "f = empty_filter" using assms(2) by (intro empty_filter_eq) blast
      with True Some \<open>address = Some a\<close> show ?thesis
        by (simp add: select_transactions_def requested_rows_def timeline_eq [OF assms(1), where ilike = "st_ilike st"])
    next
      case False
      with Some \<open>address = Some a\<close> show ?thesis
        by (simp only: select_transactions_def requested_rows_def list_transactions_for_filtered_address_def
            option.case if_False)
    qed
  qed
qed

lemma requested_rows_ok:
  assumes "api_db_ok db"
  shows "distinct (map tr_cursor_id (requested_rows st db address f ord ws)) \<and> list_all row_ok (requested_rows st db address f ord ws)"
  using global_rows_ok [OF assms, of "st_ilike st" f ord ws] filtered_address_rows_ok [OF assms, of "st_ilike st" _ f ord ws]
  by (simp add: requested_rows_def split: option.split)

section \<open>One answer is one page\<close>

lemma trim_page_rows_seek:
  fixes limit :: int and rows :: "'r list"
  assumes "1 \<le> limit" "R = rest_rows d key c rows"
  shows "trim_page_rows key (seek_page d key (map_option sort_value c) (map_option cursor_row c) (limit + 1) rows) limit kind =
    Inr (take (nat limit) R,
      if nat limit < length R then Some (page_cursor_encode kind (cursor_at (key (R ! (nat limit - 1))))) else None)"
proof -
  have R: "seek_page d key (map_option sort_value c) (map_option cursor_row c) (limit + 1) rows = take (nat (limit + 1)) R"
    by (simp add: seek_page_def rest_rows_def after_cursor_def assms(2))
  have n: "nat (limit + 1) = Suc (nat limit)" "0 < nat limit" using assms(1) by simp_all
  show ?thesis
  proof (cases "nat limit < length R")
    case True
    then have "take (nat limit) (take (Suc (nat limit)) R) = take (nat limit) R" by simp
    moreover have "last (take (nat limit) R) = R ! (nat limit - 1)"
      using True n by (subst last_conv_nth) (auto simp: min_def)
    ultimately show ?thesis using True n assms(1)
      by (auto simp: R trim_page_rows_def usize_try_from_def row_cursor_def cursor_at_def Let_def)
  next
    case False
    then show ?thesis using n assms(1) by (simp add: R trim_page_rows_def usize_try_from_def)
  qed
qed

lemma set_neighbors_ids: "map transaction_id (set_neighbors db chain_id rows txs) = map transaction_id txs"
  by (auto simp: set_neighbors_def split: list.splits prod.splits)

lemma take_groups_ids: "take_groups grouped txs = Inr txs' \<Longrightarrow> map transaction_id txs' = map transaction_id txs"
  by (induction txs arbitrary: grouped txs') (auto simp: result_eqs)

lemma attach_events_ids:
  "attach_events_to_transactions lib db txs a b c = Inr txs' \<Longrightarrow> map transaction_id txs' = map transaction_id txs"
  by (auto simp: attach_events_to_transactions_def result_eqs dest: take_groups_ids)

definition request_filter ::
    "('f, 'n, 's) api_state \<Rightarrow> 'f api_db \<Rightarrow> transaction_list_query \<Rightarrow> api_error + transaction_filter" where
  "request_filter st db query =
     and_then (resolve_transaction_state_id (st_lower st) db (empty_to_none (tq_state query))) (\<lambda>state_id.
     and_then (resolve_optional_chain db (empty_to_none (tq_chain query))) (\<lambda>chain_id.
     and_then (parse_optional_i64 (empty_to_none (tq_date_greater query)) ''date_greater'') (\<lambda>date_greater.
     and_then (parse_optional_i64 (empty_to_none (tq_date_less query)) ''date_less'') (\<lambda>date_less.
     Inr \<lparr>tf_hash = empty_to_none (tq_hash query), tf_block_height = tq_block_height query,
          tf_block_hash = empty_to_none (tq_block_hash query), tf_chain_id = chain_id, tf_state_id = state_id,
          tf_q = empty_to_none (tq_q query), tf_date_greater = date_greater, tf_date_less = date_less\<rparr>))))"

definition request_order :: "transaction_list_query \<Rightarrow> transaction_order_by option" where
  "request_order query = transaction_order_by_from_api_param (empty_to_none (tq_order_by query))"

definition request_direction :: "transaction_list_query \<Rightarrow> sort_direction option" where
  "request_direction query = from_api_param (tq_order_direction query)"

definition request_kind :: "transaction_list_query \<Rightarrow> string" where
  "request_kind query = cursor_kind (empty_to_none (tq_address query))"

text \<open>The transactions a request selects, without its cursor and limit.\<close>

definition request_rows ::
    "('f, 'n, 's) api_state \<Rightarrow> 'f api_db \<Rightarrow> transaction_list_query \<Rightarrow> transaction_list_row list" where
  "request_rows st db query =
     (case (request_filter st db query, request_order query) of
        (Inr f, Some ord) \<Rightarrow> requested_rows st db (empty_to_none (tq_address query)) f ord (tq_with_script query = Some 1)
      | _ \<Rightarrow> [])"

lemma request_rows_ok:
  "api_db_ok db \<Longrightarrow> distinct (map tr_cursor_id (request_rows st db query)) \<and> list_all row_ok (request_rows st db query)"
  by (simp add: request_rows_def requested_rows_ok split: sum.split option.split)

lemma request_filter_state:
  "request_filter st db query = Inr f \<Longrightarrow> empty_to_none (tq_state query) = None \<Longrightarrow> tf_state_id f = None"
  by (auto simp: request_filter_def result_eqs resolve_transaction_state_id_def)

definition finish_transactions ::
    "('f, 'n, 's) api_state \<Rightarrow> 'f api_db \<Rightarrow> transaction_list_query \<Rightarrow> transaction_filter \<Rightarrow> transaction_list_row list
     \<Rightarrow> api_error + ('n, 's) transaction_response list" where
  "finish_transactions st db query f rows =
     (let with_script = (tq_with_script query = Some 1);
          txs = map transaction_from_row rows;
          txs = (if with_script then txs else map (\<lambda>t. t\<lparr>rs_script_raw := None\<rparr>) txs);
          txs = (if tq_with_neighbors query = Some 1 \<and> empty_to_none (tq_hash query) \<noteq> None \<and> length rows = 1
                 then set_neighbors db (tf_chain_id f) rows txs else txs)
      in if tq_with_events query = Some 1
         then attach_events_to_transactions (st_lib st) db txs (tq_with_event_data query = Some 1)
                (tq_with_nft query = Some 1) (tq_with_fiat query = Some 1)
         else Inr txs)"

lemma finish_transactions_ids:
  fixes txs :: "('n, 's) transaction_response list"
  shows "finish_transactions st db query f rows = Inr txs \<Longrightarrow> map transaction_id txs = map (\<lambda>r. show_int (tr_id r)) rows"
proof -
  assume fin: "finish_transactions st db query f rows = Inr txs"
  define t2 where "t2 = (if tq_with_script query = Some 1 then map transaction_from_row rows
    else map (\<lambda>t. t\<lparr>rs_script_raw := None\<rparr>) (map transaction_from_row rows :: ('n, 's) transaction_response list))"
  define t3 where "t3 = (if tq_with_neighbors query = Some 1 \<and> empty_to_none (tq_hash query) \<noteq> None \<and> length rows = 1
    then set_neighbors db (tf_chain_id f) rows t2 else t2)"
  have "map transaction_id t2 = map (\<lambda>r. show_int (tr_id r)) rows" by (simp add: t2_def transaction_from_row_def)
  then have "map transaction_id t3 = map (\<lambda>r. show_int (tr_id r)) rows" by (simp add: t3_def set_neighbors_ids)
  moreover have "map transaction_id txs = map transaction_id t3"
    using fin unfolding finish_transactions_def Let_def t2_def [symmetric] t3_def [symmetric]
    by (cases "tq_with_events query = Some 1") (auto dest: attach_events_ids)
  ultimately show ?thesis by simp
qed

lemma load_transactions_eq:
  "load_transactions st db query =
     and_then (page_cursor_parse_optional (tq_cursor query) (request_kind query)) (\<lambda>cursor.
     and_then (request_filter st db query) (\<lambda>f.
     and_then (parse_order_by transaction_order_by_from_api_param (empty_to_none (tq_order_by query))) (\<lambda>ord.
     and_then (parse_sort_direction (tq_order_direction query)) (\<lambda>d.
     and_then (trim_page_rows row_key
         (select_transactions st db (empty_to_none (tq_address query)) (empty_to_none (tq_state query)) f
           \<lparr>pg_order_by = ord, pg_direction = d, pg_cursor_sort_value = map_option sort_value cursor,
            pg_cursor_id = map_option cursor_row cursor, pg_limit = clamp_limit (tq_limit query)\<rparr> (tq_with_script query = Some 1))
         (clamp_limit (tq_limit query)) (request_kind query)) (\<lambda>(rows, next_cursor).
     map_ok (\<lambda>txs. \<lparr>tl_transactions = txs, tl_next_cursor = next_cursor\<rparr>) (finish_transactions st db query f rows))))))"
  unfolding load_transactions_def request_filter_def finish_transactions_def and_then_assoc and_then_simps Let_def
    request_kind_def transaction_filter.simps ..

lemma request_cursor [simp]:
  "request_filter st db (query\<lparr>tq_cursor := c\<rparr>) = request_filter st db query"
  "request_kind (query\<lparr>tq_cursor := c\<rparr>) = request_kind query"
  "finish_transactions st db (query\<lparr>tq_cursor := c\<rparr>) f rows = finish_transactions st db query f rows"
  by (simp_all add: request_filter_def request_kind_def finish_transactions_def Let_def)

lemma request_kind_colon: "CHR '':'' \<notin> set (request_kind query)"
  by (simp add: request_kind_def cursor_kind_def)

lemma parse_encoded_cursor:
  "CHR '':'' \<notin> set kind \<Longrightarrow> cursor_range c \<Longrightarrow> page_cursor_parse_optional (map_option (page_cursor_encode kind) c) kind = Inr c"
  by (cases c) (simp_all add: page_cursor_parse_optional_def page_cursor_round_trip cursor_range_def)

definition request_limit :: "transaction_list_query \<Rightarrow> nat" where
  "request_limit query = nat (clamp_limit (tq_limit query))"

text \<open>A request with an encoded cursor: the page of the rows behind it.\<close>

lemma load_transactions_page:
  assumes ok: "api_db_ok db" and c: "cursor_range c"
    and f: "request_filter st db query = Inr f" and ord: "request_order query = Some ord" and d: "request_direction query = Some d"
    and R: "R = rest_rows d row_key c (request_rows st db query)"
  shows "load_transactions st db (query\<lparr>tq_cursor := map_option (page_cursor_encode (request_kind query)) c\<rparr>) =
    map_ok (\<lambda>txs. \<lparr>tl_transactions = txs, tl_next_cursor = (if request_limit query < length R
        then Some (page_cursor_encode (request_kind query) (cursor_at (row_key (R ! (request_limit query - 1))))) else None)\<rparr>)
      (finish_transactions st db query f (take (request_limit query) R))"
proof -
  have rows: "requested_rows st db (empty_to_none (tq_address query)) f ord (tq_with_script query = Some 1) = request_rows st db query"
    by (simp add: request_rows_def f ord)
  have "parse_order_by transaction_order_by_from_api_param (empty_to_none (tq_order_by query)) = Inr ord"
    using ord by (simp add: parse_order_by_def request_order_def)
  moreover have "parse_sort_direction (tq_order_direction query) = Inr d"
    using d by (simp add: parse_sort_direction_def request_direction_def)
  moreover note parse_encoded_cursor [OF request_kind_colon c]
  moreover have "select_transactions st db (empty_to_none (tq_address query)) (empty_to_none (tq_state query)) f
      \<lparr>pg_order_by = ord, pg_direction = d, pg_cursor_sort_value = map_option sort_value c,
       pg_cursor_id = map_option cursor_row c, pg_limit = clamp_limit (tq_limit query)\<rparr> (tq_with_script query = Some 1) =
      seek_page d row_key (map_option sort_value c) (map_option cursor_row c) (clamp_limit (tq_limit query) + 1)
        (request_rows st db query)"
    using request_filter_state [OF f] by (subst select_transactions_page [OF ok]) (simp_all add: rows)
  ultimately show ?thesis
    by (simp add: load_transactions_eq f request_limit_def
        trim_page_rows_seek [where limit = "clamp_limit (tq_limit query)", OF clamp_limit_range(1) R])
qed

lemma load_transactions_answered:
  assumes "load_transactions st db query = Inr r"
  obtains f ord d where "request_filter st db query = Inr f" "request_order query = Some ord" "request_direction query = Some d"
  using assms unfolding load_transactions_eq
  by (auto simp: result_eqs parse_order_by_def parse_sort_direction_def request_order_def request_direction_def ok_or_def
      split: option.splits)

section \<open>Following the cursors\<close>

text \<open>The answers to a client that repeats a request with the cursors it is given, from databases that may
  differ from request to request.  A table that violates its keys cannot be read.\<close>

definition served_transactions ::
    "('f, 'n, 's) api_state \<Rightarrow> (nat \<Rightarrow> 'f api_db) \<Rightarrow> transaction_list_query \<Rightarrow> nat \<Rightarrow> string option
     \<Rightarrow> api_error + ('n, 's) transaction_response list \<times> string option" where
  "served_transactions st dbs query n c =
     (if api_db_ok (dbs n)
      then map_ok (\<lambda>r. (tl_transactions r, tl_next_cursor r)) (load_transactions st (dbs n) (query\<lparr>tq_cursor := c\<rparr>))
      else Inl (Internal ''constraint violation''))"

definition served_rows :: "('f, 'n, 's) api_state \<Rightarrow> 'f api_db \<Rightarrow> transaction_list_query \<Rightarrow> transaction_list_row list" where
  "served_rows st db query = (if api_db_ok db then request_rows st db query else [])"

lemma served_rows_ok:
  "distinct (map tr_cursor_id (served_rows st db query)) \<and> list_all row_ok (served_rows st db query)"
  by (simp add: served_rows_def request_rows_ok)

lemma request_limit_pos: "0 < request_limit query"
  using clamp_limit_range(1) [of "tq_limit query"] by (simp add: request_limit_def)

lemma row_ok_range: "row_ok r \<Longrightarrow> cursor_range (Some (cursor_at (row_key r)))"
  by (simp add: row_ok_def cursor_range_def cursor_at_def row_key_def)

lemma served_page:
  assumes c: "cursor_range c"
    and load: "served_transactions st dbs query n (map_option (page_cursor_encode (request_kind query)) c) = Inr (vs, nxt)"
    and R: "R = rest_rows (unwrap_or (request_direction query) Asc) row_key c (served_rows st (dbs n) query)"
  shows "map transaction_id vs = map (\<lambda>r. show_int (tr_id r)) (take (request_limit query) R)
    \<and> nxt = (if request_limit query < length R
        then Some (page_cursor_encode (request_kind query) (cursor_at (row_key (R ! (request_limit query - 1))))) else None)"
proof -
  let ?q = "query\<lparr>tq_cursor := map_option (page_cursor_encode (request_kind query)) c\<rparr>"
  from load have ok: "api_db_ok (dbs n)" by (simp add: served_transactions_def split: if_splits)
  with load obtain r where r: "load_transactions st (dbs n) ?q = Inr r" "vs = tl_transactions r" "nxt = tl_next_cursor r"
    by (auto simp: served_transactions_def map_ok_eq_Inr)
  from load_transactions_answered [OF r(1)] obtain f ord d where
    f: "request_filter st (dbs n) query = Inr f" "request_order query = Some ord" "request_direction query = Some d"
    by (simp add: request_order_def request_direction_def) blast
  have R': "R = rest_rows d row_key c (request_rows st (dbs n) query)" using R ok f(3) by (simp add: served_rows_def)
  from r show ?thesis
    unfolding load_transactions_page [OF ok c f R'] by (auto simp: map_ok_eq_Inr dest: finish_transactions_ids)
qed

interpretation tx_list: keyset_list "served_transactions st dbs query" "\<lambda>n. served_rows st (dbs n) query" row_key
    transaction_id "\<lambda>r. show_int (tr_id r)" "unwrap_or (request_direction query) Asc" "request_limit query" "request_kind query"
  for st dbs query
proof unfold_locales
  show "0 < request_limit query" by (rule request_limit_pos)
  show "distinct (map row_key (served_rows st (dbs n) query))" for n using served_rows_ok distinct_row_key by blast
  show "cursor_range (Some (cursor_at (row_key r)))" if "r \<in> set (served_rows st (dbs n) query)" for r n
    using that served_rows_ok [of st "dbs n" query] by (intro row_ok_range) (auto simp: list_all_iff)
qed (rule served_page [OF _ _ refl])

text \<open>A request that can be answered on a database that stays as it is.\<close>

definition answerable :: "('f, 'n, 's) api_state \<Rightarrow> 'f api_db \<Rightarrow> transaction_list_query \<Rightarrow> bool" where
  "answerable st db query \<longleftrightarrow> api_db_ok db \<and> tq_with_events query \<noteq> Some 1 \<and> \<not> isl (request_filter st db query)
     \<and> request_order query \<noteq> None \<and> request_direction query \<noteq> None"

definition answered_transactions ::
    "('f, 'n, 's) api_state \<Rightarrow> 'f api_db \<Rightarrow> transaction_list_query \<Rightarrow> nat \<Rightarrow> string option
     \<Rightarrow> api_error + ('n, 's) transaction_response list \<times> string option" where
  "answered_transactions st db query n c =
     (if answerable st db query then served_transactions st (\<lambda>_. db) query n c else Inr ([], None))"

definition answered_rows :: "('f, 'n, 's) api_state \<Rightarrow> 'f api_db \<Rightarrow> transaction_list_query \<Rightarrow> transaction_list_row list" where
  "answered_rows st db query = (if answerable st db query then request_rows st db query else [])"

lemma answerable_loads:
  assumes "answerable st db query" "cursor_range c"
  shows "\<exists>r. load_transactions st db (query\<lparr>tq_cursor := map_option (page_cursor_encode (request_kind query)) c\<rparr>) = Inr r"
proof -
  from assms(1) obtain f ord d where f: "request_filter st db query = Inr f" "request_order query = Some ord"
      "request_direction query = Some d" and ok: "api_db_ok db" "tq_with_events query \<noteq> Some 1"
    by (auto simp: answerable_def isl_def) (metis old.sum.exhaust)
  have "\<exists>txs. finish_transactions st db query f rows = Inr txs" for rows
    using ok(2) by (simp add: finish_transactions_def Let_def)
  then show ?thesis unfolding load_transactions_page [OF ok(1) assms(2) f refl] by (metis map_ok_simps(2))
qed

interpretation tx_walk: keyset_list_total "answered_transactions st db query" "\<lambda>_. answered_rows st db query" row_key
    transaction_id "\<lambda>r. show_int (tr_id r)" "unwrap_or (request_direction query) Asc" "request_limit query" "request_kind query"
  for st db query
proof unfold_locales
  show "0 < request_limit query" by (rule request_limit_pos)
  have rows: "answered_rows st db query = (if answerable st db query then served_rows st db query else [])"
    by (auto simp: answered_rows_def served_rows_def answerable_def)
  then show "distinct (map row_key (answered_rows st db query))" using served_rows_ok [of st db query] by (simp add: distinct_row_key)
  show "cursor_range (Some (cursor_at (row_key r)))" if "r \<in> set (answered_rows st db query)" for r
    using that served_rows_ok [of st db query] by (intro row_ok_range) (auto simp: list_all_iff rows split: if_splits)
  show "\<exists>x. answered_transactions st db query n (map_option (page_cursor_encode (request_kind query)) c) = Inr x"
    if "cursor_range c" for c n
    using answerable_loads [OF _ that, of st db query]
    by (auto simp: answered_transactions_def served_transactions_def map_ok_eq_Inr answerable_def)
  fix c n vs nxt
  assume "cursor_range c" "answered_transactions st db query n (map_option (page_cursor_encode (request_kind query)) c) = Inr (vs, nxt)"
  then show "map transaction_id vs = map (\<lambda>r. show_int (tr_id r)) (take (request_limit query)
        (rest_rows (unwrap_or (request_direction query) Asc) row_key c (answered_rows st db query)))
      \<and> nxt = (if request_limit query < length (rest_rows (unwrap_or (request_direction query) Asc) row_key c (answered_rows st db query))
          then Some (page_cursor_encode (request_kind query) (cursor_at (row_key
            (rest_rows (unwrap_or (request_direction query) Asc) row_key c (answered_rows st db query) ! (request_limit query - 1)))))
          else None)"
    using served_page [OF _ _ refl, of c st "\<lambda>_. db" query n vs nxt]
    by (cases "answerable st db query")
       (simp_all add: rows answered_transactions_def rest_rows_def order_by_def split: sort_direction.split)
qed (rule refl)

lemma distinct_order_by: "distinct (map g rows) \<Longrightarrow> distinct (map g (order_by d key rows))"
  by (cases d) (simp_all add: order_by_def distinct_map)

lemma show_int_inject: "show_int i = show_int j \<longleftrightarrow> i = j"
proof
  assume e: "show_int i = show_int j"
  define m where "m = max \<bar>i\<bar> \<bar>j\<bar>"
  have m: "- m \<le> i" "i \<le> m" "- m \<le> j" "j \<le> m" "- m \<le> 0" "0 \<le> m" by (auto simp: m_def)
  have "Inr i = parse_int (- m) m (show_int i)" by (rule parse_int_show_int [OF m(1,2,5,6), symmetric])
  also have "\<dots> = parse_int (- m) m (show_int j)" by (simp only: e)
  also have "\<dots> = Inr j" by (rule parse_int_show_int [OF m(3,4,5,6)])
  finally show "i = j" by simp
qed simp

section \<open>Properties\<close>


definition demo_tx :: "int \<Rightarrow> int \<Rightarrow> tx_table_row" where
  "demo_tx i t =
     \<lparr>tx_id = i, tx_block_id = 7, tx_index = i, tx_hash = ''AB'', tx_timestamp = t, tx_state_id = 1, tx_fee_raw = None,
      tx_script = None, tx_result = None, tx_debug_comment = None, tx_payload = None, tx_expiration = None,
      tx_gas_price_raw = None, tx_gas_limit_raw = None, tx_sender_id = None, tx_gas_payer_id = None, tx_gas_target_id = None,
      tx_carbon_type = None, tx_carbon_data = None\<rparr>"

definition demo_db :: "unit api_db" where
  "demo_db =
     \<lparr>db_chains = [\<lparr>chain_key = 1, chain_text = ''main'', chain_height = 5\<rparr>], db_states = [(1, ''Halt'')],
      db_blocks = [\<lparr>bl_id = 7, bl_chain_id = 1, bl_height = 5, bl_hash = ''CD'', bl_timestamp = 100, bl_protocol = None,
        bl_chain_address_id = None, bl_validator_address_id = None, bl_producer_address_id = None, bl_reward = None\<rparr>],
      db_addresses = [], db_transactions = [demo_tx 1 100, demo_tx 2 100, demo_tx 3 90], db_address_transactions = [],
      db_signatures = [], db_events = [], db_event_kinds = [], db_event_tokens = [], db_token_prices = []\<rparr>"

definition demo_query :: transaction_list_query where
  "demo_query =
     \<lparr>tq_limit = Some 2, tq_order_by = None, tq_order_direction = Some ''desc'', tq_hash = None, tq_block_height = None,
      tq_block_hash = None, tq_address = None, tq_state = None, tq_q = None, tq_chain = None, tq_date_greater = None,
      tq_date_less = None, tq_with_neighbors = None, tq_with_events = None, tq_with_event_data = None, tq_with_script = None,
      tq_with_nft = None, tq_with_fiat = None, tq_cursor = None\<rparr>"

definition demo_api :: "(unit, unit, unit) api_state" where
  "demo_api =
     \<lparr>st_lib = \<lparr>to_uppercase = id, json_text = (\<lambda>_. ''''), read_nft_metadata = (\<lambda>_. Inr ()), read_series = (\<lambda>_. Inr ()),
        f64_parse = (\<lambda>_. None), f64_pow10 = (\<lambda>_. ()), f64_div = (\<lambda>_ _. ()), f64_mul = (\<lambda>_ _. ()), f64_zero = (),
        f64_positive = (\<lambda>_. False), f64_nonzero = (\<lambda>_. False), f64_json = (\<lambda>_. JNull)\<rparr>,
      st_ilike = (\<lambda>s p. False), st_lower = to_ascii_lowercase, st_chain = ''main''\<rparr>"

lemma demo_db_ok: "api_db_ok demo_db"
  by (simp add: api_db_ok_def tx_row_ok_def demo_db_def demo_tx_def block_by_id_def i32_range_def i64_range_def)

lemma demo_request:
  "request_filter demo_api demo_db demo_query = Inr empty_filter" "request_order demo_query = Some TxDate"
  "request_direction demo_query = Some Desc" "tq_with_events demo_query \<noteq> Some 1"
  by (simp_all add: request_filter_def request_order_def request_direction_def demo_query_def empty_filter_def
      empty_to_none_def resolve_transaction_state_id_def resolve_optional_chain_def parse_optional_i64_def parse_optional_def
      transaction_order_by_from_api_param_def from_api_param_def to_ascii_lowercase_def ascii_lower_def)

lemma demo_rows: "map tr_id (order_by Desc row_key (request_rows demo_api demo_db demo_query)) = [2, 1, 3]"
proof -
  have "map tr_id (order_by Desc row_key (requested_rows demo_api demo_db None empty_filter TxDate False)) = [2, 1, 3]"
    by code_simp
  then show ?thesis by (simp add: request_rows_def demo_request) (simp add: demo_query_def empty_to_none_def)
qed


text \<open>C14.  While the database changes between the requests, a client that follows the cursors to the end still
  gets its transactions in order and none at the same position twice, each was selected at some request, and
  every transaction that was selected, unchanged, at every request is among them.\<close>
theorem transaction_paging_stable:
  assumes "\<forall>n. api_db_ok (dbs n)" "request_direction query = Some d"
    and "follow (\<lambda>n c. map_ok (\<lambda>r. (tl_transactions r, tl_next_cursor r)) (load_transactions st (dbs n) (query\<lparr>tq_cursor := c\<rparr>))) 0 None txs"
  shows "\<exists>rs. map transaction_id txs = map (\<lambda>r. show_int (tr_id r)) rs
    \<and> sorted_wrt (\<lambda>r s. precedes d (row_key r) (row_key s)) rs
    \<and> (\<forall>r \<in> set rs. \<exists>n. r \<in> set (request_rows st (dbs n) query))
    \<and> (\<forall>r. (\<forall>n. r \<in> set (request_rows st (dbs n) query)) \<longrightarrow> r \<in> set rs)"
proof -
  have eq: "served_transactions st dbs query =
      (\<lambda>n c. map_ok (\<lambda>r. (tl_transactions r, tl_next_cursor r)) (load_transactions st (dbs n) (query\<lparr>tq_cursor := c\<rparr>)))"
    and rows: "\<And>n. served_rows st (dbs n) query = request_rows st (dbs n) query"
    using assms(1) by (simp_all add: served_transactions_def served_rows_def fun_eq_iff)
  have "follow (served_transactions st dbs query) 0 None txs" using assms(3) by (simp only: eq)
  from tx_list.walk_sound [OF this, of None] obtain rs where rs: "map transaction_id txs = map (\<lambda>r. show_int (tr_id r)) rs"
      "sorted_wrt (\<lambda>r s. precedes d (row_key r) (row_key s)) rs"
      "\<forall>r \<in> set rs. \<exists>n. r \<in> set (request_rows st (dbs n) query)"
      "\<forall>r. (\<forall>n. r \<in> set (request_rows st (dbs n) query)) \<longrightarrow> r \<in> set rs"
    by (auto simp: rows assms(2) cursor_range_def)
  then show ?thesis by blast
qed

definition demo_growing :: "nat \<Rightarrow> unit api_db" where
  "demo_growing n = (if n = 0 then demo_db else demo_db\<lparr>db_transactions := db_transactions demo_db @ [demo_tx 4 95]\<rparr>)"

lemma demo_growing_ok: "\<forall>n. api_db_ok (demo_growing n)"
  by (simp add: demo_growing_def api_db_ok_def tx_row_ok_def demo_db_def demo_tx_def block_by_id_def i32_range_def i64_range_def)

lemma demo_growing_pages:
  "map_ok (\<lambda>r. (map transaction_id (tl_transactions r), tl_next_cursor r))
     (load_transactions demo_api (demo_growing 0) (demo_query\<lparr>tq_cursor := None\<rparr>)) = Inr ([''2'', ''1''], Some ''tx:100:1'')"
  "map_ok (\<lambda>r. (map transaction_id (tl_transactions r), tl_next_cursor r))
     (load_transactions demo_api (demo_growing 1) (demo_query\<lparr>tq_cursor := Some ''tx:100:1''\<rparr>)) = Inr ([''4'', ''3''], None)"
  by code_simp+

lemma demo_growing_follow:
  "\<exists>txs. follow (\<lambda>n c. map_ok (\<lambda>r. (tl_transactions r, tl_next_cursor r))
       (load_transactions demo_api (demo_growing n) (demo_query\<lparr>tq_cursor := c\<rparr>))) 0 None txs
     \<and> map transaction_id txs = [''2'', ''1'', ''4'', ''3'']"
proof -
  let ?load = "\<lambda>n c. map_ok (\<lambda>r. (tl_transactions r, tl_next_cursor r))
    (load_transactions demo_api (demo_growing n) (demo_query\<lparr>tq_cursor := c\<rparr>))"
  obtain vs where vs: "?load 0 None = Inr (vs, Some ''tx:100:1'')" "map transaction_id vs = [''2'', ''1'']"
    using demo_growing_pages(1) by (auto simp: map_ok_eq_Inr)
  obtain ws where ws: "?load 1 (Some ''tx:100:1'') = Inr (ws, None)" "map transaction_id ws = [''4'', ''3'']"
    using demo_growing_pages(2) by (auto simp: map_ok_eq_Inr)
  have "follow ?load (Suc 0) (Some ''tx:100:1'') ws" by (rule follow.last_page) (use ws(1) in simp)
  from follow.more_pages [of ?load, OF vs(1) this] vs(2) ws(2) show ?thesis by (intro exI [of _ "vs @ ws"]) simp
qed

theorem transaction_paging_stable_witness:
  "\<exists>(rs :: transaction_list_row list). map show_int [2, 1, 4, 3] = map (\<lambda>r. show_int (tr_id r)) rs
     \<and> sorted_wrt (\<lambda>r s. precedes Desc (row_key r) (row_key s)) rs"
proof -
  have ids: "map show_int [2, 1, 4, 3] = [''2'', ''1'', ''4'', ''3'']" by code_simp
  from demo_growing_follow show ?thesis
  proof (elim exE conjE)
    fix txs
    assume txs: "follow (\<lambda>n c. map_ok (\<lambda>r. (tl_transactions r, tl_next_cursor r))
        (load_transactions demo_api (demo_growing n) (demo_query\<lparr>tq_cursor := c\<rparr>))) 0 None txs"
      "map transaction_id txs = [''2'', ''1'', ''4'', ''3'']"
    show ?thesis
      using transaction_paging_stable [OF demo_growing_ok demo_request(3) txs(1)] unfolding ids txs(2)
      by (elim exE conjE) (intro exI conjI; assumption)
  qed
qed

section \<open>Ambiguous hashes\<close>

lemma set_transaction_occurrences:
  "(t, b) \<in> set (transaction_occurrences db chain hash) \<longleftrightarrow> t \<in> set (db_transactions db) \<and> tx_hash t = hash
     \<and> block_by_id db (tx_block_id t) = Some b
     \<and> (\<exists>c. find (\<lambda>c. chain_key c = bl_chain_id b) (db_chains db) = Some c \<and> chain_text c = chain)"
  by (auto simp: transaction_occurrences_def set_map_filter bind_eq_Some_conv split: if_splits)

lemma occurrence_found:
  assumes "api_db_ok db" "(t, b) \<in> set (transaction_occurrences db chain hash)"
  shows "\<exists>r. transaction_by_hash_block_index db chain hash (bl_height b) (tx_index t) = Some r \<and> tr_hash r = hash"
proof -
  from assms(2) obtain c where t: "t \<in> set (db_transactions db)" "tx_hash t = hash" "block_by_id db (tx_block_id t) = Some b"
      "find (\<lambda>c. chain_key c = bl_chain_id b) (db_chains db) = Some c" "chain_text c = chain"
    by (auto simp: set_transaction_occurrences)
  from t(1) assms(1) have "tx_row_ok db t" by (auto simp: api_db_ok_def list_all_iff)
  then obtain s where "map_of (db_states db) (tx_state_id t) = Some s" by (auto simp: tx_row_ok_def)
  with t obtain r where r: "transaction_select db True t = Some r" "tr_hash r = hash" "tr_chain_name r = chain"
      "tr_block_height r = bl_height b" "tr_index r = tx_index t"
    by (simp add: transaction_select_def)
  then have "r \<in> set (joined_transactions db True)" using t(1) by (auto simp: joined_transactions_def set_map_filter)
  with r have "transaction_by_hash_block_index db chain hash (bl_height b) (tx_index t) \<noteq> None"
    by (auto simp: transaction_by_hash_block_index_def find_None_iff)
  then show ?thesis by (auto simp: transaction_by_hash_block_index_def find_Some_iff)
qed

lemma collect_results_Inl: "collect_results rs = Inl e \<Longrightarrow> Inl e \<in> set rs"
  by (induction rs rule: collect_results.induct) (auto simp: result_eqs map_ok_def split: sum.splits)

lemma event_from_row_error: "event_from_row lib r tokens a b c = Inl e \<Longrightarrow> \<exists>m. e = Internal m"
  by (auto simp: event_from_row_def Let_def result_eqs json_opt_def map_ok_def map_err_def split: if_splits option.splits sum.splits)

lemma load_events_error:
  "load_events_by_transaction_ids lib db ids a b c = Inl e \<Longrightarrow> \<exists>m. e = Internal m"
  by (auto simp: load_events_by_transaction_ids_def Let_def map_ok_def split: if_splits sum.splits
      dest!: collect_results_Inl dest: event_from_row_error [OF sym])

lemma load_transaction_detail_error: "load_transaction_detail st db t = Inl e \<Longrightarrow> \<exists>m. e = Internal m"
  by (auto simp: load_transaction_detail_def load_transaction_events_def result_eqs parse_i32_id_def map_ok_def map_err_def
      split: sum.splits dest: load_events_error)


definition demo_matches :: "transaction_occurrence list" where
  "demo_matches = map (\<lambda>i. \<lparr>occ_transaction_id = show_int i, occ_hash = ''AB'', occ_block_hash = ''CD'', occ_block_height = ''5'',
     occ_chain = ''main'', occ_index = i, occ_date = (if i = 3 then ''90'' else ''100'')\<rparr>) [1, 2, 3]"

lemma demo_ambiguous: "transaction_by_hash demo_api demo_db ''AB'' None None = Inl (AmbiguousTransactionHash ''AB'' 3 demo_matches)"
proof -
  have "trim ''AB'' = ''AB''" by (simp add: trim_visible visible_ascii_def)
  moreover have "load_transaction_occurrences_by_hash demo_api demo_db ''AB'' = (3, demo_matches)" by code_simp
  ultimately show ?thesis by (simp add: transaction_by_hash_def normalized_required_path_def)
qed


end
