(* ===== verification/Block_Reads.thy ===== *)
theory Block_Reads
  imports Transaction_Reads
begin

text \<open>
  The block endpoints (\<open>src/crates/db/src/reads/blocks.rs\<close> and the handlers \<open>blocks\<close> and \<open>block_by_height\<close>) and
  the pages of a special resolution's calls (\<open>event_resolution_calls\<close>): lists paged by offset, as
  interpretations of \<open>offset_list\<close>.
\<close>

section \<open>Queries\<close>

datatype block_order_by = BlId | BlHeight | BlHash | BlDate

definition block_order_by_from_api_param :: "string option \<Rightarrow> block_order_by option" where
  "block_order_by_from_api_param v =
     (let s = unwrap_or v ''id''
      in if s = ''id'' then Some BlId else if s = ''height'' then Some BlHeight
         else if s = ''hash'' then Some BlHash else if s = ''date'' then Some BlDate else None)"

record block_filter =
  bf_chain_id :: int
  bf_id :: "string option"
  bf_id_height :: "int option"
  bf_hash :: "string option"
  bf_height :: "int option"
  bf_q_height :: "int option"
  bf_q_hash :: "string option"
  bf_date_less :: "int option"
  bf_date_greater :: "int option"

text \<open>A comparison with a parameter that is \<open>NULL\<close> does not hold.\<close>

definition block_matches :: "block_filter \<Rightarrow> block_table_row \<Rightarrow> bool" where
  "block_matches f b \<longleftrightarrow>
     bl_chain_id b = bf_chain_id f
     \<and> (bf_id f = None \<or> bf_id f = Some (bl_hash b) \<or> bf_id_height f = Some (bl_height b))
     \<and> (bf_hash f = None \<or> bf_hash f = Some (bl_hash b))
     \<and> (bf_height f = None \<or> bf_height f = Some (bl_height b))
     \<and> (bf_q_height f = None \<or> bf_q_height f = Some (bl_height b) \<or> bf_q_hash f = Some (bl_hash b))
     \<and> optional (bf_date_less f) (\<lambda>d. bl_timestamp b \<le> d)
     \<and> optional (bf_date_greater f) (\<lambda>d. bl_timestamp b \<ge> d)"

text \<open>Hashes are upper-case hexadecimal, where the order of the bytes is that of the collation.\<close>

definition order_blocks :: "block_order_by \<Rightarrow> sort_direction \<Rightarrow> block_table_row list \<Rightarrow> block_table_row list" where
  "order_blocks ord d rows =
     (case ord of
        BlId \<Rightarrow> order_by d (\<lambda>b. (bl_id b, bl_id b)) rows
      | BlHeight \<Rightarrow> order_by d (\<lambda>b. (bl_height b, bl_id b)) rows
      | BlHash \<Rightarrow> order_by d (\<lambda>b. (bl_hash b, bl_id b)) rows
      | BlDate \<Rightarrow> order_by d (\<lambda>b. (bl_timestamp b, bl_id b)) rows)"

definition list_blocks ::
    "'f api_db \<Rightarrow> block_filter \<Rightarrow> block_order_by \<Rightarrow> sort_direction \<Rightarrow> int \<Rightarrow> int \<Rightarrow> block_table_row list" where
  "list_blocks db f ord d limit offset =
     take (nat limit) (drop (nat offset) (order_blocks ord d (filter (block_matches f) (db_blocks db))))"

definition block_detail :: "'f api_db \<Rightarrow> int \<Rightarrow> int option \<Rightarrow> string option \<Rightarrow> block_table_row option" where
  "block_detail db chain_id height hash =
     find (\<lambda>b. bl_chain_id b = chain_id \<and> (height = Some (bl_height b) \<or> hash = Some (bl_hash b))) (db_blocks db)"

section \<open>Handlers\<close>

record ('n, 's) block_response =
  br_height :: string
  br_hash :: string
  br_previous_hash :: string
  br_protocol :: "int option"
  br_chain_address :: "string option"
  br_validator_address :: "string option"
  br_producer_address :: "string option"
  br_date :: string
  br_reward :: "string option"
  br_transaction_count :: int
  br_transactions :: "('n, 's) transaction_response list option"

definition previous_hash_column :: "'f api_db \<Rightarrow> block_table_row \<Rightarrow> string" where
  "previous_hash_column db b =
     (case find (\<lambda>p. bl_chain_id p = bl_chain_id b \<and> bl_height p = bl_height b - 1) (db_blocks db) of
        None \<Rightarrow> replicate 64 (CHR ''0'') | Some p \<Rightarrow> bl_hash p)"

definition block_from_row :: "'f api_db \<Rightarrow> block_table_row \<Rightarrow> ('n, 's) block_response" where
  "block_from_row db b =
     \<lparr>br_height = show_int (bl_height b), br_hash = bl_hash b, br_previous_hash = previous_hash_column db b,
      br_protocol = bl_protocol b, br_chain_address = map_option ad_address (address_by_id db (bl_chain_address_id b)),
      br_validator_address = map_option ad_address (address_by_id db (bl_validator_address_id b)),
      br_producer_address = map_option ad_address (address_by_id db (bl_producer_address_id b)),
      br_date = show_int (bl_timestamp b), br_reward = bl_reward b,
      br_transaction_count = int (length (filter (\<lambda>t. tx_block_id t = bl_id b) (db_transactions db))),
      br_transactions = None\<rparr>"

record block_list_query =
  bq_limit :: "int option"
  bq_cursor :: "string option"
  bq_order_by :: "string option"
  bq_order_direction :: "string option"
  bq_id :: "string option"
  bq_hash :: "string option"
  bq_height :: "string option"
  bq_q :: "string option"
  bq_chain :: "string option"
  bq_date_less :: "string option"
  bq_date_greater :: "string option"
  bq_with_transactions :: "int option"
  bq_with_events :: "int option"
  bq_with_event_data :: "int option"
  bq_with_script :: "int option"
  bq_with_nft :: "int option"
  bq_with_fiat :: "int option"

definition load_transactions_by_block_ids ::
    "('f, 'n, 's) api_state \<Rightarrow> 'f api_db \<Rightarrow> int list \<Rightarrow> bool \<Rightarrow> bool \<Rightarrow> bool \<Rightarrow> bool \<Rightarrow> bool
     \<Rightarrow> api_error + (int \<Rightarrow> ('n, 's) transaction_response list)" where
  "load_transactions_by_block_ids st db block_ids with_events with_event_data with_script with_nft with_fiat =
     (if block_ids = [] then Inr (\<lambda>_. [])
      else
        let rows = list_transactions_by_block_ids db block_ids with_script;
            txs = map transaction_from_row rows;
            txs = (if with_script then txs else map (\<lambda>t. t\<lparr>rs_script_raw := None\<rparr>) txs)
        in map_ok (\<lambda>txs. group_by_key (zip (map tr_block_id rows) txs))
             (if with_events then attach_events_to_transactions (st_lib st) db txs with_event_data with_nft with_fiat else Inr txs))"

fun take_block_groups ::
    "(int \<Rightarrow> ('n, 's) transaction_response list) \<Rightarrow> (block_table_row \<times> ('n, 's) block_response) list \<Rightarrow> ('n, 's) block_response list" where
  "take_block_groups grouped [] = []"
| "take_block_groups grouped ((b, r) # rest) =
     r\<lparr>br_transactions := Some (grouped (bl_id b))\<rparr> # take_block_groups (grouped(bl_id b := [])) rest"

definition normalize_block_id :: "(string \<Rightarrow> string) \<Rightarrow> string \<Rightarrow> string" where
  "normalize_block_id up v = up (trim v)"

definition parse_i64_ok :: "string \<Rightarrow> int option" where
  "parse_i64_ok s = (case parse_i64 s of Inl _ \<Rightarrow> None | Inr i \<Rightarrow> Some i)"

definition blocks ::
    "('f, 'n, 's) api_state \<Rightarrow> 'f api_db \<Rightarrow> block_list_query \<Rightarrow> api_error + ('n, 's) block_response list \<times> string option" where
  "blocks st db query =
     (let limit = clamp_limit (bq_limit query);
          up = to_uppercase (st_lib st)
      in and_then (offset_cursor_parse_optional (bq_cursor query)) (\<lambda>offset.
         and_then (resolve_chain_id_by_name db (query_chain (bq_chain query) (st_chain st))) (\<lambda>chain_id.
         and_then (parse_order_by block_order_by_from_api_param (empty_to_none (bq_order_by query))) (\<lambda>ord.
         and_then (parse_sort_direction (bq_order_direction query)) (\<lambda>direction.
         let blid = map_option (normalize_block_id up) (empty_to_none (bq_id query));
             hash = map_option up (empty_to_none (bq_hash query))
         in and_then (parse_optional_i64 (empty_to_none (bq_height query)) ''height'') (\<lambda>height.
         let q = empty_to_none (bq_q query);
             q_height = Option.bind q parse_i64_ok;
             q_hash = map_option up (filter_option (\<lambda>s. 64 \<le> length s) q)
         in and_then (parse_optional_i64 (empty_to_none (bq_date_less query)) ''date_less'') (\<lambda>date_less.
         and_then (parse_optional_i64 (empty_to_none (bq_date_greater query)) ''date_greater'') (\<lambda>date_greater.
         let f = \<lparr>bf_chain_id = chain_id, bf_id = blid, bf_id_height = Option.bind blid parse_i64_ok, bf_hash = hash,
                  bf_height = height, bf_q_height = q_height, bf_q_hash = q_hash, bf_date_less = date_less,
                  bf_date_greater = date_greater\<rparr>
         in and_then (trim_offset_rows (list_blocks db f ord direction (limit + 1) offset) limit offset) (\<lambda>(rows, next_cursor).
         let brs = map (block_from_row db) rows
         in if bq_with_transactions query = Some 1
            then map_ok (\<lambda>grouped. (take_block_groups grouped (zip rows brs), next_cursor))
                   (load_transactions_by_block_ids st db (map bl_id rows) (bq_with_events query = Some 1)
                     (bq_with_event_data query = Some 1) (bq_with_script query = Some 1) (bq_with_nft query = Some 1)
                     (bq_with_fiat query = Some 1))
            else Inr (brs, next_cursor))))))))))"

definition block_by_height ::
    "('f, 'n, 's) api_state \<Rightarrow> 'f api_db \<Rightarrow> string \<Rightarrow> api_error + ('n, 's) block_response" where
  "block_by_height st db v =
     (let block_id = normalize_block_id (to_uppercase (st_lib st)) v;
          height = parse_i64_ok block_id;
          hash = (if height = None then Some block_id else None)
      in and_then (resolve_chain_id_by_name db (st_chain st)) (\<lambda>chain_id.
         and_then (ok_or (NotFound (''block '' @ block_id @ '' was not found'')) (block_detail db chain_id height hash)) (\<lambda>b.
         Inr (block_from_row db b))))"

definition event_payload_by_id :: "'f api_db \<Rightarrow> int \<Rightarrow> json option" where
  "event_payload_by_id db i = Option.bind (find (\<lambda>e. ev_row_id e = i) (db_events db)) ev_payload_json"

record resolution_call_list =
  rc_total_results :: int
  rc_calls :: "json list"
  rc_next_cursor :: "string option"

definition stored_calls :: "json \<Rightarrow> json list option" where
  "stored_calls payload =
     Option.bind (Option.bind (json_get ''special_resolution_event'' payload) (json_get ''calls'')) json_as_array"

definition event_resolution_calls ::
    "'f api_db \<Rightarrow> int \<Rightarrow> int option \<Rightarrow> string option \<Rightarrow> api_error + resolution_call_list" where
  "event_resolution_calls db i limit cursor =
     (let limit = clamp_limit limit
      in and_then (offset_cursor_parse_optional cursor) (\<lambda>offset.
         and_then (ok_or (NotFound (''event '' @ show_int i @ '' has no stored payload'')) (event_payload_by_id db i)) (\<lambda>payload.
         and_then (ok_or (NotFound (''event '' @ show_int i @ '' is not a special resolution'')) (stored_calls payload)) (\<lambda>calls.
         let offset_index = nat offset;
             page = take (nat limit) (drop offset_index calls)
         in Inr \<lparr>rc_total_results = int (length calls), rc_calls = page,
                 rc_next_cursor = (if offset_index + length page < length calls
                   then Some (offset_cursor_encode (offset + int (length page))) else None)\<rparr>))))"

section \<open>A text query that is not a number\<close>

text \<open>The \<open>q\<close> parameter is meant to find a block by height or by hash.  The query applies it only when it is a
  number: a block hash given as \<open>q\<close> leaves the list unfiltered.\<close>

lemma block_matches_no_height: "bf_q_height f = None \<Longrightarrow> block_matches (f\<lparr>bf_q_hash := h\<rparr>) b = block_matches f b"
  by (simp add: block_matches_def)

theorem block_text_query_ignored:
  assumes "empty_to_none (bq_q query) = Some q" "parse_i64_ok q = None"
  shows "blocks st db query = blocks st db (query\<lparr>bq_q := None\<rparr>)"
proof -
  have none: "empty_to_none None = None" by (simp add: empty_to_none_def)
  have m: "block_matches \<lparr>bf_chain_id = c, bf_id = a, bf_id_height = i, bf_hash = h, bf_height = g, bf_q_height = None,
      bf_q_hash = x, bf_date_less = l, bf_date_greater = r\<rparr> =
    block_matches \<lparr>bf_chain_id = c, bf_id = a, bf_id_height = i, bf_hash = h, bf_height = g, bf_q_height = None,
      bf_q_hash = None, bf_date_less = l, bf_date_greater = r\<rparr>" for c a i h g x l r
    by (simp add: fun_eq_iff block_matches_def)
  show ?thesis
    by (simp add: blocks_def Let_def assms none list_blocks_def m [where x = "Some _"] cong: if_cong)
qed

section \<open>One answer is one page\<close>

lemma length_order_blocks [simp]: "length (order_blocks ord d rows) = length rows"
  by (cases ord) (simp_all add: order_blocks_def)

lemma trim_offset_page:
  fixes limit :: int
  assumes "1 \<le> limit"
  shows "trim_offset_rows (take (nat (limit + 1)) (drop offset rows)) limit (int offset) =
    Inr (take (nat limit) (drop offset rows),
      if nat limit < length rows - offset then Some (offset_cursor_encode (int (offset + nat limit))) else None)"
proof -
  have n: "nat (limit + 1) = Suc (nat limit)" "\<not> limit < 0" using assms by simp_all
  show ?thesis
    using n by (auto simp: trim_offset_rows_def usize_try_from_def Let_def min_def)
qed

definition block_request_filter ::
    "('f, 'n, 's) api_state \<Rightarrow> 'f api_db \<Rightarrow> block_list_query \<Rightarrow> api_error + block_filter" where
  "block_request_filter st db query =
     (let up = to_uppercase (st_lib st);
          blid = map_option (normalize_block_id up) (empty_to_none (bq_id query));
          q = empty_to_none (bq_q query)
      in and_then (resolve_chain_id_by_name db (query_chain (bq_chain query) (st_chain st))) (\<lambda>chain_id.
         and_then (parse_optional_i64 (empty_to_none (bq_height query)) ''height'') (\<lambda>height.
         and_then (parse_optional_i64 (empty_to_none (bq_date_less query)) ''date_less'') (\<lambda>date_less.
         and_then (parse_optional_i64 (empty_to_none (bq_date_greater query)) ''date_greater'') (\<lambda>date_greater.
         Inr \<lparr>bf_chain_id = chain_id, bf_id = blid, bf_id_height = Option.bind blid parse_i64_ok,
              bf_hash = map_option up (empty_to_none (bq_hash query)), bf_height = height,
              bf_q_height = Option.bind q parse_i64_ok, bf_q_hash = map_option up (filter_option (\<lambda>s. 64 \<le> length s) q),
              bf_date_less = date_less, bf_date_greater = date_greater\<rparr>)))))"

definition block_request_order :: "block_list_query \<Rightarrow> block_order_by option" where
  "block_request_order query = block_order_by_from_api_param (empty_to_none (bq_order_by query))"

definition block_request_direction :: "block_list_query \<Rightarrow> sort_direction option" where
  "block_request_direction query = from_api_param (bq_order_direction query)"

lemma blocks_page:
  assumes f: "block_request_filter st db query = Inr f" and ord: "block_request_order query = Some ord"
    and d: "block_request_direction query = Some d" and w: "bq_with_transactions query \<noteq> Some 1"
    and c: "offset_at c offset" "i64_range (int offset)"
    and R: "R = order_blocks ord d (filter (block_matches f) (db_blocks db))"
  shows "blocks st db (query\<lparr>bq_cursor := c\<rparr>) =
    Inr (map (block_from_row db) (take (nat (clamp_limit (bq_limit query))) (drop offset R)),
      if nat (clamp_limit (bq_limit query)) < length R - offset
      then Some (offset_cursor_encode (int (offset + nat (clamp_limit (bq_limit query))))) else None)"
proof -
  from f obtain chain_id height date_less date_greater where
    p: "resolve_chain_id_by_name db (query_chain (bq_chain query) (st_chain st)) = Inr chain_id"
      "parse_optional_i64 (empty_to_none (bq_height query)) ''height'' = Inr height"
      "parse_optional_i64 (empty_to_none (bq_date_less query)) ''date_less'' = Inr date_less"
      "parse_optional_i64 (empty_to_none (bq_date_greater query)) ''date_greater'' = Inr date_greater"
    by (auto simp: block_request_filter_def Let_def result_eqs)
  have o: "parse_order_by block_order_by_from_api_param (empty_to_none (bq_order_by query)) = Inr ord"
      "parse_sort_direction (bq_order_direction query) = Inr d"
    using ord d by (simp_all add: parse_order_by_def parse_sort_direction_def block_request_order_def block_request_direction_def)
  note t = trim_offset_page [OF clamp_limit_range(1), of "bq_limit query" offset]
  from f show ?thesis
    using w by (auto simp: blocks_def block_request_filter_def Let_def p o offset_at_parse [OF c] list_blocks_def t R)
qed

section \<open>Following the cursors\<close>

definition block_request_ok :: "('f, 'n, 's) api_state \<Rightarrow> 'f api_db \<Rightarrow> block_list_query \<Rightarrow> bool" where
  "block_request_ok st db query \<longleftrightarrow> \<not> isl (block_request_filter st db query) \<and> block_request_order query \<noteq> None
     \<and> block_request_direction query \<noteq> None \<and> bq_with_transactions query \<noteq> Some 1 \<and> i64_range (int (length (db_blocks db)))"

definition block_request_rows :: "('f, 'n, 's) api_state \<Rightarrow> 'f api_db \<Rightarrow> block_list_query \<Rightarrow> block_table_row list" where
  "block_request_rows st db query =
     (case (block_request_filter st db query, block_request_order query, block_request_direction query) of
        (Inr f, Some ord, Some d) \<Rightarrow>
          if block_request_ok st db query then order_blocks ord d (filter (block_matches f) (db_blocks db)) else []
      | _ \<Rightarrow> [])"

definition served_blocks ::
    "('f, 'n, 's) api_state \<Rightarrow> 'f api_db \<Rightarrow> block_list_query \<Rightarrow> nat \<Rightarrow> string option
     \<Rightarrow> api_error + ('n, 's) block_response list \<times> string option" where
  "served_blocks st db query n c =
     (if block_request_ok st db query then blocks st db (query\<lparr>bq_cursor := c\<rparr>) else Inr ([], None))"

lemma i64_range_le: "i64_range (int n) \<Longrightarrow> m \<le> n \<Longrightarrow> i64_range (int m)"
  by (simp add: i64_range_def)

interpretation block_list: offset_list "served_blocks st db query" "block_request_rows st db query" "\<lambda>b. b" "block_from_row db"
    "nat (clamp_limit (bq_limit query))"
  for st db query
proof unfold_locales
  show "0 < nat (clamp_limit (bq_limit query))" using clamp_limit_range(1) [of "bq_limit query"] by simp
  fix c offset n
  assume c: "offset_at c offset" and le: "offset \<le> length (block_request_rows st db query)"
  show "\<exists>vs. served_blocks st db query n c = Inr (vs,
        if nat (clamp_limit (bq_limit query)) < length (block_request_rows st db query) - offset
        then Some (offset_cursor_encode (int (offset + nat (clamp_limit (bq_limit query))))) else None)
      \<and> map (\<lambda>b. b) vs = map (block_from_row db) (take (nat (clamp_limit (bq_limit query))) (drop offset (block_request_rows st db query)))"
  proof (cases "block_request_ok st db query")
    case False
    then have "block_request_rows st db query = []"
      by (auto simp: block_request_rows_def split: sum.split option.split)
    with False show ?thesis by (simp add: served_blocks_def)
  next
    case True
    then obtain f ord d where f: "block_request_filter st db query = Inr f" "block_request_order query = Some ord"
        "block_request_direction query = Some d" and w: "bq_with_transactions query \<noteq> Some 1"
      by (auto simp: block_request_ok_def isl_def) (metis old.sum.exhaust)
    have R: "block_request_rows st db query = order_blocks ord d (filter (block_matches f) (db_blocks db))"
      using True f by (simp add: block_request_rows_def)
    have "offset \<le> length (db_blocks db)" using le unfolding R by (simp add: le_trans [OF _ length_filter_le])
    then have "i64_range (int offset)" using True i64_range_le unfolding block_request_ok_def by blast
    from blocks_page [OF f w c this R] True show ?thesis by (simp add: served_blocks_def)
  qed
qed

definition served_calls :: "'f api_db \<Rightarrow> int \<Rightarrow> int option \<Rightarrow> nat \<Rightarrow> string option \<Rightarrow> api_error + json list \<times> string option" where
  "served_calls db i limit n c =
     (case Option.bind (event_payload_by_id db i) stored_calls of
        None \<Rightarrow> Inr ([], None)
      | Some calls \<Rightarrow>
          if i64_range (int (length calls))
          then map_ok (\<lambda>r. (rc_calls r, rc_next_cursor r)) (event_resolution_calls db i limit c) else Inr ([], None))"

definition event_calls :: "'f api_db \<Rightarrow> int \<Rightarrow> json list" where
  "event_calls db i =
     (case Option.bind (event_payload_by_id db i) stored_calls of
        None \<Rightarrow> [] | Some calls \<Rightarrow> if i64_range (int (length calls)) then calls else [])"

interpretation call_list: offset_list "served_calls db i limit" "event_calls db i" "\<lambda>j. j" "\<lambda>j. j" "nat (clamp_limit limit)"
  for db i limit
proof unfold_locales
  show "0 < nat (clamp_limit limit)" using clamp_limit_range(1) [of limit] by simp
  fix c offset n
  assume c: "offset_at c offset" and le: "offset \<le> length (event_calls db i)"
  show "\<exists>vs. served_calls db i limit n c = Inr (vs, if nat (clamp_limit limit) < length (event_calls db i) - offset
        then Some (offset_cursor_encode (int (offset + nat (clamp_limit limit)))) else None)
      \<and> map (\<lambda>j. j) vs = map (\<lambda>j. j) (take (nat (clamp_limit limit)) (drop offset (event_calls db i)))"
  proof (cases "\<exists>calls. Option.bind (event_payload_by_id db i) stored_calls = Some calls \<and> i64_range (int (length calls))")
    case False
    then show ?thesis by (auto simp: served_calls_def event_calls_def split: option.split)
  next
    case True
    then obtain payload calls where calls: "event_payload_by_id db i = Some payload" "stored_calls payload = Some calls"
        "i64_range (int (length calls))" by (auto simp: bind_eq_Some_conv)
    then have R: "event_calls db i = calls" by (simp add: event_calls_def)
    have "i64_range (int offset)" using le calls(3) i64_range_le unfolding R by blast
    note parsed = offset_at_parse [OF c this]
    let ?l = "nat (clamp_limit limit)"
    have "map_ok (\<lambda>r. (rc_calls r, rc_next_cursor r)) (event_resolution_calls db i limit c) =
        Inr (take ?l (drop offset calls), if offset + length (take ?l (drop offset calls)) < length calls
          then Some (offset_cursor_encode (int offset + int (length (take ?l (drop offset calls))))) else None)"
      by (simp add: event_resolution_calls_def Let_def parsed calls del: length_take)
    moreover have "offset + length (take ?l (drop offset calls)) < length calls \<longleftrightarrow> ?l < length calls - offset" by auto
    moreover have "length (take ?l (drop offset calls)) = ?l" if "?l < length calls - offset" using that by simp
    ultimately show ?thesis using calls by (simp add: served_calls_def R del: length_take)
  qed
qed

section \<open>Properties\<close>

text \<open>C28.  The arguments that event answers leave out are all available: following the cursors of a special
  resolution's calls ends with exactly the stored calls, in order, whatever the page size, and every page
  reports their number.\<close>
theorem resolution_calls_complete:
  assumes "event_payload_by_id db i = Some payload" "stored_calls payload = Some calls" "i64_range (int (length calls))"
  shows "follow (\<lambda>n c. map_ok (\<lambda>r. (rc_calls r, rc_next_cursor r)) (event_resolution_calls db i limit c)) 0 None calls
    \<and> (\<forall>c r. event_resolution_calls db i limit c = Inr r \<longrightarrow>
         rc_total_results r = int (length calls) \<and> length (rc_calls r) \<le> 100)"
proof
  have eq: "served_calls db i limit = (\<lambda>n c. map_ok (\<lambda>r. (rc_calls r, rc_next_cursor r)) (event_resolution_calls db i limit c))"
    using assms by (simp add: served_calls_def fun_eq_iff)
  have "event_calls db i = calls" using assms by (simp add: event_calls_def)
  with call_list.walk_all [of None 0 db i limit 0]
  show "follow (\<lambda>n c. map_ok (\<lambda>r. (rc_calls r, rc_next_cursor r)) (event_resolution_calls db i limit c)) 0 None calls"
    by (auto simp: offset_at_def eq)
  show "\<forall>c r. event_resolution_calls db i limit c = Inr r \<longrightarrow> rc_total_results r = int (length calls) \<and> length (rc_calls r) \<le> 100"
    using assms(1,2) clamp_limit_range(2) [of limit] by (auto simp: event_resolution_calls_def Let_def result_eqs)
qed

text \<open>Following the cursors of the block list returns every selected block exactly once, in the requested
  order, whatever the page size, on a database that does not change meanwhile.\<close>
theorem block_paging_complete:
  assumes "block_request_filter st db query = Inr f" "block_request_order query = Some ord"
    and "block_request_direction query = Some d" "bq_with_transactions query \<noteq> Some 1" "i64_range (int (length (db_blocks db)))"
  shows "follow (\<lambda>n c. blocks st db (query\<lparr>bq_cursor := c\<rparr>)) 0 None
    (map (block_from_row db) (order_blocks ord d (filter (block_matches f) (db_blocks db))))"
proof -
  have ok: "block_request_ok st db query" using assms by (simp add: block_request_ok_def)
  then have eq: "served_blocks st db query = (\<lambda>n c. blocks st db (query\<lparr>bq_cursor := c\<rparr>))"
    by (simp add: served_blocks_def fun_eq_iff)
  have "block_request_rows st db query = order_blocks ord d (filter (block_matches f) (db_blocks db))"
    using assms ok by (simp add: block_request_rows_def)
  with block_list.walk_all [of None 0 st db query 0] show ?thesis by (auto simp: offset_at_def eq)
qed

section \<open>Witnesses\<close>

definition demo_block :: "int \<Rightarrow> int \<Rightarrow> block_table_row" where
  "demo_block i h =
     \<lparr>bl_id = i, bl_chain_id = 1, bl_height = h, bl_hash = ''AB'', bl_timestamp = 100, bl_protocol = None, bl_chain_address_id = None,
      bl_validator_address_id = None, bl_producer_address_id = None, bl_reward = None\<rparr>"

definition demo_calls :: "json list" where
  "demo_calls = [JObject [(''method'', JString ''mint'')], JObject [(''method'', JString ''burn'')], JObject []]"

definition demo_payload :: json where
  "demo_payload = JObject [(''special_resolution_event'', JObject [(''calls'', JArray demo_calls)])]"

definition demo_event :: event_list_row where
  "demo_event =
     \<lparr>ev_row_id = 9, ev_transaction_id = 1, ev_index = 1, ev_source = ''legacy'', ev_chain_name = ''main'', ev_timestamp = 100,
      ev_block_hash = ''AB'', ev_transaction_hash = ''CD'', ev_kind = ''SpecialResolution'', ev_name = None, ev_address = None,
      ev_address_name = None, ev_contract_hash = None, ev_contract_name = None, ev_contract_symbol = None, ev_token_id = None,
      ev_payload_json = Some demo_payload, ev_raw_data = None, ev_nft_metadata_json = None, ev_series_json = None, ev_sort_value = 9,
      ev_chain_id = 1, ev_kind_id = 4, ev_block_height = 1, ev_address_id = None, ev_target_address_id = None,
      ev_target_address = None, ev_nft_name = None, ev_nft_description = None\<rparr>"

definition demo_block_db :: "unit api_db" where
  "demo_block_db =
     \<lparr>db_chains = [\<lparr>chain_key = 1, chain_text = ''main'', chain_height = 3\<rparr>], db_states = [],
      db_blocks = [demo_block 11 1, demo_block 12 2, demo_block 13 3], db_addresses = [], db_transactions = [],
      db_address_transactions = [], db_signatures = [], db_events = [demo_event], db_event_kinds = [], db_event_tokens = [], db_token_prices = []\<rparr>"

lemma demo_event_calls:
  "event_payload_by_id demo_block_db 9 = Some demo_payload" "stored_calls demo_payload = Some demo_calls"
  "i64_range (int (length demo_calls))"
  by (simp_all add: event_payload_by_id_def demo_block_db_def demo_event_def stored_calls_def demo_payload_def
      demo_calls_def i64_range_def)

theorem resolution_calls_complete_witness:
  "follow (\<lambda>n c. map_ok (\<lambda>r. (rc_calls r, rc_next_cursor r)) (event_resolution_calls demo_block_db 9 (Some 2) c)) 0 None demo_calls"
  using resolution_calls_complete [OF demo_event_calls] by blast

definition demo_block_query :: block_list_query where
  "demo_block_query =
     \<lparr>bq_limit = Some 2, bq_cursor = None, bq_order_by = Some ''height'', bq_order_direction = Some ''desc'', bq_id = None,
      bq_hash = None, bq_height = None, bq_q = None, bq_chain = Some ''main'', bq_date_less = None, bq_date_greater = None,
      bq_with_transactions = None, bq_with_events = None, bq_with_event_data = None, bq_with_script = None, bq_with_nft = None,
      bq_with_fiat = None\<rparr>"

definition demo_block_api :: "(unit, unit, unit) api_state" where
  "demo_block_api =
     \<lparr>st_lib = \<lparr>to_uppercase = id, json_text = (\<lambda>_. ''''), read_nft_metadata = (\<lambda>_. Inr ()), read_series = (\<lambda>_. Inr ()),
        f64_parse = (\<lambda>_. None), f64_pow10 = (\<lambda>_. ()), f64_div = (\<lambda>_ _. ()), f64_mul = (\<lambda>_ _. ()), f64_zero = (),
        f64_positive = (\<lambda>_. False), f64_nonzero = (\<lambda>_. False), f64_json = (\<lambda>_. JNull)\<rparr>,
      st_ilike = (\<lambda>s p. False), st_lower = to_ascii_lowercase, st_chain = ''main''\<rparr>"

definition demo_block_filter :: block_filter where
  "demo_block_filter =
     \<lparr>bf_chain_id = 1, bf_id = None, bf_id_height = None, bf_hash = None, bf_height = None, bf_q_height = None, bf_q_hash = None,
      bf_date_less = None, bf_date_greater = None\<rparr>"

lemma demo_block_request:
  "block_request_filter demo_block_api demo_block_db demo_block_query = Inr demo_block_filter"
  "block_request_order demo_block_query = Some BlHeight" "block_request_direction demo_block_query = Some Desc"
  "bq_with_transactions demo_block_query \<noteq> Some 1" "i64_range (int (length (db_blocks demo_block_db)))"
  by code_simp+

theorem block_paging_complete_witness:
  "follow (\<lambda>n c. blocks demo_block_api demo_block_db (demo_block_query\<lparr>bq_cursor := c\<rparr>)) 0 None
     (map (block_from_row demo_block_db) [demo_block 13 3, demo_block 12 2, demo_block 11 1])"
proof -
  have "order_blocks BlHeight Desc (filter (block_matches demo_block_filter) (db_blocks demo_block_db)) =
      [demo_block 13 3, demo_block 12 2, demo_block 11 1]" by code_simp
  then show ?thesis using block_paging_complete [OF demo_block_request] by (simp only:)
qed

end
