(* ===== verification/Event_Reads.thy ===== *)
theory Event_Reads
  imports Transaction_Paging
begin

text \<open>
  The event list endpoint (\<open>src/crates/db/src/reads/events.rs\<close>, the lookups of \<open>event_kinds.rs\<close> and
  \<open>load_events\<close> of the handlers), over the joined event rows, with its own interpretation of
  \<open>keyset_list\<close>.
\<close>

section \<open>Queries\<close>

datatype event_order_by = EvId | EvDate | EvBlockHeight

definition event_order_by_from_api_param :: "string option \<Rightarrow> event_order_by option" where
  "event_order_by_from_api_param v =
     (let s = unwrap_or v ''id''
      in if s = ''id'' then Some EvId else if s = ''date'' then Some EvDate
         else if s = ''block_height'' then Some EvBlockHeight else None)"

fun ev_column :: "event_order_by \<Rightarrow> event_list_row \<Rightarrow> int" where
  "ev_column EvId r = ev_row_id r"
| "ev_column EvDate r = ev_timestamp r"
| "ev_column EvBlockHeight r = ev_block_height r"

record event_page =
  ep_order_by :: event_order_by
  ep_direction :: sort_direction
  ep_cursor_sort_value :: "int option"
  ep_cursor_id :: "int option"
  ep_limit :: int

record event_filter =
  ef_transaction_hash :: "string option"
  ef_block_height :: "int option"
  ef_event_kind_id :: "int option"
  ef_contract :: "string option"
  ef_q :: "string option"
  ef_event_id :: "int option"
  ef_token_id :: "string option"
  ef_block_hash :: "string option"
  ef_date_less :: "int option"
  ef_date_greater :: "int option"
  ef_date_day :: "int option"
  ef_event_kind_partial_ids :: "int list option"
  ef_nft_name_partial :: "string option"
  ef_nft_description_partial :: "string option"
  ef_address_partial :: "string option"
  ef_chain_id :: "int option"

definition event_q_forms :: "string option \<Rightarrow> string option \<times> int option" where
  "event_q_forms q =
     (map_option contains_pattern q, Option.bind q (\<lambda>s. case parse_i64 s of Inl _ \<Rightarrow> None | Inr i \<Rightarrow> Some i))"

definition event_kind_id_predicate :: "int option \<Rightarrow> event_list_row \<Rightarrow> bool" where
  "event_kind_id_predicate kind_id r = optional kind_id (\<lambda>k. ev_kind_id r = k)"

definition event_kind_predicate :: "int list option \<Rightarrow> event_list_row \<Rightarrow> bool" where
  "event_kind_predicate ids r = optional ids (\<lambda>ids. ev_kind_id r \<in> set ids)"

text \<open>A match on a column that is \<open>NULL\<close> does not hold.\<close>

definition like_column :: "(string \<Rightarrow> string \<Rightarrow> bool) \<Rightarrow> string option \<Rightarrow> string \<Rightarrow> bool" where
  "like_column ilike column pattern = (case column of None \<Rightarrow> False | Some s \<Rightarrow> ilike s pattern)"

text \<open>The texts that \<open>q\<close> is matched against; the address-scoped list adds the target address.\<close>

definition q_columns :: "bool \<Rightarrow> event_list_row \<Rightarrow> string option list" where
  "q_columns scoped r =
     [Some (ev_transaction_hash r), Some (ev_block_hash r), Some (ev_kind r), ev_address r, ev_address_name r,
      ev_contract_hash r, ev_contract_name r, ev_contract_symbol r, ev_token_id r]
     @ (if scoped then [ev_target_address r] else [])"

text \<open>The filters that both list variants share.  PostgreSQL refuses a \<open>date_day\<close> within a day of the largest
  64-bit integer; integers are unbounded here.\<close>

definition event_matches :: "(string \<Rightarrow> string \<Rightarrow> bool) \<Rightarrow> bool \<Rightarrow> event_filter \<Rightarrow> event_list_row \<Rightarrow> bool" where
  "event_matches ilike scoped f r =
     (let (q_like, q_height) = event_q_forms (ef_q f)
      in event_kind_id_predicate (ef_event_kind_id f) r
       \<and> event_kind_predicate (ef_event_kind_partial_ids f) r
       \<and> optional (ef_transaction_hash f) (\<lambda>h. ev_transaction_hash r = h)
       \<and> optional (ef_block_height f) (\<lambda>h. ev_block_height r = h)
       \<and> optional (ef_contract f) (\<lambda>c. Some c \<in> set [ev_contract_hash r, ev_contract_name r, ev_contract_symbol r])
       \<and> optional (ef_event_id f) (\<lambda>i. ev_row_id r = i)
       \<and> optional q_like (\<lambda>p. list_ex (\<lambda>column. like_column ilike column p) (q_columns scoped r) \<or> q_height = Some (ev_block_height r))
       \<and> optional (ef_token_id f) (\<lambda>t. ev_token_id r = Some t)
       \<and> optional (ef_block_hash f) (\<lambda>h. ev_block_hash r = h)
       \<and> optional (ef_date_less f) (\<lambda>d. ev_timestamp r \<le> d)
       \<and> optional (ef_date_greater f) (\<lambda>d. ev_timestamp r \<ge> d)
       \<and> optional (ef_date_day f) (\<lambda>d. d \<le> ev_timestamp r \<and> ev_timestamp r < d + 86400)
       \<and> optional (ef_nft_name_partial f) (like_column ilike (ev_nft_name r))
       \<and> optional (ef_nft_description_partial f) (like_column ilike (ev_nft_description r))
       \<and> optional (ef_address_partial f) (\<lambda>p. like_column ilike (ev_address r) p \<or> like_column ilike (ev_address_name r) p))"

definition event_row_key :: "event_list_row \<Rightarrow> int \<times> int" where
  "event_row_key r = (ev_sort_value r, ev_row_id r)"

definition event_payload_json_column :: "bool \<Rightarrow> event_list_row \<Rightarrow> event_list_row" where
  "event_payload_json_column with_event_data r = (if with_event_data then r else r\<lparr>ev_payload_json := None\<rparr>)"

definition event_list_projection :: "event_order_by \<Rightarrow> bool \<Rightarrow> event_list_row \<Rightarrow> event_list_row" where
  "event_list_projection ord with_event_data r = event_payload_json_column with_event_data (r\<lparr>ev_sort_value := ev_column ord r\<rparr>)"

definition global_events ::
    "'f api_db \<Rightarrow> (string \<Rightarrow> string \<Rightarrow> bool) \<Rightarrow> int option \<Rightarrow> event_filter \<Rightarrow> event_order_by \<Rightarrow> bool \<Rightarrow> event_list_row list" where
  "global_events db ilike chain_id f ord with_event_data =
     map (event_list_projection ord with_event_data)
       (filter (\<lambda>r. optional chain_id (\<lambda>c. ev_chain_id r = c) \<and> event_matches ilike False f r) (db_events db))"

definition list_events_global ::
    "'f api_db \<Rightarrow> (string \<Rightarrow> string \<Rightarrow> bool) \<Rightarrow> int option \<Rightarrow> event_filter \<Rightarrow> event_page \<Rightarrow> bool \<Rightarrow> event_list_row list" where
  "list_events_global db ilike chain_id f page with_event_data =
     seek_page (ep_direction page) event_row_key (ep_cursor_sort_value page) (ep_cursor_id page) (ep_limit page + 1)
       (global_events db ilike chain_id f (ep_order_by page) with_event_data)"

definition address_events ::
    "'f api_db \<Rightarrow> (string \<Rightarrow> string \<Rightarrow> bool) \<Rightarrow> int \<Rightarrow> event_filter \<Rightarrow> event_order_by \<Rightarrow> bool \<Rightarrow> event_list_row list" where
  "address_events db ilike address_id f ord with_event_data =
     map (event_list_projection ord with_event_data)
       (filter (\<lambda>r. (ev_address_id r = Some address_id \<or> ev_target_address_id r = Some address_id)
           \<and> optional (ef_chain_id f) (\<lambda>c. ev_chain_id r = c) \<and> event_matches ilike True f r) (db_events db))"

definition list_events_by_address ::
    "'f api_db \<Rightarrow> (string \<Rightarrow> string \<Rightarrow> bool) \<Rightarrow> int \<Rightarrow> event_filter \<Rightarrow> event_page \<Rightarrow> bool \<Rightarrow> event_list_row list" where
  "list_events_by_address db ilike address_id f page with_event_data =
     seek_page (ep_direction page) event_row_key (ep_cursor_sort_value page) (ep_cursor_id page) (ep_limit page + 1)
       (address_events db ilike address_id f (ep_order_by page) with_event_data)"

definition event_kind_id_by_name :: "'f api_db \<Rightarrow> string \<Rightarrow> int option" where
  "event_kind_id_by_name db name = map_option fst (find (\<lambda>k. snd k = name) (db_event_kinds db))"

definition event_kind_ids_by_name_like :: "'f api_db \<Rightarrow> (string \<Rightarrow> string \<Rightarrow> bool) \<Rightarrow> string \<Rightarrow> int list" where
  "event_kind_ids_by_name_like db ilike pattern = map fst (filter (\<lambda>k. ilike (snd k) pattern) (db_event_kinds db))"

section \<open>The handler\<close>

definition events_from_rows ::
    "('f, 'n, 's) api_lib \<Rightarrow> 'f api_db \<Rightarrow> event_list_row list \<Rightarrow> bool \<Rightarrow> bool \<Rightarrow> bool \<Rightarrow> bool
     \<Rightarrow> api_error + ('n, 's) event_response list" where
  "events_from_rows lib db rows with_event_data with_metadata with_series with_fiat =
     (let tokens = load_event_tokens_by_symbols (to_uppercase lib) (db_event_tokens db)
            (collect_event_token_symbols (to_uppercase lib) rows)
      in map_ok (\<lambda>events. attach_fiat_to_market_events lib db events with_fiat)
           (collect_results (map (\<lambda>r. event_from_row lib r tokens with_event_data with_metadata with_series) rows)))"

record event_list_query =
  eq_limit :: "int option"
  eq_order_by :: "string option"
  eq_order_direction :: "string option"
  eq_event_id :: "int option"
  eq_transaction_hash :: "string option"
  eq_block_height :: "int option"
  eq_event_kind :: "string option"
  eq_event_source :: "string option"
  eq_address :: "string option"
  eq_contract :: "string option"
  eq_q :: "string option"
  eq_with_event_data :: "int option"
  eq_token_id :: "string option"
  eq_block_hash :: "string option"
  eq_date_less :: "string option"
  eq_date_greater :: "string option"
  eq_date_day :: "string option"
  eq_event_kind_partial :: "string option"
  eq_nft_name_partial :: "string option"
  eq_nft_description_partial :: "string option"
  eq_address_partial :: "string option"
  eq_chain :: "string option"
  eq_with_metadata :: "int option"
  eq_with_series :: "int option"
  eq_with_fiat :: "int option"
  eq_cursor :: "string option"

definition select_events ::
    "('f, 'n, 's) api_state \<Rightarrow> 'f api_db \<Rightarrow> string option \<Rightarrow> int option \<Rightarrow> event_filter \<Rightarrow> event_page \<Rightarrow> bool \<Rightarrow> event_list_row list" where
  "select_events st db address chain_id f page with_event_data =
     (case address of
        None \<Rightarrow> list_events_global db (st_ilike st) chain_id f page with_event_data
      | Some a \<Rightarrow>
          (case address_id_by_address db a of
             None \<Rightarrow> []
           | Some address_id \<Rightarrow> list_events_by_address db (st_ilike st) address_id f page with_event_data))"

definition load_events ::
    "('f, 'n, 's) api_state \<Rightarrow> 'f api_db \<Rightarrow> event_list_query \<Rightarrow> api_error + ('n, 's) event_response list \<times> string option" where
  "load_events st db query =
     (let limit = clamp_limit (eq_limit query)
      in and_then (page_cursor_parse_optional (eq_cursor query) ''event'') (\<lambda>cursor.
         let event_kind = empty_to_none (eq_event_kind query);
             event_source = empty_to_none (eq_event_source query)
         in and_then (parse_optional_i64 (empty_to_none (eq_date_less query)) ''date_less'') (\<lambda>date_less.
         and_then (parse_optional_i64 (empty_to_none (eq_date_greater query)) ''date_greater'') (\<lambda>date_greater.
         and_then (parse_optional_i64 (empty_to_none (eq_date_day query)) ''date_day'') (\<lambda>date_day.
         and_then (resolve_optional_chain db (empty_to_none (eq_chain query))) (\<lambda>chain_id.
         and_then (parse_order_by event_order_by_from_api_param (empty_to_none (eq_order_by query))) (\<lambda>ord.
         and_then (parse_sort_direction (eq_order_direction query)) (\<lambda>direction.
         let with_event_data = (eq_with_event_data query = Some 1);
             event_kind_id = Option.bind event_kind (event_kind_id_by_name db)
         in if event_kind \<noteq> None \<and> event_kind_id = None then Inr ([], None)
            else if event_source \<noteq> None \<and> event_source \<noteq> Some ''legacy'' then Inr ([], None)
            else
              let f = \<lparr>ef_transaction_hash = empty_to_none (eq_transaction_hash query), ef_block_height = eq_block_height query,
                       ef_event_kind_id = event_kind_id, ef_contract = empty_to_none (eq_contract query),
                       ef_q = empty_to_none (eq_q query), ef_event_id = eq_event_id query,
                       ef_token_id = empty_to_none (eq_token_id query), ef_block_hash = empty_to_none (eq_block_hash query),
                       ef_date_less = date_less, ef_date_greater = date_greater, ef_date_day = date_day,
                       ef_event_kind_partial_ids = map_option (\<lambda>s. event_kind_ids_by_name_like db (st_ilike st) (contains_pattern s))
                         (empty_to_none (eq_event_kind_partial query)),
                       ef_nft_name_partial = map_option contains_pattern (empty_to_none (eq_nft_name_partial query)),
                       ef_nft_description_partial = map_option contains_pattern (empty_to_none (eq_nft_description_partial query)),
                       ef_address_partial = map_option contains_pattern (empty_to_none (eq_address_partial query)),
                       ef_chain_id = chain_id\<rparr>;
                  page = \<lparr>ep_order_by = ord, ep_direction = direction, ep_cursor_sort_value = map_option sort_value cursor,
                          ep_cursor_id = map_option cursor_row cursor, ep_limit = limit\<rparr>
              in and_then (trim_page_rows event_row_key
                     (select_events st db (empty_to_none (eq_address query)) chain_id f page with_event_data) limit ''event'')
                   (\<lambda>(rows, next_cursor).
                 map_ok (\<lambda>events. (events, next_cursor))
                   (events_from_rows (st_lib st) db rows with_event_data (eq_with_metadata query = Some 1)
                     (eq_with_series query = Some 1) (eq_with_fiat query = Some 1)))))))))))"

section \<open>The rows a request asks for\<close>

definition event_db_ok :: "'f api_db \<Rightarrow> bool" where
  "event_db_ok db \<longleftrightarrow> distinct (map ev_row_id (db_events db))
     \<and> list_all (\<lambda>r. i32_range (ev_row_id r) \<and> i64_range (ev_timestamp r) \<and> i64_range (ev_block_height r)) (db_events db)"

text \<open>The filter of a request; none when the request names an unknown kind or a source without events.\<close>

definition event_request ::
    "('f, 'n, 's) api_state \<Rightarrow> 'f api_db \<Rightarrow> event_list_query \<Rightarrow> api_error + event_filter option" where
  "event_request st db query =
     (let event_kind = empty_to_none (eq_event_kind query);
          event_source = empty_to_none (eq_event_source query)
      in and_then (parse_optional_i64 (empty_to_none (eq_date_less query)) ''date_less'') (\<lambda>date_less.
         and_then (parse_optional_i64 (empty_to_none (eq_date_greater query)) ''date_greater'') (\<lambda>date_greater.
         and_then (parse_optional_i64 (empty_to_none (eq_date_day query)) ''date_day'') (\<lambda>date_day.
         and_then (resolve_optional_chain db (empty_to_none (eq_chain query))) (\<lambda>chain_id.
         let event_kind_id = Option.bind event_kind (event_kind_id_by_name db)
         in Inr (if event_kind \<noteq> None \<and> event_kind_id = None \<or> event_source \<noteq> None \<and> event_source \<noteq> Some ''legacy'' then None
              else Some \<lparr>ef_transaction_hash = empty_to_none (eq_transaction_hash query), ef_block_height = eq_block_height query,
                       ef_event_kind_id = event_kind_id, ef_contract = empty_to_none (eq_contract query),
                       ef_q = empty_to_none (eq_q query), ef_event_id = eq_event_id query,
                       ef_token_id = empty_to_none (eq_token_id query), ef_block_hash = empty_to_none (eq_block_hash query),
                       ef_date_less = date_less, ef_date_greater = date_greater, ef_date_day = date_day,
                       ef_event_kind_partial_ids = map_option (\<lambda>s. event_kind_ids_by_name_like db (st_ilike st) (contains_pattern s))
                         (empty_to_none (eq_event_kind_partial query)),
                       ef_nft_name_partial = map_option contains_pattern (empty_to_none (eq_nft_name_partial query)),
                       ef_nft_description_partial = map_option contains_pattern (empty_to_none (eq_nft_description_partial query)),
                       ef_address_partial = map_option contains_pattern (empty_to_none (eq_address_partial query)),
                       ef_chain_id = chain_id\<rparr>))))))"

definition event_request_direction :: "event_list_query \<Rightarrow> sort_direction option" where
  "event_request_direction query = from_api_param (eq_order_direction query)"

definition requested_events ::
    "('f, 'n, 's) api_state \<Rightarrow> 'f api_db \<Rightarrow> string option \<Rightarrow> event_filter \<Rightarrow> event_order_by \<Rightarrow> bool \<Rightarrow> event_list_row list" where
  "requested_events st db address f ord with_event_data =
     (case address of
        None \<Rightarrow> global_events db (st_ilike st) (ef_chain_id f) f ord with_event_data
      | Some a \<Rightarrow>
          (case address_id_by_address db a of
             None \<Rightarrow> [] | Some i \<Rightarrow> address_events db (st_ilike st) i f ord with_event_data))"

definition event_request_rows ::
    "('f, 'n, 's) api_state \<Rightarrow> 'f api_db \<Rightarrow> event_list_query \<Rightarrow> event_list_row list" where
  "event_request_rows st db query =
     (case (event_request st db query, event_order_by_from_api_param (empty_to_none (eq_order_by query))) of
        (Inr (Some f), Some ord) \<Rightarrow> requested_events st db (empty_to_none (eq_address query)) f ord (eq_with_event_data query = Some 1)
      | _ \<Rightarrow> [])"

lemma event_projection_id [simp]: "ev_row_id (event_list_projection ord w r) = ev_row_id r"
    "ev_sort_value (event_list_projection ord w r) = ev_column ord r"
  by (simp_all add: event_list_projection_def event_payload_json_column_def)

definition event_row_ok :: "event_list_row \<Rightarrow> bool" where
  "event_row_ok r \<longleftrightarrow> i32_range (ev_row_id r) \<and> i64_range (ev_sort_value r)"

lemma i32_i64: "i32_range i \<Longrightarrow> i64_range i"
  by (simp add: i32_range_def i64_range_def)

lemma projected_events_ok:
  assumes "event_db_ok db"
  shows "distinct (map ev_row_id (map (event_list_projection ord w) (filter P (db_events db))))
    \<and> list_all event_row_ok (map (event_list_projection ord w) (filter P (db_events db)))"
proof
  have "distinct (map ev_row_id (filter P (db_events db)))"
    using assms by (intro distinct_map_filter) (simp add: event_db_ok_def)
  then show "distinct (map ev_row_id (map (event_list_projection ord w) (filter P (db_events db))))" by (simp add: comp_def)
  show "list_all event_row_ok (map (event_list_projection ord w) (filter P (db_events db)))"
    using assms by (cases ord) (auto simp: list_all_iff event_row_ok_def event_db_ok_def intro: i32_i64)
qed

lemma event_request_rows_ok:
  "event_db_ok db \<Longrightarrow> distinct (map ev_row_id (event_request_rows st db query)) \<and> list_all event_row_ok (event_request_rows st db query)"
  by (simp add: event_request_rows_def requested_events_def global_events_def address_events_def projected_events_ok del: map_map
      split: sum.split option.split)

lemma select_events_page:
  "select_events st db address (ef_chain_id f) f page w =
     seek_page (ep_direction page) event_row_key (ep_cursor_sort_value page) (ep_cursor_id page) (ep_limit page + 1)
       (requested_events st db address f (ep_order_by page) w)"
  by (cases "ep_direction page")
     (simp_all add: select_events_def requested_events_def list_events_global_def list_events_by_address_def seek_page_def
       order_by_def split: option.split)

section \<open>One answer is one page\<close>

lemma attach_fiat_id: "event_id (attach_fiat lib db needs need ev) = event_id ev"
  by (simp add: attach_fiat_def Let_def split: option.split prod.split json.split)

lemma event_from_row_id: "event_from_row lib r tokens a b c = Inr ev \<Longrightarrow> event_id ev = ev_row_id r"
  by (auto simp: event_from_row_def Let_def result_eqs)

lemma events_from_rows_ids:
  assumes "events_from_rows lib db rows a b c d = Inr evs"
  shows "map event_id evs = map ev_row_id rows"
proof -
  define tokens where "tokens = load_event_tokens_by_symbols (to_uppercase lib) (db_event_tokens db)
    (collect_event_token_symbols (to_uppercase lib) rows)"
  from assms obtain es where es: "map (\<lambda>r. event_from_row lib r tokens a b c) rows = map Inr es"
      "evs = attach_fiat_to_market_events lib db es d"
    by (auto simp: events_from_rows_def Let_def map_ok_eq_Inr collect_results_Inr tokens_def)
  from es(1) have "map event_id es = map ev_row_id rows"
    by (induction rows arbitrary: es) (auto simp: Cons_eq_map_conv dest: event_from_row_id)
  moreover have "map event_id evs = map event_id es"
    by (simp add: es(2) attach_fiat_to_market_events_def Let_def attach_fiat_id split: option.split)
  ultimately show ?thesis by simp
qed

lemma load_events_eq:
  "load_events st db query =
     and_then (page_cursor_parse_optional (eq_cursor query) ''event'') (\<lambda>cursor.
     and_then (event_request st db query) (\<lambda>request.
     and_then (parse_order_by event_order_by_from_api_param (empty_to_none (eq_order_by query))) (\<lambda>ord.
     and_then (parse_sort_direction (eq_order_direction query)) (\<lambda>d.
     case request of
       None \<Rightarrow> Inr ([], None)
     | Some f \<Rightarrow>
         and_then (trim_page_rows event_row_key
           (select_events st db (empty_to_none (eq_address query)) (ef_chain_id f) f
             \<lparr>ep_order_by = ord, ep_direction = d, ep_cursor_sort_value = map_option sort_value cursor,
              ep_cursor_id = map_option cursor_row cursor, ep_limit = clamp_limit (eq_limit query)\<rparr> (eq_with_event_data query = Some 1))
           (clamp_limit (eq_limit query)) ''event'') (\<lambda>(rows, next_cursor).
         map_ok (\<lambda>events. (events, next_cursor))
           (events_from_rows (st_lib st) db rows (eq_with_event_data query = Some 1) (eq_with_metadata query = Some 1)
             (eq_with_series query = Some 1) (eq_with_fiat query = Some 1)))))))"
proof -
  define A where "A \<longleftrightarrow> empty_to_none (eq_event_kind query) \<noteq> None
    \<and> Option.bind (empty_to_none (eq_event_kind query)) (event_kind_id_by_name db) = None"
  define B where "B \<longleftrightarrow> empty_to_none (eq_event_source query) \<noteq> None \<and> empty_to_none (eq_event_source query) \<noteq> Some ''legacy''"
  note unf = load_events_def event_request_def and_then_assoc and_then_simps Let_def A_def [symmetric] B_def [symmetric]
    event_filter.simps
  show ?thesis
    unfolding unf by (cases A; cases B) (simp_all only: if_True if_False HOL.simp_thms option.case event_filter.simps)
qed

section \<open>Following the cursors\<close>

definition served_events ::
    "('f, 'n, 's) api_state \<Rightarrow> (nat \<Rightarrow> 'f api_db) \<Rightarrow> event_list_query \<Rightarrow> nat \<Rightarrow> string option
     \<Rightarrow> api_error + ('n, 's) event_response list \<times> string option" where
  "served_events st dbs query n c =
     (if event_db_ok (dbs n) then load_events st (dbs n) (query\<lparr>eq_cursor := c\<rparr>) else Inl (Internal ''constraint violation''))"

definition served_event_rows :: "('f, 'n, 's) api_state \<Rightarrow> 'f api_db \<Rightarrow> event_list_query \<Rightarrow> event_list_row list" where
  "served_event_rows st db query = (if event_db_ok db then event_request_rows st db query else [])"

lemma served_event_rows_ok:
  "distinct (map event_row_key (served_event_rows st db query)) \<and> list_all event_row_ok (served_event_rows st db query)"
proof -
  have "distinct (map snd (map event_row_key rows))" if "distinct (map ev_row_id rows)" for rows
    using that by (simp add: event_row_key_def comp_def)
  then show ?thesis
    using event_request_rows_ok [of db st query] distinct_map [of snd "map event_row_key (event_request_rows st db query)"]
    by (auto simp: served_event_rows_def)
qed

lemma event_request_cursor [simp]: "event_request st db (query\<lparr>eq_cursor := c\<rparr>) = event_request st db query"
  by (simp add: event_request_def Let_def cong: if_cong)

lemma served_event_page:
  assumes c: "cursor_range c"
    and load: "served_events st dbs query n (map_option (page_cursor_encode ''event'') c) = Inr (vs, nxt)"
    and R: "R = rest_rows (unwrap_or (event_request_direction query) Asc) event_row_key c (served_event_rows st (dbs n) query)"
  shows "map event_id vs = map ev_row_id (take (nat (clamp_limit (eq_limit query))) R)
    \<and> nxt = (if nat (clamp_limit (eq_limit query)) < length R
        then Some (page_cursor_encode ''event'' (cursor_at (event_row_key (R ! (nat (clamp_limit (eq_limit query)) - 1))))) else None)"
proof -
  let ?q = "query\<lparr>eq_cursor := map_option (page_cursor_encode ''event'') c\<rparr>"
  have parsed: "page_cursor_parse_optional (map_option (page_cursor_encode ''event'') c) ''event'' = Inr c"
    by (rule parse_encoded_cursor [OF _ c]) simp
  from load have ok: "event_db_ok (dbs n)" and l: "load_events st (dbs n) ?q = Inr (vs, nxt)"
    by (simp_all add: served_events_def split: if_splits)
  from l obtain request ord d where req: "event_request st (dbs n) query = Inr request"
      "event_order_by_from_api_param (empty_to_none (eq_order_by query)) = Some ord" "event_request_direction query = Some d"
    by (auto simp: load_events_eq result_eqs parse_order_by_def parse_sort_direction_def event_request_direction_def ok_or_def
        split: option.splits)
  have R': "R = rest_rows d event_row_key c (event_request_rows st (dbs n) query)" using R ok req(3) by (simp add: served_event_rows_def)
  have o: "parse_order_by event_order_by_from_api_param (empty_to_none (eq_order_by query)) = Inr ord"
    "parse_sort_direction (eq_order_direction query) = Inr d"
    using req by (simp_all add: parse_order_by_def parse_sort_direction_def event_request_direction_def)
  show ?thesis
  proof (cases request)
    case None
    then have "R = []" by (simp add: R' event_request_rows_def req(1) rest_rows_def order_by_def split: sort_direction.split)
    moreover have "vs = []" "nxt = None" using l None by (simp_all add: load_events_eq parsed req(1) o)
    ultimately show ?thesis by simp
  next
    case (Some f)
    have rows: "requested_events st (dbs n) (empty_to_none (eq_address query)) f ord (eq_with_event_data query = Some 1) =
        event_request_rows st (dbs n) query" by (simp add: event_request_rows_def req Some)
    from l show ?thesis
      by (auto simp: load_events_eq parsed req(1) o Some select_events_page rows map_ok_eq_Inr
          trim_page_rows_seek [where limit = "clamp_limit (eq_limit query)", OF clamp_limit_range(1) R']
          dest: events_from_rows_ids)
  qed
qed

interpretation event_list: keyset_list "served_events st dbs query" "\<lambda>n. served_event_rows st (dbs n) query" event_row_key
    event_id ev_row_id "unwrap_or (event_request_direction query) Asc" "nat (clamp_limit (eq_limit query))" "''event''"
  for st dbs query
proof unfold_locales
  show "0 < nat (clamp_limit (eq_limit query))" using clamp_limit_range(1) [of "eq_limit query"] by simp
  show "distinct (map event_row_key (served_event_rows st (dbs n) query))" for n using served_event_rows_ok by blast
  show "cursor_range (Some (cursor_at (event_row_key r)))" if "r \<in> set (served_event_rows st (dbs n) query)" for r n
    using that served_event_rows_ok [of st "dbs n" query]
    by (auto simp: list_all_iff event_row_ok_def cursor_range_def cursor_at_def event_row_key_def)
qed (rule served_event_page [OF _ _ refl])

section \<open>Properties\<close>

text \<open>C15.  While events keep arriving, a client that follows the cursors of the event list to the end gets events
  in the requested order, none at the same position twice, each selected at some request, and every event that
  was selected, unchanged, at every request.\<close>
theorem event_paging_stable:
  assumes "\<forall>n. event_db_ok (dbs n)" "event_request_direction query = Some d"
    and "follow (\<lambda>n c. load_events st (dbs n) (query\<lparr>eq_cursor := c\<rparr>)) 0 None evs"
  shows "\<exists>rs. map event_id evs = map ev_row_id rs
    \<and> sorted_wrt (\<lambda>r s. precedes d (event_row_key r) (event_row_key s)) rs
    \<and> (\<forall>r \<in> set rs. \<exists>n. r \<in> set (event_request_rows st (dbs n) query))
    \<and> (\<forall>r. (\<forall>n. r \<in> set (event_request_rows st (dbs n) query)) \<longrightarrow> r \<in> set rs)"
proof -
  have eq: "served_events st dbs query = (\<lambda>n c. load_events st (dbs n) (query\<lparr>eq_cursor := c\<rparr>))"
    and rows: "\<And>n. served_event_rows st (dbs n) query = event_request_rows st (dbs n) query"
    using assms(1) by (simp_all add: served_events_def served_event_rows_def fun_eq_iff)
  have "follow (served_events st dbs query) 0 None evs" using assms(3) by (simp only: eq)
  from event_list.walk_sound [OF this, of None] show ?thesis
    by (simp add: rows assms(2) cursor_range_def)
qed

definition demo_event_row :: "int \<Rightarrow> event_list_row" where
  "demo_event_row i =
     \<lparr>ev_row_id = i, ev_transaction_id = 1, ev_index = i, ev_source = ''legacy'', ev_chain_name = ''main'', ev_timestamp = 100,
      ev_block_hash = ''AB'', ev_transaction_hash = ''CD'', ev_kind = ''TokenSend'', ev_name = None, ev_address = None,
      ev_address_name = None, ev_contract_hash = None, ev_contract_name = None, ev_contract_symbol = None, ev_token_id = None,
      ev_payload_json = None, ev_raw_data = None, ev_nft_metadata_json = None, ev_series_json = None, ev_sort_value = i,
      ev_chain_id = 1, ev_kind_id = 4, ev_block_height = 5, ev_address_id = None, ev_target_address_id = None,
      ev_target_address = None, ev_nft_name = None, ev_nft_description = None\<rparr>"

definition demo_event_dbs :: "nat \<Rightarrow> unit api_db" where
  "demo_event_dbs n = demo_db\<lparr>db_events := map demo_event_row (if n = 0 then [1, 2, 3] else [1, 2, 3, 4])\<rparr>"

definition demo_event_query :: event_list_query where
  "demo_event_query =
     \<lparr>eq_limit = Some 2, eq_order_by = None, eq_order_direction = None, eq_event_id = None, eq_transaction_hash = None,
      eq_block_height = None, eq_event_kind = None, eq_event_source = Some ''legacy'', eq_address = None, eq_contract = None,
      eq_q = None, eq_with_event_data = None, eq_token_id = None, eq_block_hash = None, eq_date_less = None,
      eq_date_greater = None, eq_date_day = None, eq_event_kind_partial = None, eq_nft_name_partial = None,
      eq_nft_description_partial = None, eq_address_partial = None, eq_chain = None, eq_with_metadata = None,
      eq_with_series = None, eq_with_fiat = None, eq_cursor = None\<rparr>"

lemma demo_event_dbs_ok: "\<forall>n. event_db_ok (demo_event_dbs n)"
  by (simp add: event_db_ok_def demo_event_dbs_def demo_event_row_def i32_range_def i64_range_def)

lemma demo_event_direction: "event_request_direction demo_event_query = Some Asc"
  by code_simp

lemma demo_event_pages:
  "map_ok (map_prod (map event_id) id) (load_events demo_api (demo_event_dbs 0) (demo_event_query\<lparr>eq_cursor := None\<rparr>)) =
     Inr ([1, 2], Some ''event:2:2'')"
  "map_ok (map_prod (map event_id) id) (load_events demo_api (demo_event_dbs 1) (demo_event_query\<lparr>eq_cursor := Some ''event:2:2''\<rparr>)) =
     Inr ([3, 4], None)"
  by code_simp+

lemma demo_event_follow:
  "\<exists>evs. follow (\<lambda>n c. load_events demo_api (demo_event_dbs n) (demo_event_query\<lparr>eq_cursor := c\<rparr>)) 0 None evs
     \<and> map event_id evs = [1, 2, 3, 4]"
proof -
  let ?load = "\<lambda>n c. load_events demo_api (demo_event_dbs n) (demo_event_query\<lparr>eq_cursor := c\<rparr>)"
  obtain vs where vs: "?load 0 None = Inr (vs, Some ''event:2:2'')" "map event_id vs = [1, 2]"
    using demo_event_pages(1) by (auto simp: map_ok_eq_Inr)
  obtain ws where ws: "?load 1 (Some ''event:2:2'') = Inr (ws, None)" "map event_id ws = [3, 4]"
    using demo_event_pages(2) by (auto simp: map_ok_eq_Inr)
  have "follow ?load (Suc 0) (Some ''event:2:2'') ws" by (rule follow.last_page) (use ws(1) in simp)
  from follow.more_pages [of ?load, OF vs(1) this] vs(2) ws(2) show ?thesis by (intro exI [of _ "vs @ ws"]) simp
qed

theorem event_paging_stable_witness:
  "\<exists>rs. [1, 2, 3, 4] = map ev_row_id rs \<and> sorted_wrt (\<lambda>r s. precedes Asc (event_row_key r) (event_row_key s)) rs"
  using demo_event_follow
proof (elim exE conjE)
  fix evs
  assume evs: "follow (\<lambda>n c. load_events demo_api (demo_event_dbs n) (demo_event_query\<lparr>eq_cursor := c\<rparr>)) 0 None evs"
    "map event_id evs = [1, 2, 3, 4]"
  show ?thesis
    using event_paging_stable [OF demo_event_dbs_ok demo_event_direction evs(1)] unfolding evs(2)
    by (elim exE conjE) (intro exI conjI; assumption)
qed

end
