(* ===== verification/Script_Disassembler.thy ===== *)
theory Script_Disassembler
  imports Transaction_Reads "HOL-Library.Code_Target_Nat"
begin

text \<open>
  The script disassembler and the message verification of the API (\<open>src/crates/http-api/src/support.rs\<close>:
  \<open>decode_hex_field\<close>, \<open>VmScriptReader\<close>, \<open>disassemble_script_bytes\<close>, \<open>format_vm_instruction\<close>, \<open>opcode_name\<close>; the
  handlers \<open>instructions\<close> and \<open>verify_message\<close>).  Lossy UTF-8, big integers, base64, addresses and signatures
  come from libraries and are arguments.
\<close>

section \<open>Hexadecimal and formatted input\<close>

definition hex_nibble :: "char \<Rightarrow> string \<Rightarrow> api_error + nat" where
  "hex_nibble c field =
     (if 48 \<le> code c \<and> code c \<le> 57 then Inr (code c - 48)
      else if 97 \<le> code c \<and> code c \<le> 102 then Inr (code c - 97 + 10)
      else if 65 \<le> code c \<and> code c \<le> 70 then Inr (code c - 65 + 10)
      else Inl (BadRequest (field @ '' must be base16 encoded'')))"

fun decode_pairs :: "string \<Rightarrow> string \<Rightarrow> api_error + u8 list" where
  "decode_pairs (a # b # cs) field =
     and_then (hex_nibble a field) (\<lambda>hi.
     and_then (hex_nibble b field) (\<lambda>lo.
     map_ok ((#) (word_of_nat (hi * 16 + lo))) (decode_pairs cs field)))"
| "decode_pairs _ field = Inr []"

definition decode_hex_field :: "string \<Rightarrow> string \<Rightarrow> api_error + u8 list" where
  "decode_hex_field v field =
     (let t = trim v;
          normalized = unwrap_or (or_else (strip_prefix ''0x'' t) (strip_prefix ''0X'' t)) t
      in if length normalized mod 2 \<noteq> 0
         then Inl (BadRequest (field @ '' must contain an even number of hex characters''))
         else decode_pairs normalized field)"

definition decode_hex :: "string \<Rightarrow> api_error + u8 list" where
  "decode_hex v = decode_hex_field v ''script_raw''"

section \<open>The reader\<close>

definition outside_of_range :: api_error where
  "outside_of_range = BadRequest ''Constraint failed: Outside of range''"

definition read_u8 :: "u8 list \<Rightarrow> nat \<Rightarrow> api_error + nat \<times> nat" where
  "read_u8 bytes pos = (if length bytes \<le> pos then Inl outside_of_range else Inr (unat (bytes ! pos), pos + 1))"

definition read_u16 :: "u8 list \<Rightarrow> nat \<Rightarrow> api_error + nat \<times> nat" where
  "read_u16 bytes pos =
     and_then (read_u8 bytes pos) (\<lambda>(a, pos).
     and_then (read_u8 bytes pos) (\<lambda>(b, pos). Inr (a + b * 2 ^ 8, pos)))"

definition read_i16 :: "u8 list \<Rightarrow> nat \<Rightarrow> api_error + int \<times> nat" where
  "read_i16 bytes pos =
     map_ok (\<lambda>(v, pos). (if v < 2 ^ 15 then int v else int v - 2 ^ 16, pos)) (read_u16 bytes pos)"

definition read_u32 :: "u8 list \<Rightarrow> nat \<Rightarrow> api_error + nat \<times> nat" where
  "read_u32 bytes pos =
     and_then (read_u8 bytes pos) (\<lambda>(a, pos).
     and_then (read_u8 bytes pos) (\<lambda>(b, pos).
     and_then (read_u8 bytes pos) (\<lambda>(c, pos).
     and_then (read_u8 bytes pos) (\<lambda>(d, pos). Inr (a + b * 2 ^ 8 + c * 2 ^ 16 + d * 2 ^ 24, pos)))))"

fun read_u64_from :: "u8 list \<Rightarrow> nat list \<Rightarrow> nat \<Rightarrow> nat \<Rightarrow> api_error + nat \<times> nat" where
  "read_u64_from bytes [] acc pos = Inr (acc, pos)"
| "read_u64_from bytes (shift # shifts) acc pos =
     and_then (read_u8 bytes pos) (\<lambda>(b, pos). read_u64_from bytes shifts (acc + b * 2 ^ shift) pos)"

definition read_u64 :: "u8 list \<Rightarrow> nat \<Rightarrow> api_error + nat \<times> nat" where
  "read_u64 bytes pos = read_u64_from bytes [0, 8, 16, 24, 32, 40, 48, 56] 0 pos"

definition read_var :: "u8 list \<Rightarrow> nat \<Rightarrow> nat \<Rightarrow> api_error + nat \<times> nat" where
  "read_var bytes bound pos =
     and_then (read_u8 bytes pos) (\<lambda>(marker, pos).
     and_then (if marker = 0xfd then read_u16 bytes pos
               else if marker = 0xfe then read_u32 bytes pos
               else if marker = 0xff then read_u64 bytes pos
               else Inr (marker, pos)) (\<lambda>(v, pos).
     if bound < v then Inl (BadRequest ''Constraint failed: Input exceed max'') else Inr (v, pos)))"

definition read_bytes :: "u8 list \<Rightarrow> nat \<Rightarrow> nat \<Rightarrow> api_error + u8 list \<times> nat" where
  "read_bytes bytes n pos =
     (if length bytes \<le> pos + n then Inl outside_of_range else Inr (take n (drop pos bytes), pos + n))"

section \<open>Instructions\<close>

datatype vm_instruction_args =
    NoArgs
  | Reg1 nat
  | Regs2 nat nat
  | Regs3 nat nat nat
  | Regs2Len nat nat nat
  | Range nat nat nat nat
  | Cast nat nat nat
  | Load nat nat "u8 list"
  | Call nat nat
  | Jump int
  | JumpIf nat int

definition OPCODE_RET :: nat where
  "OPCODE_RET = 11"

text \<open>Opcodes by the arguments they take: \<open>CTX\<close>, \<open>MOVE\<close>, \<open>COPY\<close>, \<open>SWAP\<close>, \<open>SIZE\<close>, \<open>COUNT\<close>, \<open>SIGN\<close>, \<open>NOT\<close>, \<open>NEGATE\<close>,
  \<open>ABS\<close>, \<open>UNPACK\<close>; then \<open>POP\<close>, \<open>PUSH\<close>, \<open>EXTCALL\<close>, \<open>THROW\<close>, \<open>CLEAR\<close>, \<open>INC\<close>, \<open>DEC\<close>, \<open>SWITCH\<close>; then the operations of two
  operands and \<open>PUT\<close>, \<open>GET\<close>.\<close>

definition regs2_opcodes :: "nat list" where
  "regs2_opcodes = [45, 1, 2, 5, 19, 20, 32, 21, 33, 34, 50]"

definition reg1_opcodes :: "nat list" where
  "reg1_opcodes = [4, 3, 7, 12, 49, 30, 31, 46]"

definition regs3_opcodes :: "nat list" where
  "regs3_opcodes = [22, 23, 24, 15, 25, 26, 27, 28, 29, 35, 36, 37, 38, 39, 41, 40, 42, 43, 44, 47, 48]"

definition read_args :: "u8 list \<Rightarrow> nat \<Rightarrow> nat \<Rightarrow> api_error + vm_instruction_args \<times> nat" where
  "read_args bytes opcode pos =
     (if opcode \<in> set regs2_opcodes then
        and_then (read_u8 bytes pos) (\<lambda>(a, pos). and_then (read_u8 bytes pos) (\<lambda>(b, pos). Inr (Regs2 a b, pos)))
      else if opcode = 13 then
        and_then (read_u8 bytes pos) (\<lambda>(dst, pos).
        and_then (read_u8 bytes pos) (\<lambda>(vm_type, pos).
        and_then (read_var bytes 0xffff pos) (\<lambda>(n, pos).
        and_then (read_bytes bytes n pos) (\<lambda>(data, pos). Inr (Load dst vm_type data, pos)))))
      else if opcode = 14 then
        and_then (read_u8 bytes pos) (\<lambda>(src, pos).
        and_then (read_u8 bytes pos) (\<lambda>(dst, pos).
        and_then (read_u8 bytes pos) (\<lambda>(vm_type, pos). Inr (Cast src dst vm_type, pos))))
      else if opcode \<in> set reg1_opcodes then
        and_then (read_u8 bytes pos) (\<lambda>(a, pos). Inr (Reg1 a, pos))
      else if opcode = 6 then
        and_then (read_u8 bytes pos) (\<lambda>(n, pos). and_then (read_u16 bytes pos) (\<lambda>(target, pos). Inr (Call n target, pos)))
      else if opcode = 8 then
        and_then (read_i16 bytes pos) (\<lambda>(target, pos). Inr (Jump target, pos))
      else if opcode = 9 \<or> opcode = 10 then
        and_then (read_u8 bytes pos) (\<lambda>(src, pos). and_then (read_i16 bytes pos) (\<lambda>(target, pos). Inr (JumpIf src target, pos)))
      else if opcode \<in> set regs3_opcodes then
        and_then (read_u8 bytes pos) (\<lambda>(a, pos).
        and_then (read_u8 bytes pos) (\<lambda>(b, pos).
        and_then (read_u8 bytes pos) (\<lambda>(c, pos). Inr (Regs3 a b c, pos))))
      else if opcode = 17 \<or> opcode = 18 then
        and_then (read_u8 bytes pos) (\<lambda>(src, pos).
        and_then (read_u8 bytes pos) (\<lambda>(dst, pos).
        and_then (read_var bytes 0xffff pos) (\<lambda>(n, pos). Inr (Regs2Len src dst n, pos))))
      else if opcode = 16 then
        and_then (read_u8 bytes pos) (\<lambda>(src, pos).
        and_then (read_u8 bytes pos) (\<lambda>(dst, pos).
        and_then (read_var bytes 0xffff pos) (\<lambda>(index, pos).
        and_then (read_var bytes 0xffff pos) (\<lambda>(n, pos). Inr (Range src dst index n, pos)))))
      else Inr (NoArgs, pos))"

section \<open>Readers move forward\<close>

named_theorems reader_forward

lemma read_u8_forward [reader_forward]: "read_u8 bytes pos = Inr (v, pos') \<Longrightarrow> pos < pos' \<and> pos' \<le> length bytes"
  by (auto simp: read_u8_def split: if_splits)

lemma read_u16_forward [reader_forward]: "read_u16 bytes pos = Inr (v, pos') \<Longrightarrow> pos < pos' \<and> pos' \<le> length bytes"
  by (fastforce simp: read_u16_def result_eqs dest: reader_forward)

lemma read_i16_forward [reader_forward]: "read_i16 bytes pos = Inr (v, pos') \<Longrightarrow> pos < pos' \<and> pos' \<le> length bytes"
  by (fastforce simp: read_i16_def result_eqs dest: reader_forward)

lemma read_u32_forward [reader_forward]: "read_u32 bytes pos = Inr (v, pos') \<Longrightarrow> pos < pos' \<and> pos' \<le> length bytes"
  by (fastforce simp: read_u32_def result_eqs dest: reader_forward)

lemma read_u64_from_forward: "read_u64_from bytes shifts acc pos = Inr (v, pos') \<Longrightarrow> pos \<le> length bytes \<Longrightarrow> pos \<le> pos' \<and> pos' \<le> length bytes"
  by (induction shifts arbitrary: acc pos) (fastforce simp: result_eqs dest: reader_forward)+

lemma read_var_forward [reader_forward]: "read_var bytes m pos = Inr (v, pos') \<Longrightarrow> pos < pos' \<and> pos' \<le> length bytes"
  by (fastforce simp: read_var_def read_u64_def result_eqs split: if_splits dest: reader_forward read_u64_from_forward)

lemma read_bytes_forward [reader_forward]: "read_bytes bytes n pos = Inr (v, pos') \<Longrightarrow> pos \<le> pos' \<and> pos' \<le> length bytes"
  by (auto simp: read_bytes_def split: if_splits)

lemma read_args_forward:
  assumes "read_args bytes opcode pos = Inr (v, pos')" "pos \<le> length bytes"
  shows "pos \<le> pos' \<and> pos' \<le> length bytes"
  using assms unfolding read_args_def
  by (simp only: split: if_splits) (auto simp: result_eqs dest!: reader_forward)

section \<open>The loop\<close>

type_synonym vm_instruction = "nat \<times> nat \<times> vm_instruction_args"

function disassemble_from :: "u8 list \<Rightarrow> nat \<Rightarrow> api_error + vm_instruction list" where
  "disassemble_from bytes pos =
     (if length bytes \<le> pos then Inr []
      else
        let opcode = unat (bytes ! pos)
        in if opcode = OPCODE_RET then Inr [(pos, opcode, NoArgs)]
           else (case read_args bytes opcode (pos + 1) of
               Inl e \<Rightarrow> Inl e
             | Inr (args, pos') \<Rightarrow> map_ok ((#) (pos, opcode, args)) (disassemble_from bytes pos')))"
  by pat_completeness auto
termination
  by (relation "measure (\<lambda>(bytes, pos). length bytes - pos)") (auto dest!: read_args_forward)

declare disassemble_from.simps [simp del]

section \<open>Text\<close>

record vm_lib =
  utf8_lossy :: "u8 list \<Rightarrow> string"
  bigint_from_signed_bytes_le :: "u8 list \<Rightarrow> int"
  encode_hex_upper :: "u8 list \<Rightarrow> string"

definition opcode_names :: "string list" where
  "opcode_names =
     [''NOP'', ''MOVE'', ''COPY'', ''PUSH'', ''POP'', ''SWAP'', ''CALL'', ''EXTCALL'', ''JMP'', ''JMPIF'', ''JMPNOT'', ''RET'', ''THROW'',
      ''LOAD'', ''CAST'', ''CAT'', ''RANGE'', ''LEFT'', ''RIGHT'', ''SIZE'', ''COUNT'', ''NOT'', ''AND'', ''OR'', ''XOR'', ''EQUAL'', ''LT'',
      ''GT'', ''LTE'', ''GTE'', ''INC'', ''DEC'', ''SIGN'', ''NEGATE'', ''ABS'', ''ADD'', ''SUB'', ''MUL'', ''DIV'', ''MOD'', ''SHL'', ''SHR'',
      ''MIN'', ''MAX'', ''POW'', ''CTX'', ''SWITCH'', ''PUT'', ''GET'', ''CLEAR'', ''UNPACK'', ''PACK'', ''DEBUG'', ''SUBSTR'', ''REMOVE'']"

definition opcode_name :: "nat \<Rightarrow> string" where
  "opcode_name opcode =
     (if opcode < length opcode_names then opcode_names ! opcode
      else if opcode = 255 then ''EVM'' else show_nat opcode)"

definition append_register :: "string \<Rightarrow> nat \<Rightarrow> string" where
  "append_register out reg = out @ '' r'' @ show_nat reg"

definition format_vm_load_data :: "vm_lib \<Rightarrow> nat \<Rightarrow> u8 list \<Rightarrow> string" where
  "format_vm_load_data lib vm_type data =
     (if vm_type = 4 then CHR 0x22 # utf8_lossy lib data @ [CHR 0x22]
      else if vm_type = 3 then show_int (bigint_from_signed_bytes_le lib data)
      else encode_hex_upper lib data)"

definition pad3 :: "nat \<Rightarrow> string" where
  "pad3 n = (let s = show_nat n in replicate (3 - length s) (CHR ''0'') @ s)"

fun format_args :: "vm_lib \<Rightarrow> vm_instruction_args \<Rightarrow> string" where
  "format_args lib NoArgs = ''''"
| "format_args lib (Reg1 a) = append_register '''' a"
| "format_args lib (Regs2 a b) = append_register (append_register '''' a @ '','') b"
| "format_args lib (Regs3 a b c) = append_register (append_register (append_register '''' a @ '','') b @ '','') c"
| "format_args lib (Regs2Len a b n) = append_register (append_register '''' a @ '','') b @ '', '' @ show_nat n"
| "format_args lib (Range a b i n) =
     append_register (append_register '''' a @ '','') b @ '', '' @ show_nat i @ '', '' @ show_nat n"
| "format_args lib (Cast a b t) = append_register (append_register '''' a @ '','') b @ '', '' @ show_nat t"
| "format_args lib (Load a t data) = append_register '''' a @ '', '' @ format_vm_load_data lib t data"
| "format_args lib (Call n target) = append_register '''' n @ '', '' @ show_nat target"
| "format_args lib (Jump target) = '' '' @ show_int target"
| "format_args lib (JumpIf a target) = append_register '''' a @ '', '' @ show_int target"

definition format_vm_instruction :: "vm_lib \<Rightarrow> vm_instruction \<Rightarrow> string" where
  "format_vm_instruction lib = (\<lambda>(offset, opcode, args). pad3 offset @ '': '' @ opcode_name opcode @ format_args lib args)"

definition disassemble_script_bytes :: "vm_lib \<Rightarrow> u8 list \<Rightarrow> api_error + string list" where
  "disassemble_script_bytes lib bytes = map_ok (map (format_vm_instruction lib)) (disassemble_from bytes 0)"

definition instructions :: "vm_lib \<Rightarrow> string option \<Rightarrow> api_error + int \<times> string list" where
  "instructions lib script_raw =
     and_then (ok_or (BadRequest ''script_raw is required'') (empty_to_none script_raw)) (\<lambda>script_raw.
     and_then (decode_hex script_raw) (\<lambda>bytes.
     map_ok (\<lambda>is. (int (length is), is)) (disassemble_script_bytes lib bytes)))"

section \<open>Message verification\<close>

record ('addr, 'sig) signature_lib =
  base64_decode :: "string \<Rightarrow> string + u8 list"
  address_from_text :: "string \<Rightarrow> string + 'addr"
  signature_from_slice :: "u8 list \<Rightarrow> string + 'sig"
  verify_signature :: "'sig \<Rightarrow> u8 list \<Rightarrow> 'addr \<Rightarrow> bool"

definition decode_formatted_bytes ::
    "('addr, 'sig) signature_lib \<Rightarrow> string \<Rightarrow> string option \<Rightarrow> string \<Rightarrow> bool \<Rightarrow> api_error + u8 list" where
  "decode_formatted_bytes lib v fmt field allow_plain =
     (let f = to_ascii_lowercase (trim (unwrap_or fmt ''Plain''))
      in if f = ''0'' \<or> f = ''plain'' then
           (if allow_plain then Inr (map (\<lambda>c. word_of_nat (code c)) v)
            else Inl (BadRequest (field @ ''Format Plain is not supported'')))
         else if f = ''1'' \<or> f = ''base16'' \<or> f = ''hex'' then decode_hex_field v field
         else if f = ''2'' \<or> f = ''base64'' then
           map_err (\<lambda>e. BadRequest (field @ '' must be base64 encoded: '' @ e)) (base64_decode lib (trim v))
         else Inl (BadRequest (field @ ''Format '' @ f @ '' is not supported'')))"

definition is_ed25519_signature_kind :: "string \<Rightarrow> bool" where
  "is_ed25519_signature_kind v = (to_ascii_lowercase (trim v) \<in> {''1'', ''ed25519''})"

record verify_message_query =
  vm_message :: "string option"
  vm_message_format :: "string option"
  vm_signature :: "string option"
  vm_signature_format :: "string option"
  vm_signature_kind :: "string option"
  vm_ecdsa_curve :: "string option"
  vm_signer_address :: "string option"

definition verify_message :: "('addr, 'sig) signature_lib \<Rightarrow> verify_message_query \<Rightarrow> api_error + bool" where
  "verify_message lib query =
     and_then (ok_or (BadRequest ''message is required'') (empty_to_none (vm_message query))) (\<lambda>message.
     and_then (ok_or (BadRequest ''signature is required'') (empty_to_none (vm_signature query))) (\<lambda>signature.
     and_then (ok_or (BadRequest ''signerAddress is required'') (empty_to_none (vm_signer_address query))) (\<lambda>signer_address.
     let signature_kind = unwrap_or (vm_signature_kind query) ''Ed25519''
     in if \<not> is_ed25519_signature_kind signature_kind
        then Inl (BadRequest (''signatureKind '' @ signature_kind @ '' is not supported by the Rust API yet''))
        else if (case vm_ecdsa_curve query of None \<Rightarrow> False
                 | Some curve \<Rightarrow> \<not> eq_ignore_ascii_case curve ''Secp256k1'' \<and> curve \<noteq> ''0'')
        then Inl (BadRequest (''ecdsaCurve '' @ unwrap_or (vm_ecdsa_curve query) '''' @ '' is not supported by the Rust API yet''))
        else
          and_then (decode_formatted_bytes lib message (vm_message_format query) ''message'' True) (\<lambda>message_bytes.
          and_then (decode_formatted_bytes lib signature (vm_signature_format query) ''signature'' False) (\<lambda>signature_bytes.
          and_then (map_err (\<lambda>e. BadRequest (''invalid signerAddress: '' @ e)) (address_from_text lib signer_address)) (\<lambda>signer.
          and_then (map_err (\<lambda>e. BadRequest (''invalid signature: '' @ e)) (signature_from_slice lib signature_bytes)) (\<lambda>sig.
          Inr (verify_signature lib sig message_bytes signer))))))))"

section \<open>Assembling\<close>

text \<open>The bytes of an instruction, with lengths in their shortest form; the reference the disassembler is
  measured against.\<close>

definition var_bytes :: "nat \<Rightarrow> u8 list" where
  "var_bytes n = (if n < 0xfd then [word_of_nat n] else [0xfd, word_of_nat (n mod 256), word_of_nat (n div 256)])"

definition u16_bytes :: "nat \<Rightarrow> u8 list" where
  "u16_bytes n = [word_of_nat (n mod 256), word_of_nat (n div 256)]"

definition i16_bytes :: "int \<Rightarrow> u8 list" where
  "i16_bytes i = u16_bytes (nat (i mod 2 ^ 16))"

fun args_bytes :: "vm_instruction_args \<Rightarrow> u8 list" where
  "args_bytes NoArgs = []"
| "args_bytes (Reg1 a) = [word_of_nat a]"
| "args_bytes (Regs2 a b) = [word_of_nat a, word_of_nat b]"
| "args_bytes (Regs3 a b c) = [word_of_nat a, word_of_nat b, word_of_nat c]"
| "args_bytes (Regs2Len a b n) = [word_of_nat a, word_of_nat b] @ var_bytes n"
| "args_bytes (Range a b i n) = [word_of_nat a, word_of_nat b] @ var_bytes i @ var_bytes n"
| "args_bytes (Cast a b t) = [word_of_nat a, word_of_nat b, word_of_nat t]"
| "args_bytes (Load a t data) = [word_of_nat a, word_of_nat t] @ var_bytes (length data) @ data"
| "args_bytes (Call n target) = word_of_nat n # u16_bytes target"
| "args_bytes (Jump target) = i16_bytes target"
| "args_bytes (JumpIf a target) = word_of_nat a # i16_bytes target"

abbreviation byte :: "nat \<Rightarrow> bool" where
  "byte n \<equiv> n < 256"

fun args_fit :: "nat \<Rightarrow> vm_instruction_args \<Rightarrow> bool" where
  "args_fit opcode NoArgs \<longleftrightarrow> opcode \<notin> set (regs2_opcodes @ reg1_opcodes @ regs3_opcodes @ [6, 8, 9, 10, 11, 13, 14, 16, 17, 18])"
| "args_fit opcode (Reg1 a) \<longleftrightarrow> opcode \<in> set reg1_opcodes \<and> byte a"
| "args_fit opcode (Regs2 a b) \<longleftrightarrow> opcode \<in> set regs2_opcodes \<and> byte a \<and> byte b"
| "args_fit opcode (Regs3 a b c) \<longleftrightarrow> opcode \<in> set regs3_opcodes \<and> byte a \<and> byte b \<and> byte c"
| "args_fit opcode (Regs2Len a b n) \<longleftrightarrow> opcode \<in> {17, 18} \<and> byte a \<and> byte b \<and> n < 2 ^ 16"
| "args_fit opcode (Range a b i n) \<longleftrightarrow> opcode = 16 \<and> byte a \<and> byte b \<and> i < 2 ^ 16 \<and> n < 2 ^ 16"
| "args_fit opcode (Cast a b t) \<longleftrightarrow> opcode = 14 \<and> byte a \<and> byte b \<and> byte t"
| "args_fit opcode (Load a t data) \<longleftrightarrow> opcode = 13 \<and> byte a \<and> byte t \<and> length data < 2 ^ 16"
| "args_fit opcode (Call n target) \<longleftrightarrow> opcode = 6 \<and> byte n \<and> target < 2 ^ 16"
| "args_fit opcode (Jump target) \<longleftrightarrow> opcode = 8 \<and> - (2 ^ 15) \<le> target \<and> target < 2 ^ 15"
| "args_fit opcode (JumpIf a target) \<longleftrightarrow> opcode \<in> {9, 10} \<and> byte a \<and> - (2 ^ 15) \<le> target \<and> target < 2 ^ 15"

definition instruction_bytes :: "nat \<times> vm_instruction_args \<Rightarrow> u8 list" where
  "instruction_bytes i = word_of_nat (fst i) # args_bytes (snd i)"

definition instruction_fits :: "nat \<times> vm_instruction_args \<Rightarrow> bool" where
  "instruction_fits i \<longleftrightarrow> byte (fst i) \<and> args_fit (fst i) (snd i)"

definition assemble :: "(nat \<times> vm_instruction_args) list \<Rightarrow> u8 list" where
  "assemble is = concat (map instruction_bytes is) @ [word_of_nat OPCODE_RET]"

fun listing :: "nat \<Rightarrow> (nat \<times> vm_instruction_args) list \<Rightarrow> vm_instruction list" where
  "listing pos [] = [(pos, OPCODE_RET, NoArgs)]"
| "listing pos (i # is) = (pos, fst i, snd i) # listing (pos + length (instruction_bytes i)) is"

section \<open>Reading back what was assembled\<close>

lemma read_u8_drop: "read_u8 bytes p = (case drop p bytes of [] \<Rightarrow> Inl outside_of_range | b # _ \<Rightarrow> Inr (unat b, Suc p))"
proof (cases "p < length bytes")
  case True
  then have "drop p bytes = bytes ! p # drop (Suc p) bytes" by (simp add: Cons_nth_drop_Suc)
  with True show ?thesis by (simp add: read_u8_def)
qed (simp add: read_u8_def)

lemma drop_next: "drop (Suc p) bytes = tl (drop p bytes)"
  by (simp add: drop_Suc tl_drop)

lemma unat_byte: "byte n \<Longrightarrow> unat (word_of_nat n :: u8) = n"
  by (simp add: unat_of_nat)

lemmas reads = read_u8_drop drop_next unat_byte

lemma byte_split: "n < 2 ^ 16 \<Longrightarrow> byte (n div 256) \<and> n mod 256 + n div 256 * 2 ^ 8 = n"
  by (simp add: less_mult_imp_div_less)

lemma read_u16_at:
  assumes "drop p bytes = u16_bytes n @ rest" "n < 2 ^ 16"
  shows "read_u16 bytes p = Inr (n, Suc (Suc p))"
  using assms byte_split [OF assms(2)] by (simp add: read_u16_def u16_bytes_def reads)

lemma read_i16_at:
  assumes "drop p bytes = i16_bytes i @ rest" "- (2 ^ 15) \<le> i" "i < 2 ^ 15"
  shows "read_i16 bytes p = Inr (i, Suc (Suc p))"
proof -
  define v where "v = nat (i mod 2 ^ 16)"
  have v: "v < 2 ^ 16" by (simp add: v_def nat_less_iff)
  have "drop p bytes = u16_bytes v @ rest" using assms(1) by (simp add: i16_bytes_def v_def)
  from read_u16_at [OF this v] have "read_u16 bytes p = Inr (v, Suc (Suc p))" .
  moreover have "(if v < 2 ^ 15 then int v else int v - 2 ^ 16) = i"
  proof (cases "0 \<le> i")
    case True
    then have "i mod 2 ^ 16 = i" using assms(3) by simp
    then show ?thesis using True assms(3) by (simp add: v_def nat_less_iff)
  next
    case False
    have "i mod 2 ^ 16 = (i + 2 ^ 16) mod 2 ^ 16" by simp
    also have "\<dots> = i + 2 ^ 16" using False assms(2) by (intro mod_pos_pos_trivial) simp_all
    finally show ?thesis using False assms(2) by (simp add: v_def nat_less_iff)
  qed
  ultimately show ?thesis by (simp add: read_i16_def)
qed

lemma read_var_at:
  assumes "drop p bytes = var_bytes n @ rest" "n < 2 ^ 16"
  shows "read_var bytes 0xffff p = Inr (n, p + length (var_bytes n))" "drop (p + length (var_bytes n)) bytes = rest"
proof -
  show "read_var bytes 0xffff p = Inr (n, p + length (var_bytes n))"
  proof (cases "n < 0xfd")
    case True
    then show ?thesis using assms by (simp add: read_var_def var_bytes_def reads)
  next
    case False
    then have d: "drop p bytes = 0xfd # u16_bytes n @ rest" using assms(1) by (simp add: var_bytes_def u16_bytes_def)
    then have "drop (Suc p) bytes = u16_bytes n @ rest" by (simp add: drop_next)
    from read_u16_at [OF this assms(2)] d False assms(2) show ?thesis
      by (simp add: read_var_def var_bytes_def read_u8_drop)
  qed
  show "drop (p + length (var_bytes n)) bytes = rest"
    using arg_cong [OF assms(1), of "drop (length (var_bytes n))"] by (simp add: add.commute)
qed

lemma read_bytes_at:
  assumes "drop p bytes = data @ rest" "rest \<noteq> []"
  shows "read_bytes bytes (length data) p = Inr (data, p + length data)"
proof -
  have "length bytes - p = length data + length rest" using arg_cong [OF assms(1), of length] by simp
  moreover have "0 < length rest" using assms(2) by simp
  ultimately have "\<not> length bytes \<le> p + length data" by linarith
  then show ?thesis using assms(1) by (simp add: read_bytes_def)
qed

lemmas opcode_sets = regs2_opcodes_def reg1_opcodes_def regs3_opcodes_def

lemma opcode_regs3:
  "opcode \<in> set regs3_opcodes \<Longrightarrow> opcode \<notin> set regs2_opcodes \<and> opcode \<notin> set reg1_opcodes \<and> opcode \<notin> {6, 8, 9, 10, 13, 14}"
  by (auto simp: opcode_sets)

lemma opcode_reg1: "opcode \<in> set reg1_opcodes \<Longrightarrow> opcode \<notin> set regs2_opcodes \<and> opcode \<notin> {13, 14}"
  by (auto simp: opcode_sets)

lemma read_args_at:
  assumes "args_fit opcode args" "drop p bytes = args_bytes args @ rest" "rest \<noteq> []"
  shows "read_args bytes opcode p = Inr (args, p + length (args_bytes args))"
proof (cases args)
  case (Regs2Len a b n)
  have d: "drop (Suc (Suc p)) bytes = var_bytes n @ rest" using assms(2) by (simp add: Regs2Len drop_next)
  from read_var_at [OF d] assms show ?thesis by (auto simp: Regs2Len read_args_def opcode_sets reads)
next
  case (Range a b i n)
  have d: "drop (Suc (Suc p)) bytes = var_bytes i @ var_bytes n @ rest" using assms(2) by (simp add: Range drop_next)
  have "i < 2 ^ 16" "n < 2 ^ 16" using assms(1) by (simp_all add: Range)
  from read_var_at [OF d this(1)] read_var_at(1) [OF read_var_at(2) [OF d this(1)] this(2)] assms
  show ?thesis by (auto simp: Range read_args_def opcode_sets reads)
next
  case (Load a t data)
  have d: "drop (Suc (Suc p)) bytes = var_bytes (length data) @ data @ rest" using assms(2) by (simp add: Load drop_next)
  have n: "length data < 2 ^ 16" using assms(1) by (simp add: Load)
  from read_var_at(1) [OF d n] read_bytes_at [OF read_var_at(2) [OF d n] assms(3)] assms
  show ?thesis by (auto simp: Load read_args_def opcode_sets reads)
next
  case (Call n target)
  have "drop (Suc p) bytes = u16_bytes target @ rest" using assms(2) by (simp add: Call drop_next)
  from read_u16_at [OF this] assms show ?thesis
    by (auto simp: Call read_args_def opcode_sets read_u8_drop unat_byte u16_bytes_def)
next
  case (Jump target)
  from read_i16_at [of p bytes target rest] assms show ?thesis
    by (auto simp: Jump read_args_def opcode_sets i16_bytes_def u16_bytes_def)
next
  case (JumpIf a target)
  have "drop (Suc p) bytes = i16_bytes target @ rest" using assms(2) by (simp add: JumpIf drop_next)
  from read_i16_at [OF this] assms show ?thesis
    by (auto simp: JumpIf read_args_def opcode_sets read_u8_drop unat_byte i16_bytes_def u16_bytes_def)
next
  case NoArgs
  with assms(1) show ?thesis by (simp add: read_args_def)
next
  case (Regs3 a b c)
  then have "opcode \<in> set regs3_opcodes" using assms(1) by simp
  with opcode_regs3 [OF this] assms Regs3 show ?thesis by (simp add: read_args_def reads)
next
  case (Reg1 a)
  then have "opcode \<in> set reg1_opcodes" using assms(1) by simp
  with opcode_reg1 [OF this] assms Reg1 show ?thesis by (simp add: read_args_def reads)
next
  case (Cast a b t)
  with assms show ?thesis by (simp add: read_args_def opcode_sets reads)
next
  case (Regs2 a b)
  with assms show ?thesis by (simp add: read_args_def reads)
qed

lemma assemble_Cons: "assemble (i # is) = instruction_bytes i @ assemble is"
  by (simp add: assemble_def)

lemma assemble_nonempty [simp]: "assemble is \<noteq> []"
  by (simp add: assemble_def)

lemma opcode_ret_unfit: "instruction_fits i \<Longrightarrow> fst i \<noteq> OPCODE_RET"
  by (cases "snd i") (auto simp: instruction_fits_def OPCODE_RET_def opcode_sets)

lemma nth_drop: "drop p bytes = b # rest \<Longrightarrow> p < length bytes \<and> bytes ! p = b"
  by (metis drop_eq_Nil2 list.distinct(1) not_le nth_via_drop)

lemma disassemble_assembled:
  assumes "list_all instruction_fits is" "drop p bytes = assemble is"
  shows "disassemble_from bytes p = Inr (listing p is)"
  using assms
proof (induction "is" arbitrary: p)
  case Nil
  then have "drop p bytes = word_of_nat OPCODE_RET # []" by (simp add: assemble_def)
  from nth_drop [OF this] show ?case
    by (subst disassemble_from.simps) (simp add: unat_byte OPCODE_RET_def)
next
  case (Cons i "is")
  then have fit: "instruction_fits i" by simp
  then have b: "byte (fst i)" "args_fit (fst i) (snd i)" by (simp_all add: instruction_fits_def)
  have d: "drop p bytes = word_of_nat (fst i) # args_bytes (snd i) @ assemble is"
    using Cons.prems(2) by (simp add: assemble_Cons instruction_bytes_def)
  note at = nth_drop [OF d]
  have d1: "drop (Suc p) bytes = args_bytes (snd i) @ assemble is" using d by (simp add: drop_next)
  have read: "read_args bytes (fst i) (Suc p) = Inr (snd i, Suc p + length (args_bytes (snd i)))"
    by (rule read_args_at [OF b(2) d1]) simp
  have "drop (Suc p + length (args_bytes (snd i))) bytes = assemble is"
    using arg_cong [OF d1, of "drop (length (args_bytes (snd i)))"] by (simp add: add.commute)
  from Cons.IH [OF _ this] Cons.prems(1)
  have IH: "disassemble_from bytes (Suc p + length (args_bytes (snd i))) = Inr (listing (Suc p + length (args_bytes (snd i))) is)"
    by simp
  show ?case
    using at b(1) opcode_ret_unfit [OF fit] read IH
    by (subst disassemble_from.simps) (simp add: unat_byte instruction_bytes_def)
qed

lemma hex_nibble_upper:
  "d < 16 \<Longrightarrow> hex_nibble (char_of (if d < 10 then 48 + d else 55 + d)) field = Inr d"
  by (auto simp: hex_nibble_def)

lemma unat_nibbles: "unat (b :: u8) div 16 < 16" "unat b div 16 * 16 + unat b mod 16 = unat b"
proof -
  have "unat b < 256" using unsigned_less [where 'a = nat, of b] by simp
  then show "unat b div 16 < 16" by (simp add: less_mult_imp_div_less)
qed simp

lemma decode_pairs_hex_upper: "decode_pairs (hex_upper bs) field = Inr bs"
proof (induction bs)
  case (Cons b bs)
  have "hex_upper (b # bs) = char_of (if unat b div 16 < 10 then 48 + unat b div 16 else 55 + unat b div 16)
      # char_of (if unat b mod 16 < 10 then 48 + unat b mod 16 else 55 + unat b mod 16) # hex_upper bs"
    by (simp add: hex_upper_def)
  moreover have "word_of_nat (unat b div 16 * 16 + unat b mod 16) = b" unfolding unat_nibbles(2) by simp
  ultimately show ?case
    using Cons unat_nibbles(1) [of b] by (simp add: hex_nibble_upper del: of_nat_add of_nat_mult)
qed (simp add: hex_upper_def)

lemma hex_digit_upper:
  "(d :: nat) < 16 \<Longrightarrow> is_ascii_digit (char_of (if d < 10 then 48 + d else 55 + d)) \<or>
     65 \<le> code (char_of (if d < 10 then 48 + d else 55 + d)) \<and> code (char_of (if d < 10 then 48 + d else 55 + d)) \<le> 70"
  by (auto simp: is_ascii_digit_def)

definition is_upper_hex :: "char \<Rightarrow> bool" where
  "is_upper_hex c \<longleftrightarrow> is_ascii_digit c \<or> 65 \<le> code c \<and> code c \<le> 70"

lemma hex_upper_chars: "c \<in> set (hex_upper bs) \<Longrightarrow> is_upper_hex c"
proof (induction bs)
  case (Cons b bs)
  define h l where "h = unat b div 16" and "l = unat b mod 16"
  have "c = char_of (if h < 10 then 48 + h else 55 + h) \<or> c = char_of (if l < 10 then 48 + l else 55 + l) \<or>
      c \<in> set (hex_upper bs)"
    using Cons.prems unfolding h_def l_def by (simp add: hex_upper_def split del: if_split)
  moreover have "h < 16" "l < 16" using unat_nibbles(1) [of b] by (simp_all add: h_def l_def)
  ultimately show ?case
    using Cons.IH hex_digit_upper [of h] hex_digit_upper [of l] unfolding is_upper_hex_def by metis
qed (simp add: hex_upper_def)

lemma even_hex_upper: "even (length (hex_upper bs))"
  by (induction bs) (simp_all add: hex_upper_def)

lemma decode_hex_upper:
  assumes "bs \<noteq> []"
  shows "trim (hex_upper bs) = hex_upper bs" "hex_upper bs \<noteq> []" "decode_hex_field (hex_upper bs) field = Inr bs"
proof -
  show ne: "hex_upper bs \<noteq> []" using assms by (cases bs) (simp_all add: hex_upper_def)
  have v: "visible_ascii c" if "c \<in> set (hex_upper bs)" for c
    using hex_upper_chars [OF that] by (auto simp: is_upper_hex_def visible_ascii_def is_ascii_digit_def)
  show t: "trim (hex_upper bs) = hex_upper bs" using ne v by (intro trim_visible) simp_all
  have "strip_prefix ''0x'' (hex_upper bs) = None" "strip_prefix ''0X'' (hex_upper bs) = None"
    using hex_upper_chars [of "CHR ''x''" bs] hex_upper_chars [of "CHR ''X''" bs]
    by (auto simp: is_upper_hex_def strip_prefix_def prefix_def is_ascii_digit_def)
  then show "decode_hex_field (hex_upper bs) field = Inr bs"
    using even_hex_upper [of bs] by (simp add: decode_hex_field_def t decode_pairs_hex_upper even_iff_mod_2_eq_zero)
qed

section \<open>Property\<close>

text \<open>C27.  The disassembler lists exactly the instructions of a script: for every sequence of well-formed
  instructions, closed by a return and sent in hexadecimal, the answer is the listing of these instructions
  with their arguments, each at the offset of its first byte.\<close>
theorem script_listing_exact:
  assumes "list_all instruction_fits is"
  shows "instructions lib (Some (hex_upper (assemble is))) =
    Inr (int (Suc (length is)), map (format_vm_instruction lib) (listing 0 is))"
proof -
  note h = decode_hex_upper [of "assemble is", simplified]
  have "length (listing p is) = Suc (length is)" for p by (induction "is" arbitrary: p) simp_all
  moreover have "disassemble_from (assemble is) 0 = Inr (listing 0 is)" by (rule disassemble_assembled [OF assms]) simp
  ultimately show ?thesis
    by (simp add: instructions_def empty_to_none_def h decode_hex_def disassemble_script_bytes_def)
qed

definition demo_vm :: vm_lib where
  "demo_vm = \<lparr>utf8_lossy = map (\<lambda>b. char_of (unat b)), bigint_from_signed_bytes_le = (\<lambda>bs. 0), encode_hex_upper = hex_upper\<rparr>"

definition demo_script :: "(nat \<times> vm_instruction_args) list" where
  "demo_script = [(13, Load 1 4 [72, 105]), (3, Reg1 1), (8, Jump (- 5)), (17, Regs2Len 1 2 300)]"

theorem script_listing_exact_witness:
  "instructions demo_vm (Some (hex_upper (assemble demo_script))) =
   Inr (5, [''000: LOAD r1, \"Hi\"'', ''006: PUSH r1'', ''008: JMP -5'', ''011: LEFT r1, r2, 300'', ''017: RET''])"
proof -
  have "list_all instruction_fits demo_script" by (simp add: demo_script_def instruction_fits_def opcode_sets)
  from script_listing_exact [OF this, of demo_vm]
  have "instructions demo_vm (Some (hex_upper (assemble demo_script))) =
    Inr (int (Suc (length demo_script)), map (format_vm_instruction demo_vm) (listing 0 demo_script))" .
  moreover have "map (format_vm_instruction demo_vm) (listing 0 demo_script) =
      [''000: LOAD r1, \"Hi\"'', ''006: PUSH r1'', ''008: JMP -5'', ''011: LEFT r1, r2, 300'', ''017: RET'']" by code_simp
  ultimately show ?thesis by (simp add: demo_script_def)
qed

end
