(* ===== verification/Config_Load.thy ===== *)
theory Config_Load
  imports Config Rpc_Client "HOL-Library.Code_Target_Nat"
begin

text \<open>
  How the settings of a service are found (\<open>src/crates/config/src/lib.rs\<close>): each one from its environment
  variable, else from the configuration file, else from its default.  The environment, the file system, the
  TOML reader, name resolution and the \<open>url\<close> crate are the record \<open>config_lib\<close>.  \<open>fs::read_to_string\<close> and
  \<open>toml::from_str\<close> give the text of their error.
\<close>

section \<open>The configuration file\<close>

record database_file_config =
  df_url :: "string option"
  df_max_connections :: "nat option"
  df_acquire_timeout_seconds :: "nat option"
  df_statement_timeout_seconds :: "nat option"

record http_file_config =
  hf_bind_addr :: "string option"

record rate_limit_tier_file_config =
  tf_name :: "string option"
  tf_per_minute :: "int option"
  tf_keys :: "string list option"

record rate_limit_file_config =
  rf_enabled :: "bool option"
  rf_require_api_key :: "bool option"
  rf_trusted_proxies :: "string list option"
  rf_per_ip_per_minute :: "nat option"
  rf_global_concurrent_limit :: "nat option"
  rf_global_queue_limit :: "nat option"
  rf_tiers :: "rate_limit_tier_file_config list option"

record chain_file_config =
  cf_nexus :: "string option"
  cf_chain :: "string option"

record rpc_file_config =
  pf_endpoints :: "string list option"
  pf_timeout_seconds :: "nat option"
  pf_max_response_bytes :: "nat option"
  pf_api_key :: "string option"

record worker_file_config =
  wf_poll_seconds :: "nat option"
  wf_queue_capacity :: "nat option"
  wf_fetch_batch_size :: "nat option"
  wf_fetch_concurrency :: "nat option"
  wf_project_concurrency :: "nat option"
  wf_sync_mode :: "string option"
  wf_inter_block_delay_ms :: "nat option"
  wf_batch_delay_ms :: "nat option"
  wf_height_limit :: "nat option"

record logging_file_config =
  lf_file :: "string option"
  lf_console :: "bool option"

record rejected_transactions_file_config =
  jf_capture_enabled :: "bool option"

record explorer_config_file =
  file_database :: "database_file_config option"
  file_http :: "http_file_config option"
  file_rate_limiting :: "rate_limit_file_config option"
  file_chain :: "chain_file_config option"
  file_rpc :: "rpc_file_config option"
  file_worker :: "worker_file_config option"
  file_logging :: "logging_file_config option"
  file_rejected_transactions :: "rejected_transactions_file_config option"

definition default_config_file :: explorer_config_file where
  "default_config_file = \<lparr>file_database = None, file_http = None, file_rate_limiting = None, file_chain = None,
     file_rpc = None, file_worker = None, file_logging = None, file_rejected_transactions = None\<rparr>"

section \<open>Errors and the outside\<close>

datatype config_source =
    ParseIntError int_error
  | ParseBoolError
  | SyncModeError string
  | UrlError string
  | IoError string

datatype config_error =
    MissingEnv string
  | MissingConfig string
  | InvalidEnv string string config_source
  | InvalidConfig string string config_source
  | EmptyUrlList string
  | UnsupportedRpcEndpointPath string string
  | ConfigFileRead string string
  | ConfigFileParse string string
  | DomainFailure domain_error

datatype socket_addr = SocketV4 nat nat nat nat nat | SocketV6 "nat list" nat

record 'u config_lib =
  env_var :: "string \<Rightarrow> string option"
  read_to_string :: "string \<Rightarrow> string + string"
  toml_from_str :: "string \<Rightarrow> string + explorer_config_file"
  to_socket_addrs :: "string \<Rightarrow> string + socket_addr list"
  url_parse :: "string \<Rightarrow> string + 'u"
  url_path :: "'u \<Rightarrow> string"
  url_set_path :: "string \<Rightarrow> 'u \<Rightarrow> 'u"
  url_as_str :: "'u \<Rightarrow> string"

section \<open>Values\<close>

definition parse_bool :: "string \<Rightarrow> config_source + bool" where
  "parse_bool s = (if s = ''true'' then Inr True else if s = ''false'' then Inr False else Inl ParseBoolError)"

definition parse_unsigned :: "nat \<Rightarrow> string \<Rightarrow> config_source + nat" where
  "parse_unsigned w s = map_ok nat (map_err ParseIntError (parse_int 0 (2 ^ w - 1) s))"

definition sync_mode_from_str :: "string \<Rightarrow> config_source + sync_mode" where
  "sync_mode_from_str value =
     (let mode = to_ascii_lowercase (trim value)
      in if mode = ''sequential'' then Inr Sequential
         else if mode = ''normal'' then Inr Normal_Mode
         else if mode \<in> {''relief'', ''slow'', ''single''} then Inr Relief
         else Inl (SyncModeError value))"

definition non_empty_env :: "'u config_lib \<Rightarrow> string \<Rightarrow> string option" where
  "non_empty_env lib name = filter_option (\<lambda>value. value \<noteq> []) (map_option trim (env_var lib name))"

definition non_empty_text :: "string option \<Rightarrow> string option" where
  "non_empty_text file_value = filter_option (\<lambda>value. value \<noteq> []) (map_option trim file_value)"

definition required_env_or_file ::
    "'u config_lib \<Rightarrow> string \<Rightarrow> string \<Rightarrow> string option \<Rightarrow> config_error + string" where
  "required_env_or_file lib env_name config_name file_value =
     ok_or (MissingConfig config_name) (or_else (non_empty_env lib env_name) (non_empty_text file_value))"

definition optional_env_or_file_str :: "'u config_lib \<Rightarrow> string \<Rightarrow> string option \<Rightarrow> string option" where
  "optional_env_or_file_str lib env_name file_value = or_else (non_empty_env lib env_name) (non_empty_text file_value)"

definition env_or_file_or_default ::
    "'u config_lib \<Rightarrow> (string \<Rightarrow> config_source + 'a) \<Rightarrow> string \<Rightarrow> 'a option \<Rightarrow> 'a \<Rightarrow> config_error + 'a" where
  "env_or_file_or_default lib parse env_name file_value fallback =
     (case non_empty_env lib env_name of
        None \<Rightarrow> Inr (unwrap_or file_value fallback)
      | Some value \<Rightarrow> map_err (InvalidEnv env_name value) (parse value))"

definition optional_env_or_file ::
    "'u config_lib \<Rightarrow> (string \<Rightarrow> config_source + 'a) \<Rightarrow> string \<Rightarrow> 'a option \<Rightarrow> config_error + 'a option" where
  "optional_env_or_file lib parse env_name file_value =
     (case non_empty_env lib env_name of
        None \<Rightarrow> Inr file_value
      | Some value \<Rightarrow> map_err (InvalidEnv env_name value) (map_ok Some (parse value)))"

definition env_or_file_str_or_default ::
    "'u config_lib \<Rightarrow> (string \<Rightarrow> config_source + 'a) \<Rightarrow> string \<Rightarrow> string \<Rightarrow> string option \<Rightarrow> 'a \<Rightarrow> config_error + 'a" where
  "env_or_file_str_or_default lib parse env_name config_name file_value fallback =
     (case non_empty_env lib env_name of
        Some value \<Rightarrow> map_err (InvalidEnv env_name value) (parse value)
      | None \<Rightarrow>
          (case non_empty_text file_value of
             None \<Rightarrow> Inr fallback
           | Some value \<Rightarrow> map_err (InvalidConfig config_name value) (parse value)))"

definition worker_sync_mode_from_env_or_file :: "'u config_lib \<Rightarrow> string option \<Rightarrow> config_error + sync_mode" where
  "worker_sync_mode_from_env_or_file lib file_value =
     (case non_empty_env lib ''EXPLORER_WORKER_SYNC_MODE'' of
        Some value \<Rightarrow> map_err (InvalidEnv ''EXPLORER_WORKER_SYNC_MODE'' value) (sync_mode_from_str value)
      | None \<Rightarrow>
          (case non_empty_text file_value of
             None \<Rightarrow> Inr Normal_Mode
           | Some value \<Rightarrow> map_err (InvalidConfig ''worker.sync_mode'' value) (sync_mode_from_str value)))"

definition resolve_bind_addr :: "'u config_lib \<Rightarrow> string option \<Rightarrow> config_error + socket_addr" where
  "resolve_bind_addr lib file_value =
     (let resolve = (\<lambda>raw name. and_then (map_err (\<lambda>e. InvalidConfig name raw (IoError e)) (to_socket_addrs lib raw))
              (\<lambda>addrs. case addrs of
                 [] \<Rightarrow> Inl (InvalidConfig name raw (IoError ''host resolved to no socket addresses''))
               | addr # _ \<Rightarrow> Inr addr))
      in case non_empty_env lib ''EXPLORER_BIND_ADDR'' of
           Some value \<Rightarrow> resolve value ''EXPLORER_BIND_ADDR''
         | None \<Rightarrow>
             (case non_empty_text file_value of
                Some value \<Rightarrow> resolve value ''http.bind_addr''
              | None \<Rightarrow> Inr (SocketV4 127 0 0 1 9000)))"

section \<open>Endpoints\<close>

definition normalize_rpc_endpoint :: "'u config_lib \<Rightarrow> string \<Rightarrow> 'u \<Rightarrow> config_error + 'u" where
  "normalize_rpc_endpoint lib name url =
     (let normalized_path = trim_end_matches (CHR ''/'') (url_path lib url)
      in if normalized_path = [] then Inr (url_set_path lib ''rpc'' url)
         else if normalized_path \<in> {''/rpc'', ''/rpc/v2''} then Inr url
         else Inl (UnsupportedRpcEndpointPath name (url_as_str lib url)))"

definition non_empty_items :: "string list \<Rightarrow> string list" where
  "non_empty_items values = filter (\<lambda>item. item \<noteq> []) (map trim values)"

definition parse_url_list :: "'u config_lib \<Rightarrow> string \<Rightarrow> string \<Rightarrow> config_error + 'u list" where
  "parse_url_list lib name value =
     and_then (collect_results (map (\<lambda>item. map_err (\<lambda>e. InvalidEnv name item (UrlError e)) (url_parse lib item))
       (non_empty_items (split_on (CHR '','') value))))
       (\<lambda>urls. if urls = [] then Inl (EmptyUrlList name) else Inr urls)"

definition rpc_endpoint_env :: "'u config_lib \<Rightarrow> (string \<times> string) option" where
  "rpc_endpoint_env lib =
     (let endpoints = (\<lambda>name. map_option (\<lambda>value. (name, value)) (filter_option (\<lambda>value. trim value \<noteq> []) (env_var lib name)))
      in or_else (endpoints ''EXPLORER_RPC_ENDPOINTS'') (endpoints ''EXPLORER_REST_NODES''))"

definition parse_rpc_endpoint_list :: "'u config_lib \<Rightarrow> string \<Rightarrow> string \<Rightarrow> config_error + 'u list" where
  "parse_rpc_endpoint_list lib name value =
     and_then (parse_url_list lib name value) (\<lambda>urls. collect_results (map (normalize_rpc_endpoint lib name) urls))"

definition parse_rpc_endpoint_values :: "'u config_lib \<Rightarrow> string \<Rightarrow> string list \<Rightarrow> config_error + 'u list" where
  "parse_rpc_endpoint_values lib name values =
     and_then (collect_results (map (\<lambda>item.
         and_then (map_err (\<lambda>e. InvalidConfig name item (UrlError e)) (url_parse lib item)) (normalize_rpc_endpoint lib name))
       (non_empty_items values)))
       (\<lambda>urls. if urls = [] then Inl (EmptyUrlList name) else Inr urls)"

section \<open>Settings of a service\<close>

text \<open>Durations are in milliseconds.  The members of a struct are computed in the order they are written.\<close>

record database_config =
  db_url :: string
  db_max_connections :: nat
  db_acquire_timeout :: nat
  db_statement_timeout :: "nat option"

record chain_config =
  chain_nexus :: nexus_name
  chain_chain :: chain_name

record logging_config =
  log_file :: "string option"
  log_console :: bool

record app_config =
  app_service_name :: string
  app_database :: database_config
  app_chain :: chain_config
  app_rpc :: rpc_config
  app_worker :: worker_config
  app_logging :: logging_config

record api_config =
  api_service_name :: string
  api_http :: socket_addr
  api_rate_limiting :: rate_limit_config
  api_database :: database_config
  api_chain :: chain_config
  api_logging :: logging_config
  api_capture_enabled :: bool
  api_rpc :: "rpc_config option"

record migration_config =
  mig_service_name :: string
  mig_database :: database_config
  mig_logging :: logging_config

definition database_config_load :: "'u config_lib \<Rightarrow> database_file_config option \<Rightarrow> config_error + database_config" where
  "database_config_load lib file =
     and_then (required_env_or_file lib ''EXPLORER_DATABASE_URL'' ''database.url'' (Option.bind file df_url)) (\<lambda>url.
     and_then (env_or_file_or_default lib (parse_unsigned 32) ''EXPLORER_DATABASE_MAX_CONNECTIONS''
       (Option.bind file df_max_connections) 16) (\<lambda>max_connections.
     and_then (env_or_file_or_default lib (parse_unsigned 64) ''EXPLORER_DATABASE_ACQUIRE_TIMEOUT_SECONDS''
       (Option.bind file df_acquire_timeout_seconds) 10) (\<lambda>acquire.
     and_then (optional_env_or_file lib (parse_unsigned 64) ''EXPLORER_DATABASE_STATEMENT_TIMEOUT_SECONDS''
       (Option.bind file df_statement_timeout_seconds)) (\<lambda>statement.
     Inr \<lparr>db_url = url, db_max_connections = max_connections, db_acquire_timeout = acquire * 1000,
          db_statement_timeout = map_option (\<lambda>s. s * 1000) statement\<rparr>))))"

definition chain_config_load :: "'u config_lib \<Rightarrow> chain_file_config option \<Rightarrow> config_error + chain_config" where
  "chain_config_load lib file =
     and_then (env_or_file_str_or_default lib Inr ''EXPLORER_NEXUS'' ''chain.nexus'' (Option.bind file cf_nexus) ''mainnet'')
       (\<lambda>nexus.
     and_then (map_err DomainFailure (nexus_name_new nexus)) (\<lambda>nexus.
     and_then (env_or_file_str_or_default lib Inr ''EXPLORER_CHAIN'' ''chain.chain'' (Option.bind file cf_chain) ''main'')
       (\<lambda>chain.
     and_then (map_err DomainFailure (chain_name_new chain)) (\<lambda>chain.
     Inr \<lparr>chain_nexus = nexus, chain_chain = chain\<rparr>))))"

definition logging_config_load :: "'u config_lib \<Rightarrow> logging_file_config option \<Rightarrow> config_error + logging_config" where
  "logging_config_load lib file =
     (let file_path = or_else (non_empty_env lib ''EXPLORER_LOG_FILE'') (Option.bind file lf_file)
      in map_ok (\<lambda>console. \<lparr>log_file = file_path, log_console = console\<rparr>)
           (env_or_file_or_default lib parse_bool ''EXPLORER_LOG_CONSOLE'' (Option.bind file lf_console) True))"

definition rpc_endpoints_load :: "'u config_lib \<Rightarrow> rpc_file_config option \<Rightarrow> config_error + 'u list" where
  "rpc_endpoints_load lib file =
     (case rpc_endpoint_env lib of
        Some (endpoint_env, raw_endpoints) \<Rightarrow> parse_rpc_endpoint_list lib endpoint_env raw_endpoints
      | None \<Rightarrow>
          (case Option.bind file pf_endpoints of
             Some endpoints \<Rightarrow> parse_rpc_endpoint_values lib ''rpc.endpoints'' endpoints
           | None \<Rightarrow> Inl (MissingConfig ''rpc.endpoints'')))"

definition rpc_config_load :: "'u config_lib \<Rightarrow> rpc_file_config option \<Rightarrow> config_error + rpc_config" where
  "rpc_config_load lib file =
     and_then (rpc_endpoints_load lib file) (\<lambda>endpoints.
     and_then (env_or_file_or_default lib (parse_unsigned 64) ''EXPLORER_RPC_TIMEOUT_SECONDS''
       (Option.bind file pf_timeout_seconds) 30) (\<lambda>timeout.
     and_then (env_or_file_or_default lib (parse_unsigned 64) ''EXPLORER_RPC_MAX_RESPONSE_BYTES''
       (Option.bind file pf_max_response_bytes) (256 * 1024 * 1024)) (\<lambda>max_response_bytes.
     Inr \<lparr>rpc_endpoints = map (url_as_str lib) endpoints, rpc_timeout = timeout * 1000,
          rpc_max_response_bytes = max_response_bytes,
          rpc_api_key = optional_env_or_file_str lib ''EXPLORER_RPC_API_KEY'' (Option.bind file pf_api_key)\<rparr>)))"

definition worker_config_load :: "'u config_lib \<Rightarrow> worker_file_config option \<Rightarrow> config_error + worker_config" where
  "worker_config_load lib file =
     (let setting = (\<lambda>env_name file_value fallback. env_or_file_or_default lib (parse_unsigned 64) env_name file_value fallback)
      in and_then (setting ''EXPLORER_WORKER_POLL_SECONDS'' (Option.bind file wf_poll_seconds) 5) (\<lambda>poll.
         and_then (setting ''EXPLORER_WORKER_QUEUE_CAPACITY'' (Option.bind file wf_queue_capacity) 500) (\<lambda>queue.
         and_then (setting ''EXPLORER_WORKER_FETCH_BATCH_SIZE'' (Option.bind file wf_fetch_batch_size) 1000) (\<lambda>batch_size.
         and_then (setting ''EXPLORER_WORKER_FETCH_CONCURRENCY'' (Option.bind file wf_fetch_concurrency) 6) (\<lambda>fetch.
         and_then (setting ''EXPLORER_WORKER_PROJECT_CONCURRENCY'' (Option.bind file wf_project_concurrency) 1) (\<lambda>project.
         and_then (worker_sync_mode_from_env_or_file lib (Option.bind file wf_sync_mode)) (\<lambda>mode.
         and_then (setting ''EXPLORER_WORKER_INTER_BLOCK_DELAY_MS'' (Option.bind file wf_inter_block_delay_ms) 0) (\<lambda>block_delay.
         and_then (setting ''EXPLORER_WORKER_BATCH_DELAY_MS'' (Option.bind file wf_batch_delay_ms) 0) (\<lambda>batch_delay.
         and_then (optional_env_or_file lib (parse_unsigned 64) ''EXPLORER_WORKER_HEIGHT_LIMIT''
           (Option.bind file wf_height_limit)) (\<lambda>limit.
         Inr \<lparr>poll_interval = poll * 1000, queue_capacity = queue, fetch_batch_size = batch_size,
              fetch_concurrency = fetch, project_concurrency = project, sync_mode = mode,
              inter_block_delay = block_delay, batch_delay = batch_delay, height_limit = limit\<rparr>))))))))))"

definition rate_limit_tier_of :: "rate_limit_tier_file_config \<Rightarrow> rate_limit_tier" where
  "rate_limit_tier_of tier = \<lparr>tier_name = unwrap_or (tf_name tier) [], tier_per_minute = unwrap_or (tf_per_minute tier) 0,
     tier_keys = unwrap_or (tf_keys tier) []\<rparr>"

definition rate_limit_config_load :: "'u config_lib \<Rightarrow> rate_limit_file_config option \<Rightarrow> config_error + rate_limit_config" where
  "rate_limit_config_load lib file =
     (let key_tiers = unwrap_or (map_option (map rate_limit_tier_of) (Option.bind file rf_tiers)) []
      in and_then (env_or_file_or_default lib parse_bool ''EXPLORER_RATE_LIMIT_ENABLED'' (Option.bind file rf_enabled) True) (\<lambda>enabled.
         and_then (env_or_file_or_default lib parse_bool ''EXPLORER_RATE_LIMIT_REQUIRE_API_KEY''
           (Option.bind file rf_require_api_key) False) (\<lambda>require_api_key.
         and_then (env_or_file_or_default lib (parse_unsigned 32) ''EXPLORER_RATE_LIMIT_PER_IP_PER_MINUTE''
           (Option.bind file rf_per_ip_per_minute) 300) (\<lambda>per_ip.
         and_then (env_or_file_or_default lib (parse_unsigned 64) ''EXPLORER_RATE_LIMIT_GLOBAL_CONCURRENT_LIMIT''
           (Option.bind file rf_global_concurrent_limit) 1000) (\<lambda>concurrent.
         and_then (env_or_file_or_default lib (parse_unsigned 64) ''EXPLORER_RATE_LIMIT_GLOBAL_QUEUE_LIMIT''
           (Option.bind file rf_global_queue_limit) 200) (\<lambda>queue.
         Inr \<lparr>rl_enabled = enabled, rl_require_api_key = require_api_key,
              rl_trusted_proxies = unwrap_or (Option.bind file rf_trusted_proxies) [],
              rl_per_ip_per_minute = per_ip, rl_global_concurrent_limit = concurrent, rl_global_queue_limit = queue,
              rl_key_tiers = key_tiers\<rparr>))))))"

definition config_file_path_from_env :: "'u config_lib \<Rightarrow> string option" where
  "config_file_path_from_env lib = non_empty_env lib ''EXPLORER_CONFIG_FILE''"

definition load_optional :: "'u config_lib \<Rightarrow> string option \<Rightarrow> config_error + explorer_config_file" where
  "load_optional lib path =
     (case path of
        None \<Rightarrow> Inr default_config_file
      | Some path \<Rightarrow>
          and_then (map_err (ConfigFileRead path) (read_to_string lib path)) (\<lambda>content.
          map_err (ConfigFileParse path) (toml_from_str lib content)))"

definition app_config_from_file_or_env :: "'u config_lib \<Rightarrow> string \<Rightarrow> string option \<Rightarrow> config_error + app_config" where
  "app_config_from_file_or_env lib service_name config_file_path =
     and_then (load_optional lib config_file_path) (\<lambda>file.
     and_then (database_config_load lib (file_database file)) (\<lambda>database.
     and_then (chain_config_load lib (file_chain file)) (\<lambda>chain.
     and_then (rpc_config_load lib (file_rpc file)) (\<lambda>rpc.
     and_then (worker_config_load lib (file_worker file)) (\<lambda>worker.
     and_then (logging_config_load lib (file_logging file)) (\<lambda>logging.
     Inr \<lparr>app_service_name = service_name, app_database = database, app_chain = chain, app_rpc = rpc,
          app_worker = worker, app_logging = logging\<rparr>))))))"

definition app_config_from_env :: "'u config_lib \<Rightarrow> string \<Rightarrow> config_error + app_config" where
  "app_config_from_env lib service_name = app_config_from_file_or_env lib service_name (config_file_path_from_env lib)"

definition rejected_transactions_load ::
    "'u config_lib \<Rightarrow> rejected_transactions_file_config option \<Rightarrow> config_error + bool" where
  "rejected_transactions_load lib file =
     env_or_file_or_default lib parse_bool ''EXPLORER_REJECTED_TX_CAPTURE_ENABLED'' (Option.bind file jf_capture_enabled) False"

definition api_config_from_file_or_env :: "'u config_lib \<Rightarrow> string \<Rightarrow> string option \<Rightarrow> config_error + api_config" where
  "api_config_from_file_or_env lib service_name config_file_path =
     and_then (load_optional lib config_file_path) (\<lambda>file.
     and_then (rejected_transactions_load lib (file_rejected_transactions file)) (\<lambda>capture_enabled.
     and_then (if capture_enabled then map_ok Some (rpc_config_load lib (file_rpc file)) else Inr None) (\<lambda>rpc.
     and_then (resolve_bind_addr lib (Option.bind (file_http file) hf_bind_addr)) (\<lambda>http.
     and_then (rate_limit_config_load lib (file_rate_limiting file)) (\<lambda>rate_limiting.
     and_then (database_config_load lib (file_database file)) (\<lambda>database.
     and_then (chain_config_load lib (file_chain file)) (\<lambda>chain.
     and_then (logging_config_load lib (file_logging file)) (\<lambda>logging.
     Inr \<lparr>api_service_name = service_name, api_http = http, api_rate_limiting = rate_limiting,
          api_database = database, api_chain = chain, api_logging = logging,
          api_capture_enabled = capture_enabled, api_rpc = rpc\<rparr>))))))))"

definition migration_config_from_file_or_env ::
    "'u config_lib \<Rightarrow> string \<Rightarrow> string option \<Rightarrow> config_error + migration_config" where
  "migration_config_from_file_or_env lib service_name config_file_path =
     and_then (load_optional lib config_file_path) (\<lambda>file.
     and_then (database_config_load lib (file_database file)) (\<lambda>database.
     and_then (logging_config_load lib (file_logging file)) (\<lambda>logging.
     Inr \<lparr>mig_service_name = service_name, mig_database = database, mig_logging = logging\<rparr>)))"

section \<open>Endpoints and names of a loaded configuration\<close>

lemma non_empty_env_Some: "non_empty_env lib name = Some v \<Longrightarrow> v \<noteq> [] \<and> trim v = v \<and> (\<exists>raw. env_var lib name = Some raw \<and> v = trim raw)"
  by (auto simp: non_empty_env_def filter_option_eq_Some)

lemma non_empty_text_Some: "non_empty_text t = Some v \<Longrightarrow> v \<noteq> [] \<and> trim v = v"
  by (auto simp: non_empty_text_def filter_option_eq_Some)

lemma non_empty_items_set: "item \<in> set (non_empty_items values) \<Longrightarrow> item \<noteq> [] \<and> trim item = item"
  by (auto simp: non_empty_items_def)

definition rpc_route :: "'u config_lib \<Rightarrow> 'u \<Rightarrow> bool" where
  "rpc_route lib url \<longleftrightarrow> trim_end_matches (CHR ''/'') (url_path lib url) \<in> {''/rpc'', ''/rpc/v2''}"

text \<open>What the \<open>url\<close> crate documents of \<open>set_path\<close> for the addresses it can parse here.\<close>

definition set_path_law :: "'u config_lib \<Rightarrow> bool" where
  "set_path_law lib \<longleftrightarrow> (\<forall>url. trim_end_matches (CHR ''/'') (url_path lib url) = [] \<longrightarrow> url_path lib (url_set_path lib ''rpc'' url) = ''/rpc'')"

lemma normalize_rpc_endpoint_route:
  assumes "set_path_law lib" "normalize_rpc_endpoint lib name url = Inr u"
  shows "rpc_route lib u"
proof (cases "trim_end_matches (CHR ''/'') (url_path lib url) = []")
  case True
  then have "u = url_set_path lib ''rpc'' url" using assms(2) by (simp add: normalize_rpc_endpoint_def)
  moreover have "url_path lib (url_set_path lib ''rpc'' url) = ''/rpc''" using assms(1) True by (simp add: set_path_law_def)
  ultimately show ?thesis by (simp add: rpc_route_def trim_end_matches_def)
next
  case False
  then show ?thesis using assms(2) by (simp add: normalize_rpc_endpoint_def rpc_route_def Let_def split: if_splits)
qed

lemma collect_results_map:
  assumes "collect_results (map f xs) = Inr ys"
  shows "length ys = length xs" "y \<in> set ys \<Longrightarrow> \<exists>x\<in>set xs. f x = Inr y"
proof -
  have "map f xs = map Inr ys" using assms by (simp add: collect_results_Inr)
  then show "length ys = length xs" "y \<in> set ys \<Longrightarrow> \<exists>x\<in>set xs. f x = Inr y"
    by (metis length_map) (metis (mono_tags, lifting) \<open>map f xs = map Inr ys\<close> imageE image_eqI set_map)
qed

lemma endpoint_list_routes:
  assumes "set_path_law lib" "parse_rpc_endpoint_list lib name value = Inr urls"
  shows "urls \<noteq> [] \<and> list_all (rpc_route lib) urls"
proof -
  obtain parsed where "parse_url_list lib name value = Inr parsed"
      and n: "collect_results (map (normalize_rpc_endpoint lib name) parsed) = Inr urls"
    using assms(2) by (auto simp: parse_rpc_endpoint_list_def and_then_eq_Inr)
  then have "parsed \<noteq> []" by (auto simp: parse_url_list_def and_then_eq_Inr split: if_splits)
  then have "urls \<noteq> []" using collect_results_map(1) [OF n] by auto
  moreover have "list_all (rpc_route lib) urls"
    using collect_results_map(2) [OF n] normalize_rpc_endpoint_route [OF assms(1)] by (fastforce simp: list_all_iff)
  ultimately show ?thesis by simp
qed

lemma endpoint_values_routes:
  assumes "set_path_law lib" "parse_rpc_endpoint_values lib name values = Inr urls"
  shows "urls \<noteq> [] \<and> list_all (rpc_route lib) urls"
proof -
  have n: "collect_results (map (\<lambda>item. and_then (map_err (\<lambda>e. InvalidConfig name item (UrlError e)) (url_parse lib item))
      (normalize_rpc_endpoint lib name)) (non_empty_items values)) = Inr urls" and "urls \<noteq> []"
    using assms(2) by (auto simp: parse_rpc_endpoint_values_def and_then_eq_Inr split: if_splits)
  moreover have "list_all (rpc_route lib) urls"
    using collect_results_map(2) [OF n] normalize_rpc_endpoint_route [OF assms(1)]
    by (fastforce simp: list_all_iff and_then_eq_Inr)
  ultimately show ?thesis by simp
qed

lemma rpc_endpoints_load_routes:
  "set_path_law lib \<Longrightarrow> rpc_endpoints_load lib file = Inr urls \<Longrightarrow> urls \<noteq> [] \<and> list_all (rpc_route lib) urls"
  unfolding rpc_endpoints_load_def
  by (split option.splits prod.splits)+ (auto dest: endpoint_list_routes endpoint_values_routes split: option.splits)

lemma name_setting_valid:
  assumes "env_or_file_str_or_default lib Inr env_name config_name file_value fallback = Inr v" "trim fallback \<noteq> []"
  shows "trim v \<noteq> []"
  using assms
  by (auto simp: env_or_file_str_or_default_def split: option.splits dest!: non_empty_env_Some non_empty_text_Some)

lemma chain_config_valid:
  assumes "chain_config_load lib file = Inr c"
  shows "well_formed_name (nexus_name_as_str (chain_nexus c))" "well_formed_name (chain_name_as_str (chain_chain c))"
  using assms
  by (auto simp: chain_config_load_def and_then_eq_Inr map_err_eq_Inr nexus_name_new_def chain_name_new_def map_ok_eq_Inr
      non_empty_new_Inr well_formed_name_def)

lemma chain_config_total: "\<exists>c. chain_config_load lib file = Inr c"
proof -
  have "\<exists>v. env_or_file_str_or_default lib Inr a b t d = Inr v" for a b t and d :: string
    by (auto simp: env_or_file_str_or_default_def split: option.splits)
  then obtain n c where
    n: "env_or_file_str_or_default lib Inr ''EXPLORER_NEXUS'' ''chain.nexus'' (Option.bind file cf_nexus) ''mainnet'' = Inr n" and
    c: "env_or_file_str_or_default lib Inr ''EXPLORER_CHAIN'' ''chain.chain'' (Option.bind file cf_chain) ''main'' = Inr c"
    by metis
  have "trim ''mainnet'' = ''mainnet''" "trim ''main'' = ''main''"
    by (intro trim_visible; simp add: visible_ascii_def)+
  then have "trim n \<noteq> []" "trim c \<noteq> []" using name_setting_valid [OF n] name_setting_valid [OF c] by simp_all
  then show ?thesis
    using n c by (simp add: chain_config_load_def nexus_name_new_def chain_name_new_def non_empty_new_def Let_def)
qed

lemma required_setting_valid:
  "required_env_or_file lib env_name config_name file_value = Inr v \<Longrightarrow> v \<noteq> [] \<and> trim v = v"
  unfolding required_env_or_file_def or_else_def ok_or_def
  by (auto dest!: non_empty_env_Some non_empty_text_Some split: option.splits)

lemma database_config_url: "database_config_load lib file = Inr d \<Longrightarrow> db_url d \<noteq> []"
  by (auto simp: database_config_load_def and_then_eq_Inr dest: required_setting_valid)

lemma rpc_config_endpoints:
  "rpc_config_load lib file = Inr r \<Longrightarrow>
     \<exists>urls. rpc_endpoints_load lib file = Inr urls \<and> rpc_endpoints r = map (url_as_str lib) urls"
  by (auto simp: rpc_config_load_def and_then_eq_Inr)

section \<open>A file says what an environment can say\<close>

text \<open>The variables that stand for the worker section of a file, and an environment in which they take the
  place of the variables that are unset or blank.\<close>

definition worker_file_env :: "worker_file_config \<Rightarrow> (string \<times> string option) list" where
  "worker_file_env file =
     [(''EXPLORER_WORKER_POLL_SECONDS'', map_option show_nat (wf_poll_seconds file)),
      (''EXPLORER_WORKER_QUEUE_CAPACITY'', map_option show_nat (wf_queue_capacity file)),
      (''EXPLORER_WORKER_FETCH_BATCH_SIZE'', map_option show_nat (wf_fetch_batch_size file)),
      (''EXPLORER_WORKER_FETCH_CONCURRENCY'', map_option show_nat (wf_fetch_concurrency file)),
      (''EXPLORER_WORKER_PROJECT_CONCURRENCY'', map_option show_nat (wf_project_concurrency file)),
      (''EXPLORER_WORKER_SYNC_MODE'', wf_sync_mode file),
      (''EXPLORER_WORKER_INTER_BLOCK_DELAY_MS'', map_option show_nat (wf_inter_block_delay_ms file)),
      (''EXPLORER_WORKER_BATCH_DELAY_MS'', map_option show_nat (wf_batch_delay_ms file)),
      (''EXPLORER_WORKER_HEIGHT_LIMIT'', map_option show_nat (wf_height_limit file))]"

definition with_variables :: "(string \<times> string option) list \<Rightarrow> 'u config_lib \<Rightarrow> 'u config_lib" where
  "with_variables settings lib =
     lib\<lparr>env_var := \<lambda>name. if non_empty_env lib name \<noteq> None then env_var lib name else Option.bind (map_of settings name) (\<lambda>v. v)\<rparr>"

definition fits :: "nat \<Rightarrow> nat option \<Rightarrow> bool" where
  "fits w v \<longleftrightarrow> (case v of None \<Rightarrow> True | Some n \<Rightarrow> n < 2 ^ w)"

definition worker_file_ok :: "worker_file_config \<Rightarrow> bool" where
  "worker_file_ok file \<longleftrightarrow> list_all (fits 64) [wf_poll_seconds file, wf_queue_capacity file, wf_fetch_batch_size file,
     wf_fetch_concurrency file, wf_project_concurrency file, wf_inter_block_delay_ms file, wf_batch_delay_ms file,
     wf_height_limit file]"

lemma non_empty_env_with:
  "non_empty_env (with_variables settings lib) name =
     or_else (non_empty_env lib name) (non_empty_text (Option.bind (map_of settings name) (\<lambda>v. v)))"
proof (cases "non_empty_env lib name")
  case None
  then have "env_var (with_variables settings lib) name = Option.bind (map_of settings name) (\<lambda>v. v)"
    by (simp add: with_variables_def)
  then have "non_empty_env (with_variables settings lib) name = non_empty_text (Option.bind (map_of settings name) (\<lambda>v. v))"
    by (simp add: non_empty_env_def non_empty_text_def)
  then show ?thesis using None by simp
next
  case (Some v)
  then have "env_var (with_variables settings lib) name = env_var lib name" by (simp add: with_variables_def)
  then show ?thesis using Some by (simp add: non_empty_env_def)
qed

lemma printed_number: "non_empty_text (Some (show_nat n)) = Some (show_nat n)"
  "n < 2 ^ w \<Longrightarrow> parse_unsigned w (show_nat n) = Inr n"
proof -
  have "trim (show_nat n) = show_nat n"
    using show_nat_digits [of "hd (show_nat n)" n] show_nat_digits [of "last (show_nat n)" n]
    by (intro trim_visible) (simp_all add: visible_ascii_def is_ascii_digit_def)
  then show "non_empty_text (Some (show_nat n)) = Some (show_nat n)" by (simp add: non_empty_text_def)
next
  assume "n < 2 ^ w"
  then have "int n \<le> 2 ^ w - 1" by (metis int_ops(6) int_nat_eq of_nat_1 of_nat_less_iff of_nat_numeral of_nat_power zle_diff1_eq)
  then have "parse_int 0 (2 ^ w - 1) (show_int (int n)) = Inr (int n)" by (intro parse_int_show_int) simp_all
  then show "parse_unsigned w (show_nat n) = Inr n" by (simp add: parse_unsigned_def show_int_def)
qed

lemma number_with_variables:
  assumes "map_of settings name = Some (map_option show_nat v)" "fits w v"
  shows "env_or_file_or_default (with_variables settings lib) (parse_unsigned w) name None d =
      env_or_file_or_default lib (parse_unsigned w) name v d"
    "optional_env_or_file (with_variables settings lib) (parse_unsigned w) name None =
      optional_env_or_file lib (parse_unsigned w) name v"
  using assms
  by (cases v; cases "non_empty_env lib name";
      simp add: env_or_file_or_default_def optional_env_or_file_def non_empty_env_with printed_number fits_def
        non_empty_text_def [of None])+

section \<open>Errors\<close>

text \<open>Why a configuration is refused, seen from the operator's side.\<close>

definition error_explained :: "'u config_lib \<Rightarrow> string option \<Rightarrow> config_error \<Rightarrow> bool" where
  "error_explained lib path e =
     (case e of
        ConfigFileRead p t \<Rightarrow> path = Some p \<and> read_to_string lib p = Inl t
      | ConfigFileParse p t \<Rightarrow> path = Some p \<and> (\<exists>content. read_to_string lib p = Inr content \<and> toml_from_str lib content = Inl t)
      | InvalidEnv name value source \<Rightarrow>
          (\<exists>raw. env_var lib name = Some raw \<and> value \<noteq> [] \<and>
             (value = trim raw \<or> value \<in> set (non_empty_items (split_on (CHR '','') raw))))
      | InvalidConfig name value source \<Rightarrow> path \<noteq> None \<and> value \<noteq> [] \<and>
          (name = ''worker.sync_mode'' \<and> non_empty_env lib ''EXPLORER_WORKER_SYNC_MODE'' = None \<or>
           name = ''rpc.endpoints'' \<and> rpc_endpoint_env lib = None)
      | MissingConfig name \<Rightarrow>
          name = ''database.url'' \<and> non_empty_env lib ''EXPLORER_DATABASE_URL'' = None \<or>
          name = ''rpc.endpoints'' \<and> rpc_endpoint_env lib = None
      | EmptyUrlList name \<Rightarrow>
          (\<exists>raw. rpc_endpoint_env lib = Some (name, raw) \<and> non_empty_items (split_on (CHR '','') raw) = []) \<or>
          name = ''rpc.endpoints'' \<and> rpc_endpoint_env lib = None
      | UnsupportedRpcEndpointPath name text \<Rightarrow> (\<exists>url. text = url_as_str lib url \<and> \<not> rpc_route lib url)
      | MissingEnv name \<Rightarrow> False
      | DomainFailure d \<Rightarrow> False)"

lemma collect_results_error: "collect_results (map f xs) = Inl e \<Longrightarrow> \<exists>x\<in>set xs. f x = Inl e"
proof (induction xs)
  case (Cons x xs)
  then show ?case by (cases "f x"; cases "collect_results (map f xs)") auto
qed simp

lemma setting_errors:
  "env_or_file_or_default lib parse name v d = Inl e \<Longrightarrow> error_explained lib path e"
  "optional_env_or_file lib parse name v = Inl e \<Longrightarrow> error_explained lib path e"
  by (auto simp: env_or_file_or_default_def optional_env_or_file_def error_explained_def map_err_eq_Inl map_ok_def
      split: option.splits sum.splits dest!: non_empty_env_Some)

lemma database_errors: "database_config_load lib file = Inl e \<Longrightarrow> error_explained lib path e"
  by (auto simp: database_config_load_def and_then_eq_Inl required_env_or_file_def ok_or_def or_else_def
      error_explained_def split: option.splits dest: setting_errors [unfolded error_explained_def])

lemma logging_errors: "logging_config_load lib file = Inl e \<Longrightarrow> error_explained lib path e"
  by (cases "env_or_file_or_default lib parse_bool ''EXPLORER_LOG_CONSOLE'' (Option.bind file lf_console) True")
    (auto simp: logging_config_load_def Let_def dest: setting_errors)

lemma sync_mode_errors:
  assumes "worker_sync_mode_from_env_or_file lib t = Inl e" "t = None \<or> path \<noteq> None"
  shows "error_explained lib path e"
proof (cases "non_empty_env lib ''EXPLORER_WORKER_SYNC_MODE''")
  case None
  then have "t \<noteq> None" using assms(1) by (cases t) (auto simp: worker_sync_mode_from_env_or_file_def non_empty_text_def)
  then show ?thesis
    using assms None
    by (auto simp: worker_sync_mode_from_env_or_file_def error_explained_def map_err_eq_Inl split: option.splits
        dest!: non_empty_text_Some)
next
  case (Some v)
  then show ?thesis
    using assms(1)
    by (auto simp: worker_sync_mode_from_env_or_file_def error_explained_def map_err_eq_Inl dest!: non_empty_env_Some)
qed

lemma worker_errors:
  assumes "worker_config_load lib file = Inl e" "file = None \<or> path \<noteq> None"
  shows "error_explained lib path e"
proof -
  consider (setting) name v d where "env_or_file_or_default lib (parse_unsigned 64) name v d = Inl e"
    | (mode) "worker_sync_mode_from_env_or_file lib (Option.bind file wf_sync_mode) = Inl e"
    | (limit) name v where "optional_env_or_file lib (parse_unsigned 64) name v = Inl e"
    using assms(1) unfolding worker_config_load_def Let_def and_then_eq_Inl by blast
  then show ?thesis
  proof cases
    case setting
    then show ?thesis by (rule setting_errors)
  next
    case mode
    moreover have "Option.bind file wf_sync_mode = None \<or> path \<noteq> None" using assms(2) by auto
    ultimately show ?thesis by (rule sync_mode_errors)
  next
    case limit
    then show ?thesis by (rule setting_errors)
  qed
qed

lemma normalize_errors: "normalize_rpc_endpoint lib name url = Inl e \<Longrightarrow> error_explained lib path e"
  by (auto simp: normalize_rpc_endpoint_def error_explained_def rpc_route_def Let_def split: if_splits)

lemma endpoint_list_errors:
  assumes "rpc_endpoint_env lib = Some (name, raw)" "parse_rpc_endpoint_list lib name raw = Inl e"
  shows "error_explained lib path e"
proof -
  have raw: "env_var lib name = Some raw"
    using assms(1) by (auto simp: rpc_endpoint_env_def or_else_def Let_def filter_option_eq_Some split: option.splits)
  consider (url) item t where "item \<in> set (non_empty_items (split_on (CHR '','') raw))" "e = InvalidEnv name item (UrlError t)"
    | (none) "e = EmptyUrlList name" "non_empty_items (split_on (CHR '','') raw) = []"
    | (path) url where "normalize_rpc_endpoint lib name url = Inl e"
    using assms(2) unfolding parse_rpc_endpoint_list_def parse_url_list_def and_then_eq_Inl
    by (auto simp: collect_results_Inr map_err_eq_Inl dest!: collect_results_error split: if_splits)
  then show ?thesis
  proof cases
    case url
    then show ?thesis using raw non_empty_items_set [OF url(1)] by (auto simp: error_explained_def)
  next
    case none
    then show ?thesis using assms(1) by (simp add: error_explained_def)
  next
    case path
    then show ?thesis by (rule normalize_errors)
  qed
qed

lemma endpoint_values_errors:
  assumes "rpc_endpoint_env lib = None" "parse_rpc_endpoint_values lib ''rpc.endpoints'' values = Inl e" "path \<noteq> None"
  shows "error_explained lib path e"
proof -
  consider (url) item t where "item \<in> set (non_empty_items values)" "e = InvalidConfig ''rpc.endpoints'' item (UrlError t)"
    | (none) "e = EmptyUrlList ''rpc.endpoints''"
    | (path) url where "normalize_rpc_endpoint lib ''rpc.endpoints'' url = Inl e"
    using assms(2) unfolding parse_rpc_endpoint_values_def and_then_eq_Inl
    by (auto simp: and_then_eq_Inl map_err_eq_Inl map_err_eq_Inr dest!: collect_results_error split: if_splits)
  then show ?thesis
  proof cases
    case url
    then show ?thesis using assms non_empty_items_set [OF url(1)] by (auto simp: error_explained_def)
  next
    case none
    then show ?thesis using assms(1) by (simp add: error_explained_def)
  next
    case path
    then show ?thesis by (rule normalize_errors)
  qed
qed

lemma rpc_errors:
  assumes "rpc_config_load lib file = Inl e" "file = None \<or> path \<noteq> None"
  shows "error_explained lib path e"
proof -
  consider "rpc_endpoints_load lib file = Inl e" | (setting) name v d where "env_or_file_or_default lib (parse_unsigned 64) name v d = Inl e"
    using assms(1) by (auto simp: rpc_config_load_def and_then_eq_Inl)
  then show ?thesis
  proof cases
    case 1
    show ?thesis
    proof (cases "rpc_endpoint_env lib")
      case None
      show ?thesis
      proof (cases "Option.bind file pf_endpoints")
        case (Some vs)
        then have "path \<noteq> None" using assms(2) by auto
        moreover have "parse_rpc_endpoint_values lib ''rpc.endpoints'' vs = Inl e"
          using 1 None Some by (simp add: rpc_endpoints_load_def)
        ultimately show ?thesis using None by (intro endpoint_values_errors)
      next
        case (None)
        show ?thesis using 1 None \<open>rpc_endpoint_env lib = None\<close> by (auto simp: rpc_endpoints_load_def error_explained_def)
      qed
    next
      case (Some p)
      then show ?thesis
        using 1 by (cases p) (auto simp: rpc_endpoints_load_def intro: endpoint_list_errors)
    qed
  next
    case setting
    then show ?thesis by (rule setting_errors)
  qed
qed

section \<open>Properties\<close>

text \<open>A worker that starts is usable: whatever the environment and the file hold, a configuration that loads names
  a database and at least one node, every node by one of the two JSON-RPC routes and in the given order, its
  client can be built, and its chain and nexus names are trimmed and not blank.\<close>
theorem loaded_configuration_usable:
  assumes "set_path_law lib" "app_config_from_file_or_env lib service path = Inr c"
  shows "(\<exists>urls client. rpc_endpoints (app_rpc c) = map (url_as_str lib) urls \<and> urls \<noteq> [] \<and> list_all (rpc_route lib) urls \<and>
      client_new (app_rpc c) = Inr client \<and> endpoint_urls client = map (url_as_str lib) urls) \<and>
    db_url (app_database c) \<noteq> [] \<and>
    well_formed_name (nexus_name_as_str (chain_nexus (app_chain c))) \<and>
    well_formed_name (chain_name_as_str (chain_chain (app_chain c))) \<and>
    0 < effective_fetch_concurrency (app_worker c)"
proof -
  have "\<exists>cf. load_optional lib path = Inr cf \<and> database_config_load lib (file_database cf) = Inr (app_database c) \<and>
      chain_config_load lib (file_chain cf) = Inr (app_chain c) \<and> rpc_config_load lib (file_rpc cf) = Inr (app_rpc c)"
    using assms(2) by (auto simp: app_config_from_file_or_env_def and_then_eq_Inr)
  then obtain cf where "load_optional lib path = Inr cf" and d: "database_config_load lib (file_database cf) = Inr (app_database c)"
      and ch: "chain_config_load lib (file_chain cf) = Inr (app_chain c)"
      and r: "rpc_config_load lib (file_rpc cf) = Inr (app_rpc c)" by (elim exE conjE)
  obtain urls where u: "rpc_endpoints_load lib (file_rpc cf) = Inr urls" "rpc_endpoints (app_rpc c) = map (url_as_str lib) urls"
    using rpc_config_endpoints [OF r] by (elim exE conjE)
  have ok: "urls \<noteq> []" "list_all (rpc_route lib) urls" using rpc_endpoints_load_routes [OF assms(1) u(1)] by simp_all
  then obtain client where "client_new (app_rpc c) = Inr client" "endpoint_urls client = map (url_as_str lib) urls"
    using u(2) by (simp add: client_new_def endpoint_urls_def comp_def)
  with u(2) ok have "\<exists>urls client. rpc_endpoints (app_rpc c) = map (url_as_str lib) urls \<and> urls \<noteq> [] \<and>
      list_all (rpc_route lib) urls \<and> client_new (app_rpc c) = Inr client \<and> endpoint_urls client = map (url_as_str lib) urls"
    by blast
  moreover have "0 < effective_fetch_concurrency (app_worker c)" by (simp add: less_max_iff_disj split: sync_mode.split)
  ultimately show ?thesis using database_config_url [OF d] chain_config_valid [OF ch] by (intro conjI)
qed

text \<open>C26.  The worker section of a file and the environment are interchangeable: a file has the effect of an environment
  in which its values stand where a variable is unset or blank, so a variable always wins over the file.\<close>
theorem file_equals_environment:
  assumes "worker_file_ok file"
  shows "worker_config_load lib (Some file) = Inr c \<longleftrightarrow>
    worker_config_load (with_variables (worker_file_env file) lib) None = Inr c"
proof -
  let ?lib = "with_variables (worker_file_env file) lib"
  have mode: "worker_sync_mode_from_env_or_file ?lib None = Inr m \<longleftrightarrow>
      worker_sync_mode_from_env_or_file lib (wf_sync_mode file) = Inr m" for m
    by (auto simp: worker_sync_mode_from_env_or_file_def non_empty_env_with worker_file_env_def map_err_eq_Inr or_else_def
        non_empty_text_def [of None] split: option.splits)
  have fit: "fits 64 (wf_poll_seconds file)" "fits 64 (wf_queue_capacity file)" "fits 64 (wf_fetch_batch_size file)"
    "fits 64 (wf_fetch_concurrency file)" "fits 64 (wf_project_concurrency file)" "fits 64 (wf_inter_block_delay_ms file)"
    "fits 64 (wf_batch_delay_ms file)" "fits 64 (wf_height_limit file)"
    using assms by (simp_all add: worker_file_ok_def)
  let ?number = "\<lambda>lib. env_or_file_or_default lib (parse_unsigned 64)"
  have numbers:
    "?number ?lib ''EXPLORER_WORKER_POLL_SECONDS'' None d = ?number lib ''EXPLORER_WORKER_POLL_SECONDS'' (wf_poll_seconds file) d"
    "?number ?lib ''EXPLORER_WORKER_QUEUE_CAPACITY'' None d = ?number lib ''EXPLORER_WORKER_QUEUE_CAPACITY'' (wf_queue_capacity file) d"
    "?number ?lib ''EXPLORER_WORKER_FETCH_BATCH_SIZE'' None d = ?number lib ''EXPLORER_WORKER_FETCH_BATCH_SIZE'' (wf_fetch_batch_size file) d"
    "?number ?lib ''EXPLORER_WORKER_FETCH_CONCURRENCY'' None d = ?number lib ''EXPLORER_WORKER_FETCH_CONCURRENCY'' (wf_fetch_concurrency file) d"
    "?number ?lib ''EXPLORER_WORKER_PROJECT_CONCURRENCY'' None d = ?number lib ''EXPLORER_WORKER_PROJECT_CONCURRENCY'' (wf_project_concurrency file) d"
    "?number ?lib ''EXPLORER_WORKER_INTER_BLOCK_DELAY_MS'' None d = ?number lib ''EXPLORER_WORKER_INTER_BLOCK_DELAY_MS'' (wf_inter_block_delay_ms file) d"
    "?number ?lib ''EXPLORER_WORKER_BATCH_DELAY_MS'' None d = ?number lib ''EXPLORER_WORKER_BATCH_DELAY_MS'' (wf_batch_delay_ms file) d"
    "optional_env_or_file ?lib (parse_unsigned 64) ''EXPLORER_WORKER_HEIGHT_LIMIT'' None =
      optional_env_or_file lib (parse_unsigned 64) ''EXPLORER_WORKER_HEIGHT_LIMIT'' (wf_height_limit file)" for d
    by (rule number_with_variables, simp add: worker_file_env_def, rule fit)+
  show ?thesis by (simp add: worker_config_load_def Let_def and_then_eq_Inr mode numbers)
qed

text \<open>A configuration is refused for a reason the operator can act on: the error names a file that cannot be
  read or parsed, a variable that is set to the reported value, a required setting that is given nowhere, or an
  endpoint whose path is not a JSON-RPC route; a file is blamed only for settings no variable overrides.\<close>
theorem configuration_errors_explained:
  assumes "app_config_from_file_or_env lib service path = Inl e"
  shows "error_explained lib path e"
proof -
  consider (unread) "load_optional lib path = Inl e"
    | (parts) cf where "load_optional lib path = Inr cf"
      "database_config_load lib (file_database cf) = Inl e \<or> chain_config_load lib (file_chain cf) = Inl e \<or>
       rpc_config_load lib (file_rpc cf) = Inl e \<or> worker_config_load lib (file_worker cf) = Inl e \<or>
       logging_config_load lib (file_logging cf) = Inl e"
    using assms unfolding app_config_from_file_or_env_def and_then_eq_Inl by blast
  then show ?thesis
  proof cases
    case unread
    then show ?thesis by (auto simp: load_optional_def error_explained_def and_then_eq_Inl map_err_eq_Inl map_err_eq_Inr split: option.splits)
  next
    case parts
    have "path = None \<Longrightarrow> cf = default_config_file" using parts(1) by (simp add: load_optional_def)
    then have "file_rpc cf = None \<or> path \<noteq> None" "file_worker cf = None \<or> path \<noteq> None"
      by (auto simp: default_config_file_def)
    moreover have "chain_config_load lib (file_chain cf) \<noteq> Inl e" using chain_config_total [of lib "file_chain cf"] by auto
    ultimately show ?thesis
      using parts(2) by (auto intro: database_errors rpc_errors worker_errors logging_errors)
  qed
qed

section \<open>Witnesses\<close>

text \<open>Addresses as host and path, an environment that names the database and two nodes, and no file.\<close>

definition demo_lib :: "(string \<times> string) config_lib" where
  "demo_lib = \<lparr>env_var = map_of [(''EXPLORER_DATABASE_URL'', '' postgres://db''), (''EXPLORER_RPC_ENDPOINTS'', ''http://a, ,http://b/rpc/v2'')],
     read_to_string = (\<lambda>p. Inl ''No such file''), toml_from_str = (\<lambda>t. Inr default_config_file),
     to_socket_addrs = (\<lambda>t. Inr []), url_parse = (\<lambda>t. Inr (take 8 t, drop 8 t)),
     url_path = (\<lambda>(h, p). if p = [] then ''/'' else p), url_set_path = (\<lambda>p (h, q). (h, ''/'' @ p)),
     url_as_str = (\<lambda>(h, p). h @ p)\<rparr>"

definition demo_app :: app_config where
  "demo_app = \<lparr>app_service_name = ''worker'',
     app_database = \<lparr>db_url = ''postgres://db'', db_max_connections = 16, db_acquire_timeout = 10000, db_statement_timeout = None\<rparr>,
     app_chain = \<lparr>chain_nexus = NexusName (NonEmptyString ''mainnet''), chain_chain = ChainName (NonEmptyString ''main'')\<rparr>,
     app_rpc = \<lparr>rpc_endpoints = [''http://a/rpc'', ''http://b/rpc/v2''], rpc_timeout = 30000,
       rpc_max_response_bytes = 268435456, rpc_api_key = None\<rparr>,
     app_worker = \<lparr>poll_interval = 5000, queue_capacity = 500, fetch_batch_size = 1000, fetch_concurrency = 6,
       project_concurrency = 1, sync_mode = Normal_Mode, inter_block_delay = 0, batch_delay = 0, height_limit = None\<rparr>,
     app_logging = \<lparr>log_file = None, log_console = True\<rparr>\<rparr>"

lemma demo_app_loads: "app_config_from_file_or_env demo_lib ''worker'' None = Inr demo_app"
  by code_simp

theorem loaded_configuration_usable_witness:
  "app_config_from_file_or_env demo_lib ''worker'' None = Inr demo_app \<and>
   (\<exists>urls client. map (url_as_str demo_lib) urls = [''http://a/rpc'', ''http://b/rpc/v2''] \<and> client_new (app_rpc demo_app) = Inr client \<and>
      endpoint_urls client = map (url_as_str demo_lib) urls)"
proof -
  have "set_path_law demo_lib" by (simp add: set_path_law_def demo_lib_def split: prod.split)
  from loaded_configuration_usable [OF this demo_app_loads]
  obtain urls client where "rpc_endpoints (app_rpc demo_app) = map (url_as_str demo_lib) urls"
      "client_new (app_rpc demo_app) = Inr client" "endpoint_urls client = map (url_as_str demo_lib) urls"
    by (elim exE conjE)
  then show ?thesis using demo_app_loads by (auto simp: demo_app_def)
qed

definition demo_worker_file :: worker_file_config where
  "demo_worker_file = \<lparr>wf_poll_seconds = Some 7, wf_queue_capacity = None, wf_fetch_batch_size = Some 250,
     wf_fetch_concurrency = None, wf_project_concurrency = None, wf_sync_mode = Some '' Slow '', wf_inter_block_delay_ms = None,
     wf_batch_delay_ms = None, wf_height_limit = Some 1000000\<rparr>"

definition demo_worker :: worker_config where
  "demo_worker = \<lparr>poll_interval = 7000, queue_capacity = 500, fetch_batch_size = 250, fetch_concurrency = 6,
     project_concurrency = 1, sync_mode = Relief, inter_block_delay = 0, batch_delay = 0, height_limit = Some 1000000\<rparr>"

theorem file_equals_environment_witness:
  "worker_config_load (with_variables (worker_file_env demo_worker_file) demo_lib) None = Inr demo_worker"
proof -
  have "worker_file_ok demo_worker_file" by code_simp
  moreover have "worker_config_load demo_lib (Some demo_worker_file) = Inr demo_worker" by code_simp
  ultimately show ?thesis using file_equals_environment [of demo_worker_file demo_lib demo_worker] by simp
qed

theorem configuration_errors_explained_witness:
  "error_explained demo_lib (Some ''explorer.toml'') (ConfigFileRead ''explorer.toml'' ''No such file'')"
proof -
  have "app_config_from_file_or_env demo_lib ''worker'' (Some ''explorer.toml'') = Inl (ConfigFileRead ''explorer.toml'' ''No such file'')"
    by (simp add: app_config_from_file_or_env_def load_optional_def demo_lib_def)
  then show ?thesis by (rule configuration_errors_explained)
qed

end
