(* ===== verification/Rejected_Capture.thy ===== *)
theory Rejected_Capture
  imports Block_Fetch Transaction_Paging "HOL-Library.Code_Target_Nat"
begin

text \<open>
  Rejected transactions (\<open>src/crates/db/src/rejected.rs\<close>, the handler \<open>rejected_transactions\<close> and the capture
  behind it): stored candidates are served, and an unknown hash is looked up on the node and stored unless it
  turns out to be canonical.  Unicode case mappings and the text of a JSON value come from \<open>api_state\<close>; what
  other requests and the worker do to the database while the node is asked is an argument.
\<close>

section \<open>The candidates table\<close>

record rejected_candidate_upsert =
  rj_hash :: string
  rj_nexus :: string
  rj_chain :: string
  rj_block_height :: "int option"
  rj_block_hash :: "string option"
  rj_timestamp :: "int option"
  rj_state :: "string option"
  rj_result :: "string option"
  rj_debug_comment :: "string option"
  rj_payload :: "string option"
  rj_script_raw :: "string option"
  rj_fee_raw :: "string option"
  rj_expiration :: "int option"
  rj_gas_price_raw :: "string option"
  rj_gas_limit_raw :: "string option"
  rj_sender :: "string option"
  rj_gas_payer :: "string option"
  rj_gas_target :: "string option"
  rj_canonical_status :: "string option"
  rj_rpc_response_json :: "string option"
  rj_block_response_json :: "string option"

record rejected_candidate_record = rejected_candidate_upsert +
  rj_captured_at :: int
  rj_updated_at :: int
  rj_last_seen_at :: int

definition rj_key :: "('a) rejected_candidate_upsert_scheme \<Rightarrow> string \<times> string \<times> string" where
  "rj_key r = (rj_nexus r, rj_chain r, rj_hash r)"

definition canonical_transaction_exists :: "'f api_db \<Rightarrow> string \<Rightarrow> string \<Rightarrow> bool" where
  "canonical_transaction_exists db hash chain \<longleftrightarrow>
     (\<exists>tx\<in>set (db_transactions db). \<exists>block\<in>set (db_blocks db). \<exists>c\<in>set (db_chains db).
        bl_id block = tx_block_id tx \<and> chain_key c = bl_chain_id block \<and> tx_table_row.tx_hash tx = hash \<and> chain_text c = chain)"

definition list_rejected_candidates ::
    "rejected_candidate_record list \<Rightarrow> string \<Rightarrow> string \<Rightarrow> string \<Rightarrow> rejected_candidate_record list" where
  "list_rejected_candidates rows hash nexus chain =
     sort_key (\<lambda>r. - rj_last_seen_at r) (filter (\<lambda>r. rj_hash r = hash \<and> rj_nexus r = nexus \<and> rj_chain r = chain) rows)"

definition candidate_at :: "rejected_candidate_upsert \<Rightarrow> int \<Rightarrow> int \<Rightarrow> rejected_candidate_record" where
  "candidate_at candidate captured now =
     rejected_candidate_upsert.extend candidate
       (rejected_candidate_record.fields captured now now)"

definition upsert_rejected_candidate ::
    "rejected_candidate_record list \<Rightarrow> rejected_candidate_upsert \<Rightarrow> int \<Rightarrow>
     rejected_candidate_record \<times> rejected_candidate_record list" where
  "upsert_rejected_candidate rows candidate now =
     (case find (\<lambda>r. rj_key r = rj_key candidate) rows of
        None \<Rightarrow> let row = candidate_at candidate now now in (row, rows @ [row])
      | Some old \<Rightarrow>
          let row = candidate_at candidate (rj_captured_at old) now
          in (row, map (\<lambda>r. if rj_key r = rj_key candidate then row else r) rows))"

section \<open>Validation\<close>

definition is_ascii_hexdigit :: "char \<Rightarrow> bool" where
  "is_ascii_hexdigit c \<longleftrightarrow> is_ascii_digit c \<or> 65 \<le> code c \<and> code c \<le> 70 \<or> 97 \<le> code c \<and> code c \<le> 102"

definition is_valid_rejected_hash :: "string \<Rightarrow> bool" where
  "is_valid_rejected_hash hash \<longleftrightarrow> length hash = 64 \<and> list_all is_ascii_hexdigit hash"

definition is_ascii_lowercase :: "char \<Rightarrow> bool" where
  "is_ascii_lowercase c \<longleftrightarrow> 97 \<le> code c \<and> code c \<le> 122"

definition is_valid_rejected_chain :: "string \<Rightarrow> bool" where
  "is_valid_rejected_chain chain =
     (case chain of
        [] \<Rightarrow> False
      | first # chars \<Rightarrow> (is_ascii_lowercase first \<or> is_ascii_digit first) \<and> length chain \<le> 64 \<and>
          list_all (\<lambda>c. is_ascii_lowercase c \<or> is_ascii_digit c \<or> c = CHR ''-'') chars)"

definition non_empty_owned :: "string \<Rightarrow> string option" where
  "non_empty_owned value = (let trimmed = trim value in if trimmed \<noteq> [] then Some trimmed else None)"

definition rejected_status_for_block_txs :: "string list \<Rightarrow> string \<Rightarrow> string option" where
  "rejected_status_for_block_txs block_tx_hashes hash =
     (if list_ex (\<lambda>h. eq_ignore_ascii_case h hash) block_tx_hashes then None else Some ''not_in_block_txs'')"

section \<open>Answers\<close>

record rejected_transaction_response =
  jr_hash :: string
  jr_nexus :: string
  jr_chain :: string
  jr_block_height :: "string option"
  jr_block_hash :: "string option"
  jr_date :: "string option"
  jr_state :: "string option"
  jr_result :: "string option"
  jr_debug_comment :: "string option"
  jr_payload :: "string option"
  jr_script_raw :: "string option"
  jr_fee_raw :: "string option"
  jr_expiration :: "string option"
  jr_gas_price_raw :: "string option"
  jr_gas_limit_raw :: "string option"
  jr_sender :: "string option"
  jr_gas_payer :: "string option"
  jr_gas_target :: "string option"
  jr_canonical_status :: "string option"
  jr_captured_at :: string
  jr_updated_at :: string
  jr_rpc_response_json :: "string option"
  jr_block_response_json :: "string option"

definition rejected_candidate_response :: "rejected_candidate_record \<Rightarrow> rejected_transaction_response" where
  "rejected_candidate_response r =
     \<lparr>jr_hash = rj_hash r, jr_nexus = rj_nexus r, jr_chain = rj_chain r,
      jr_block_height = map_option show_int (rj_block_height r),
      jr_block_hash = filter_option (\<lambda>hash. hash \<noteq> []) (rj_block_hash r), jr_date = map_option show_int (rj_timestamp r),
      jr_state = rj_state r, jr_result = rj_result r, jr_debug_comment = rj_debug_comment r, jr_payload = rj_payload r,
      jr_script_raw = rj_script_raw r, jr_fee_raw = rj_fee_raw r, jr_expiration = map_option show_int (rj_expiration r),
      jr_gas_price_raw = rj_gas_price_raw r, jr_gas_limit_raw = rj_gas_limit_raw r, jr_sender = rj_sender r,
      jr_gas_payer = rj_gas_payer r, jr_gas_target = rj_gas_target r, jr_canonical_status = rj_canonical_status r,
      jr_captured_at = show_int (rj_captured_at r), jr_updated_at = show_int (rj_updated_at r),
      jr_rpc_response_json = rj_rpc_response_json r, jr_block_response_json = rj_block_response_json r\<rparr>"

section \<open>Capture\<close>

text \<open>A cast \<open>as i64\<close>, and a number the node leaves at zero when it has none.\<close>

definition as_i64 :: "int \<Rightarrow> int" where
  "as_i64 v = (v + 2 ^ 63) mod 2 ^ 64 - 2 ^ 63"

definition positive_i64 :: "int \<Rightarrow> int option" where
  "positive_i64 v = (if 0 < v then Some (as_i64 v) else None)"

definition candidate_of ::
    "(json \<Rightarrow> string) \<Rightarrow> string \<Rightarrow> string \<Rightarrow> string \<Rightarrow> sdk_transaction sdk_payload \<Rightarrow> string option \<Rightarrow> string \<Rightarrow> string option \<Rightarrow>
     rejected_candidate_upsert" where
  "candidate_of text_of hash nexus chain tx_answer block_hash canonical_status block_response_json =
     (let tx = payload_value tx_answer
      in \<lparr>rj_hash = hash, rj_nexus = nexus, rj_chain = chain, rj_block_height = positive_i64 (int (tx_block_height tx)),
          rj_block_hash = block_hash, rj_timestamp = positive_i64 (sdk_transaction.tx_timestamp tx),
          rj_state = non_empty_owned (tx_state tx), rj_result = non_empty_owned (sdk_transaction.tx_result tx),
          rj_debug_comment = Option.bind (sdk_transaction.tx_debug_comment tx) non_empty_owned,
          rj_payload = non_empty_owned (sdk_transaction.tx_payload tx), rj_script_raw = non_empty_owned (sdk_transaction.tx_script tx),
          rj_fee_raw = non_empty_owned (tx_fee tx), rj_expiration = positive_i64 (sdk_transaction.tx_expiration tx),
          rj_gas_price_raw = non_empty_owned (tx_gas_price tx), rj_gas_limit_raw = non_empty_owned (tx_gas_limit tx),
          rj_sender = non_empty_owned (tx_sender tx), rj_gas_payer = non_empty_owned (tx_gas_payer tx),
          rj_gas_target = non_empty_owned (tx_gas_target tx), rj_canonical_status = Some canonical_status,
          rj_rpc_response_json = Some (text_of (payload_raw_value tx_answer)),
          rj_block_response_json = block_response_json\<rparr>)"

text \<open>The verdict on the block of the transaction: its hash, the status and the stored answer; none when the
  block contains the transaction.\<close>

definition block_verdict ::
    "(json \<Rightarrow> string) \<Rightarrow> string \<Rightarrow> string option \<Rightarrow> rpc_error + sdk_block sdk_payload \<Rightarrow>
     (string option \<times> string \<times> string option) option" where
  "block_verdict text_of hash block_hash answer =
     (case answer of
        Inl error \<Rightarrow> Some (block_hash, ''block_unavailable'', None)
      | Inr block_payload \<Rightarrow>
          (let block = payload_value block_payload;
               block_hash = or_else (non_empty_owned (blk_hash block)) block_hash
           in map_option (\<lambda>status. (block_hash, status, Some (text_of (payload_raw_value block_payload))))
                (rejected_status_for_block_txs (map sdk_transaction.tx_hash (blk_txs block)) hash)))"

definition show_domain_error :: "domain_error \<Rightarrow> string" where
  "show_domain_error e = (case e of EmptyValue field \<Rightarrow> field @ '' cannot be empty'')"

type_synonym candidates = "rejected_candidate_record list"

definition capture_rejected_candidate ::
    "(json \<Rightarrow> string) \<Rightarrow> 'w sdk_node \<Rightarrow> sdk_client \<Rightarrow> (candidates \<Rightarrow> candidates) \<Rightarrow> int \<Rightarrow> string \<Rightarrow> string \<Rightarrow> string \<Rightarrow>
     candidates \<Rightarrow> 'w rpc_world \<Rightarrow> (api_error + rejected_candidate_record option) \<times> candidates \<times> 'w rpc_world" where
  "capture_rejected_candidate text_of node client meanwhile now hash nexus chain rows world =
     (let store = (\<lambda>tx_answer (block_hash, status, response) world.
            let (row, rows) = upsert_rejected_candidate (meanwhile rows)
                  (candidate_of text_of hash nexus chain tx_answer block_hash status response) now
            in (Inr (Some row), rows, world))
      in case get_transaction_payload node client hash world of
           (Inl error, world) \<Rightarrow> (Inr None, meanwhile rows, world)
         | (Inr tx_answer, world) \<Rightarrow>
             (let tx = payload_value tx_answer;
                  block_hash = non_empty_owned (tx_block_hash tx)
              in if \<not> eq_ignore_ascii_case (sdk_transaction.tx_hash tx) hash then (Inr None, meanwhile rows, world)
                 else if tx_block_height tx = 0 then store tx_answer (block_hash, ''block_unavailable'', None) world
                 else case chain_name_new chain of
                        Inl e \<Rightarrow> (Inl (BadRequest (show_domain_error e)), meanwhile rows, world)
                      | Inr chain_name \<Rightarrow>
                          (case get_block_by_height_payload node client (chain_name_as_str chain_name) (tx_block_height tx) world of
                             (answer, world) \<Rightarrow>
                               (case block_verdict text_of hash block_hash answer of
                                  None \<Rightarrow> (Inr None, meanwhile rows, world)
                                | Some verdict \<Rightarrow> store tx_answer verdict world))))"

section \<open>The endpoint\<close>

record rejected_query =
  jq_hash :: "string option"
  jq_chain :: "string option"
  jq_capture :: "int option"

record ('f, 'n, 's, 'w) rejected_state =
  js_api :: "('f, 'n, 's) api_state"
  js_nexus :: string
  js_capture :: "sdk_client option"
  js_node :: "'w sdk_node"

definition api_nexus :: "(string \<Rightarrow> string) \<Rightarrow> nexus_name \<Rightarrow> string" where
  "api_nexus to_lowercase nexus = to_lowercase (nexus_name_as_str nexus)"

definition rejected_hash :: "(string \<Rightarrow> string) \<Rightarrow> string option \<Rightarrow> api_error + string" where
  "rejected_hash upper hash =
     ok_or (BadRequest ''Unsupported value for 'hash' parameter.'')
       (filter_option is_valid_rejected_hash (map_option (\<lambda>value. upper (trim value)) (empty_to_none hash)))"

definition rejected_chain :: "(string \<Rightarrow> string) \<Rightarrow> string \<Rightarrow> string option \<Rightarrow> api_error + string" where
  "rejected_chain lower default_chain chain =
     (case empty_to_none chain of
        None \<Rightarrow> Inr (lower default_chain)
      | Some value \<Rightarrow>
          let normalized = lower (trim value)
          in if is_valid_rejected_chain normalized then Inr normalized
             else Inl (BadRequest ''Unsupported value for 'chain' parameter.''))"

definition rejected_transactions ::
    "('f, 'n, 's, 'w) rejected_state \<Rightarrow> 'f api_db \<Rightarrow> (candidates \<Rightarrow> candidates) \<Rightarrow> int \<Rightarrow> rejected_query \<Rightarrow> candidates \<Rightarrow> 'w rpc_world \<Rightarrow>
     (api_error + rejected_transaction_response list) \<times> candidates \<times> 'w rpc_world" where
  "rejected_transactions state db meanwhile now query rows world =
     (case rejected_hash (to_uppercase (st_lib (js_api state))) (jq_hash query) of
        Inl e \<Rightarrow> (Inl e, rows, world)
      | Inr hash \<Rightarrow>
     (case rejected_chain (st_lower (js_api state)) (st_chain (js_api state)) (jq_chain query) of
        Inl e \<Rightarrow> (Inl e, rows, world)
      | Inr chain \<Rightarrow>
     if canonical_transaction_exists db hash chain then (Inr [], rows, world)
     else
       let existing = list_rejected_candidates rows hash (js_nexus state) chain
       in if existing \<noteq> [] then (Inr (map rejected_candidate_response existing), rows, world)
          else if unwrap_or (jq_capture query) 1 \<noteq> 1 then (Inr [], rows, world)
          else case js_capture state of
                 None \<Rightarrow> (Inr [], rows, world)
               | Some rpc \<Rightarrow>
                   (case capture_rejected_candidate (json_text (st_lib (js_api state))) (js_node state) rpc meanwhile now
                          hash (js_nexus state) chain rows world of
                      (Inl e, rows, world) \<Rightarrow> (Inl e, rows, world)
                    | (Inr None, rows, world) \<Rightarrow> (Inr [], rows, world)
                    | (Inr (Some record), rows, world) \<Rightarrow> (Inr [rejected_candidate_response record], rows, world))))"

section \<open>The table under an upsert\<close>

lemma candidate_at_simps [simp]:
  "rj_key (candidate_at c a n) = rj_key c" "rj_captured_at (candidate_at c a n) = a"
  "rj_updated_at (candidate_at c a n) = n" "rj_last_seen_at (candidate_at c a n) = n"
  "rj_canonical_status (candidate_at c a n) = rj_canonical_status c"
  by (simp_all add: candidate_at_def rj_key_def rejected_candidate_upsert.defs rejected_candidate_record.defs)

text \<open>The time a key was first captured, if it was.\<close>

definition first_captured :: "candidates \<Rightarrow> string \<times> string \<times> string \<Rightarrow> int option" where
  "first_captured rows k = map_option rj_captured_at (find (\<lambda>r. rj_key r = k) rows)"

text \<open>A row was stored: it is in the table with the time of this request, under the time its key was first
  captured, and every row of another key is what it was.\<close>

definition row_stored :: "candidates \<Rightarrow> int \<Rightarrow> rejected_candidate_record \<Rightarrow> candidates \<Rightarrow> bool" where
  "row_stored rows now row rows' \<longleftrightarrow>
     row \<in> set rows' \<and> rj_updated_at row = now \<and> rj_last_seen_at row = now \<and>
     rj_captured_at row = unwrap_or (first_captured rows (rj_key row)) now \<and>
     (\<forall>k. k \<noteq> rj_key row \<longrightarrow> filter (\<lambda>r. rj_key r = k) rows' = filter (\<lambda>r. rj_key r = k) rows) \<and>
     (distinct (map rj_key rows) \<longrightarrow> distinct (map rj_key rows'))"

lemma filter_replaced:
  "rj_key row = k \<Longrightarrow> k' \<noteq> k \<Longrightarrow>
     filter (\<lambda>r. rj_key r = k') (map (\<lambda>r. if rj_key r = k then row else r) rows) = filter (\<lambda>r. rj_key r = k') rows"
  by (induction rows) auto

lemma keys_replaced: "rj_key row = k \<Longrightarrow> map rj_key (map (\<lambda>r. if rj_key r = k then row else r) rows) = map rj_key rows"
  by (induction rows) auto

lemma upsert_stores:
  assumes "upsert_rejected_candidate rows candidate now = (row, rows')"
  shows "row_stored rows now row rows'" "rj_key row = rj_key candidate" "rj_canonical_status row = rj_canonical_status candidate"
proof -
  show key: "rj_key row = rj_key candidate" and "rj_canonical_status row = rj_canonical_status candidate"
    using assms by (auto simp: upsert_rejected_candidate_def Let_def split: option.splits)
  show "row_stored rows now row rows'"
  proof (cases "find (\<lambda>r. rj_key r = rj_key candidate) rows")
    case None
    then have "row = candidate_at candidate now now" "rows' = rows @ [row]"
      using assms by (auto simp: upsert_rejected_candidate_def Let_def)
    moreover have "rj_key candidate \<notin> rj_key ` set rows" using None by (auto simp: find_None_iff)
    ultimately show ?thesis using None by (auto simp: row_stored_def first_captured_def)
  next
    case (Some old)
    then have row: "row = candidate_at candidate (rj_captured_at old) now"
        and rows': "rows' = map (\<lambda>r. if rj_key r = rj_key candidate then row else r) rows"
      using assms by (auto simp: upsert_rejected_candidate_def Let_def)
    have "old \<in> set rows" "rj_key old = rj_key candidate" using Some by (auto simp: find_Some_iff)
    then have "row \<in> set rows'" unfolding rows' by force
    then show ?thesis
      using Some key row unfolding rows' row_stored_def
      by (simp add: first_captured_def filter_replaced keys_replaced del: map_map)
  qed
qed

section \<open>What a stored candidate rests on\<close>

text \<open>The node knows a transaction of this hash, and either no block of it could be fetched or the block does not
  contain it.\<close>

definition node_rejects :: "'w sdk_node \<Rightarrow> sdk_client \<Rightarrow> 'w rpc_world \<Rightarrow> string \<Rightarrow> string \<Rightarrow> string option \<Rightarrow> bool" where
  "node_rejects node client world hash chain status \<longleftrightarrow>
     (\<exists>tx_answer w. get_transaction_payload node client hash world = (Inr tx_answer, w) \<and>
        eq_ignore_ascii_case (sdk_transaction.tx_hash (payload_value tx_answer)) hash \<and>
        (if status = Some ''not_in_block_txs''
         then \<exists>block w'. get_block_by_height_payload node client chain (tx_block_height (payload_value tx_answer)) w = (Inr block, w') \<and>
                list_all (\<lambda>t. \<not> eq_ignore_ascii_case (sdk_transaction.tx_hash t) hash) (blk_txs (payload_value block))
         else status = Some ''block_unavailable'' \<and>
           (tx_block_height (payload_value tx_answer) = 0 \<or>
            (\<exists>e w'. get_block_by_height_payload node client chain (tx_block_height (payload_value tx_answer)) w = (Inl e, w')))))"

lemma block_verdict_cases:
  assumes "block_verdict text_of hash block_hash answer = Some (h, status, response)"
  shows "(\<exists>e. answer = Inl e) \<and> status = ''block_unavailable'' \<or>
    (\<exists>block. answer = Inr block \<and> status = ''not_in_block_txs'' \<and>
       list_all (\<lambda>t. \<not> eq_ignore_ascii_case (sdk_transaction.tx_hash t) hash) (blk_txs (payload_value block)))"
  using assms
  by (cases answer) (auto simp: block_verdict_def rejected_status_for_block_txs_def Let_def list_ex_iff list_all_iff
      split: if_splits)

lemma capture_outcome:
  assumes "capture_rejected_candidate text_of node client meanwhile now hash nexus chain rows world = (r, rows', world')"
  shows "rows' = meanwhile rows \<and> (\<forall>row. r \<noteq> Inr (Some row)) \<or>
    (\<exists>row. r = Inr (Some row) \<and> row_stored (meanwhile rows) now row rows' \<and> rj_key row = (nexus, chain, hash) \<and>
       node_rejects node client world hash (trim chain) (rj_canonical_status row))"
proof -
  obtain ta w where ta: "get_transaction_payload node client hash world = (ta, w)" by force
  show ?thesis
  proof (cases ta)
    case (Inl e)
    then show ?thesis using assms ta by (auto simp: capture_rejected_candidate_def)
  next
    case (Inr tx_answer)
    let ?tx = "payload_value tx_answer"
    have stored: "\<exists>row. r = Inr (Some row) \<and> row_stored (meanwhile rows) now row rows' \<and> rj_key row = (nexus, chain, hash) \<and>
        rj_canonical_status row = Some status"
      if "(r, rows', world') = (case upsert_rejected_candidate (meanwhile rows)
            (candidate_of text_of hash nexus chain tx_answer h status response) now of (row, rows) \<Rightarrow> (Inr (Some row), rows, v))"
      for h status response v
    proof -
      obtain row rs where u: "upsert_rejected_candidate (meanwhile rows) (candidate_of text_of hash nexus chain tx_answer h status response) now = (row, rs)"
        by force
      then show ?thesis using that upsert_stores [OF u] by (simp add: candidate_of_def rj_key_def Let_def)
    qed
    consider (other) "\<not> eq_ignore_ascii_case (sdk_transaction.tx_hash ?tx) hash"
      | (no_block) "eq_ignore_ascii_case (sdk_transaction.tx_hash ?tx) hash" "tx_block_height ?tx = 0"
      | (unnamed) e where "eq_ignore_ascii_case (sdk_transaction.tx_hash ?tx) hash" "tx_block_height ?tx \<noteq> 0" "chain_name_new chain = Inl e"
      | (block) n where "eq_ignore_ascii_case (sdk_transaction.tx_hash ?tx) hash" "tx_block_height ?tx \<noteq> 0" "chain_name_new chain = Inr n"
      by (cases "chain_name_new chain") auto
    then show ?thesis
    proof cases
      case no_block
      then have "(r, rows', world') = (case upsert_rejected_candidate (meanwhile rows)
          (candidate_of text_of hash nexus chain tx_answer (non_empty_owned (tx_block_hash ?tx)) ''block_unavailable'' None) now of
          (row, rows) \<Rightarrow> (Inr (Some row), rows, w))"
        using assms ta Inr by (simp add: capture_rejected_candidate_def Let_def)
      from stored [OF this] show ?thesis using ta Inr no_block by (auto simp: node_rejects_def)
    next
      case block
      have n: "chain_name_as_str n = trim chain"
        using block(3) by (auto simp: chain_name_new_def map_ok_eq_Inr non_empty_new_Inr)
      obtain ba w' where ba: "get_block_by_height_payload node client (trim chain) (tx_block_height ?tx) w = (ba, w')" by force
      show ?thesis
      proof (cases "block_verdict text_of hash (non_empty_owned (tx_block_hash ?tx)) ba")
        case None
        then show ?thesis using assms ta Inr block ba n by (auto simp: capture_rejected_candidate_def Let_def)
      next
        case (Some verdict)
        then obtain h status response where v: "block_verdict text_of hash (non_empty_owned (tx_block_hash ?tx)) ba = Some (h, status, response)"
          by (metis prod_cases3)
        then have "(r, rows', world') = (case upsert_rejected_candidate (meanwhile rows)
            (candidate_of text_of hash nexus chain tx_answer h status response) now of (row, rows) \<Rightarrow> (Inr (Some row), rows, w'))"
          using assms ta Inr block ba n by (simp add: capture_rejected_candidate_def Let_def)
        from stored [OF this] block_verdict_cases [OF v] show ?thesis
          using ta Inr block ba by (auto simp: node_rejects_def)
      qed
    qed (use assms ta Inr in \<open>auto simp: capture_rejected_candidate_def Let_def\<close>)
  qed
qed

lemma request_cases:
  assumes "rejected_transactions state db meanwhile now query rows world = (r, rows', world')"
  obtains (bad) e where "r = Inl e" "rows' = rows"
    | (none) "r = Inr []" "rows' = rows"
    | (existing) hash chain where "\<not> canonical_transaction_exists db hash chain" "rows' = rows"
        "r = Inr (map rejected_candidate_response (list_rejected_candidates rows hash (js_nexus state) chain))"
    | (capture) hash chain rpc c where
        "rejected_hash (to_uppercase (st_lib (js_api state))) (jq_hash query) = Inr hash"
        "rejected_chain (st_lower (js_api state)) (st_chain (js_api state)) (jq_chain query) = Inr chain"
        "\<not> canonical_transaction_exists db hash chain" "js_capture state = Some rpc"
        "capture_rejected_candidate (json_text (st_lib (js_api state))) (js_node state) rpc meanwhile now hash (js_nexus state) chain
           rows world = (c, rows', world')"
        "r = (case c of Inl e \<Rightarrow> Inl e | Inr None \<Rightarrow> Inr [] | Inr (Some row) \<Rightarrow> Inr [rejected_candidate_response row])"
proof -
  note run = assms [unfolded rejected_transactions_def Let_def]
  show thesis
  proof (cases "rejected_hash (to_uppercase (st_lib (js_api state))) (jq_hash query)")
    case (Inl e)
    then show ?thesis using run bad by auto
  next
    case hash: (Inr hash)
    show ?thesis
    proof (cases "rejected_chain (st_lower (js_api state)) (st_chain (js_api state)) (jq_chain query)")
      case (Inl e)
      then show ?thesis using run hash bad by auto
    next
      case chain: (Inr chain)
      note run = run [unfolded hash chain sum.case]
      show ?thesis
      proof (cases "canonical_transaction_exists db hash chain \<or> unwrap_or (jq_capture query) 1 \<noteq> 1 \<or> js_capture state = None \<or>
          list_rejected_candidates rows hash (js_nexus state) chain \<noteq> []")
        case True
        then show ?thesis using run none existing [of hash chain] by (auto split: if_splits)
      next
        case False
        then obtain rpc where rpc: "js_capture state = Some rpc" by auto
        obtain c rs w where c: "capture_rejected_candidate (json_text (st_lib (js_api state))) (js_node state) rpc meanwhile now
            hash (js_nexus state) chain rows world = (c, rs, w)" by (metis prod_cases3)
        have end_run: "(case c of Inl e \<Rightarrow> (Inl e, rs, w) | Inr None \<Rightarrow> (Inr [], rs, w) | Inr (Some row) \<Rightarrow> (Inr [rejected_candidate_response row], rs, w))
            = (r, rows', world')"
          using run False rpc c by (cases c) (auto split: option.splits)
        then have "rs = rows'" "w = world'"
          "r = (case c of Inl e \<Rightarrow> Inl e | Inr None \<Rightarrow> Inr [] | Inr (Some row) \<Rightarrow> Inr [rejected_candidate_response row])"
          by (auto split: sum.splits option.splits)
        then show ?thesis using capture [OF hash chain _ rpc] c False by simp
      qed
    qed
  qed
qed

section \<open>Property\<close>


text \<open>A node that knows a transaction of block 3 and serves that block with another transaction only.\<close>

definition demo_rejected_hash :: string where
  "demo_rejected_hash = replicate 64 (CHR ''A'')"

definition demo_rejecting_node :: "unit sdk_node" where
  "demo_rejecting_node = (demo_node 0 [])\<lparr>
     n_transaction_with_raw := \<lambda>_ _ w. (Inr \<lparr>call_value = (Event_Projection.demo_tx [])\<lparr>sdk_transaction.tx_hash := demo_rejected_hash\<rparr>,
        raw_result = JNull, canonical_result_bytes = 4, call_endpoint = ''a''\<rparr>, 0, w)\<rparr>"

definition demo_rejected_state :: "(unit, unit, unit, unit) rejected_state" where
  "demo_rejected_state = \<lparr>js_api = demo_api, js_nexus = ''mainnet'', js_capture = Some demo_client, js_node = demo_rejecting_node\<rparr>"

definition demo_rejected_query :: rejected_query where
  "demo_rejected_query = \<lparr>jq_hash = Some demo_rejected_hash, jq_chain = None, jq_capture = None\<rparr>"

definition demo_rejected_run :: "(api_error + rejected_transaction_response list) \<times> candidates \<times> unit rpc_world" where
  "demo_rejected_run = rejected_transactions demo_rejected_state demo_db (\<lambda>rows. rows) 100 demo_rejected_query [] demo_rpc"

lemma demo_capture:
  "map_prod (map_ok (map jr_canonical_status)) (map rj_key \<circ> fst) demo_rejected_run =
     (Inr [Some ''not_in_block_txs''], [(''mainnet'', ''main'', demo_rejected_hash)])"
  by code_simp


end
