(* ===== verification/Spec2Isabelle.thy ===== *)
theory Spec2Isabelle
  imports Domain Config Api_Error Rate_Limit Stake_Snapshot Stake_Projection Load_Shed Sync_Pipeline
    Sync_Driver Worker_Loop Maintenance Sdk_Metadata Event_Projection Rpc_Client Block_Fetch Block_Rows
    Account_Fetch Balance_Sync Api_Paging Event_Response Transaction_Reads Transaction_Paging Block_Reads
    Event_Reads Script_Disassembler Config_Load Rejected_Capture
begin

text \<open>
  A verification development of the Phantasma explorer backend (\<open>src/\<close>): a worker that copies a chain
  from its nodes into PostgreSQL and keeps derived data current, and an HTTP API in front of the
  database.

  \<^bold>\<open>How the program is put together.\<close>  The worker's block loop (\<open>run_until_shutdown\<close>) runs one
  synchronisation pass per tick: it asks the node for the height of the chain, plans a window of heights,
  fetches and repairs the blocks of the window (concurrently, with a bounded queue, or one after the
  other), and projects each block in a database transaction that also moves the stored cursor.  Failures
  feed a load-shed mode that narrows the window and lengthens the waits.  Beside the loop run maintenance
  tasks (balances, stakes, prices, contract metadata) that stand aside while the loop is far behind.  Block
  projection maps the node's answers to rows, decodes the events of each transaction into payloads and
  marks addresses whose balance may have changed; the balance task turns those marks into fresh account
  rows; the stake projector replays the stake events into a daily curve.  The API answers list requests
  page by page behind a rate limiter, with one error type rendered in one place.

  \<^bold>\<open>Conventions.\<close>  A fallible Rust function returns a sum (\<open>Inl\<close> the error); a \<open>String\<close> is its UTF-8 byte
  sequence; sized integers are \<open>w word\<close> values, or \<open>nat\<close>/\<open>int\<close> with the bound or the wrap-around written
  out where the code converts, saturates or overflows; structs are records and enums datatypes, with the
  names of the source.  What the code obtains from elsewhere is an argument of the definitions: an exchange
  with an endpoint, the SDK's byte readers, the reading of a numeric text by PostgreSQL, the state another
  task leaves between two transactions.  A database table is the list of its rows (or a map by key) and a
  query is the definition the SQL text describes.  Log lines and metrics carry no state and are left out.

  \<^bold>\<open>The theories.\<close>

  \<^item> \<^bold>\<open>Prelude\<close>: results and options, Rust strings (trimming, splitting, decimal parsing and printing),
    saturating and wrapping arithmetic, and the lemmas the components share.
  \<^item> \<^bold>\<open>Domain\<close> (\<open>crates/domain\<close>): chain names that are never blank, heights and their order.
  \<^item> \<^bold>\<open>Config\<close> (\<open>crates/config\<close>): the configuration records the limiter and the client are built from.
  \<^item> \<^bold>\<open>Api_Error\<close> (\<open>crates/http-api/src/lib.rs\<close>): \<open>ApiError\<close>, its codes, statuses and responses.
  \<^item> \<^bold>\<open>Rate_Limit\<close> (\<open>rate_limit.rs\<close>): the sliding window, the key table with its sweep, client IP
    resolution, admission, the in-flight gate as an interleaved step relation, and the middleware.  Shown:
    the segmented window refines a log of admissions (locale \<open>window_counter\<close>), a key is never admitted
    above its limit within a window, the gate never exceeds its capacity under any interleaving, and a
    forwarded header cannot forge the client address.
  \<^item> \<^bold>\<open>Load_Shed\<close> (\<open>driver.rs\<close>): the relief state machine, failure and stall waits and \<open>plan_fetch_window\<close>.
    Shown: escalation and recovery, bounds of the waits, exact contents of a planned window.
  \<^item> \<^bold>\<open>Sync_Pipeline\<close> (\<open>driver.rs\<close>, \<open>crates/db/src/lib.rs\<close>): projection of one window, serially and as a
    fetch/process pipeline over a bounded queue, as a step relation.  Shown: every schedule terminates,
    never leaves a gap below the cursor, and ends as the serial path does.
  \<^item> \<^bold>\<open>Sync_Driver\<close> (\<open>sync_once\<close>, \<open>startup_probe\<close>): guards, passes in either mode (locale \<open>window_pass\<close>,
    interpreted for the sequential, the pipelined and the configured mode), reports, and progress to the tip.
  \<^item> \<^bold>\<open>Worker_Loop\<close>, \<^bold>\<open>Maintenance\<close>: the block loop over ticks, failures, shutdown and restarts, and
    the maintenance tasks (locale \<open>maintenance_task\<close>): which jobs may start when.
  \<^item> \<^bold>\<open>Rpc_Client\<close> (\<open>crates/rpc\<close>): endpoint rotation, failover rounds, retries and timeouts (locale
    \<open>logged_request\<close>): what was asked explains what was answered.
  \<^item> \<^bold>\<open>Block_Fetch\<close>: every call of the client, and the block fetch with its refetch attempts and
    per-transaction repair.  Shown: a block that is returned is complete, and the load on the node is bounded.
  \<^item> \<^bold>\<open>Block_Rows\<close>, \<^bold>\<open>Json\<close>, \<^bold>\<open>Sdk_Metadata\<close>, \<^bold>\<open>Event_Payload\<close>, \<^bold>\<open>Event_Projection\<close>
    (\<open>crates/ingestion/src/lib.rs\<close>): the mapping of the node's answers to rows, metadata objects (locale
    \<open>keyed_store\<close>) and event payloads.  Shown: which answers are refused and with which error, the order
    and number of rows, that the last of several equal metadata keys wins, and that a token creation is
    applied once.
  \<^item> \<^bold>\<open>Account_Fetch\<close>, \<^bold>\<open>Balance_Sync\<close>: the paginated account fetch, storing accounts and memberships,
    and the dirty flags.  Shown: a pagination is complete or refused, and no flag set while the pass runs is lost.
  \<^item> \<^bold>\<open>Stake_Snapshot\<close>, \<^bold>\<open>Stake_Projection\<close> (\<open>crates/db/src/staking.rs\<close>): the replay of stake events,
    the daily curve, and the persisted, resumable fold.  Shown: counters agree with the log, a reverse
    replay undoes a forward one, and resuming equals a full rebuild.

  \<^item> \<^bold>\<open>Config_Load\<close> (\<open>crates/config\<close>): how every setting is found, from its variable, the file or its
    default.  Shown: a file has the effect of an environment, a configuration that loads is usable, and each
    error names what the operator has to mend.
  \<^item> \<^bold>\<open>Api_Paging\<close> (\<open>sort.rs\<close>, \<open>support.rs\<close>, cursors of \<open>http-api/src/lib.rs\<close>): request parameters, keyset and
    offset cursors, seek conditions and page trimming.  The locales \<open>keyset_list\<close>, its extension
    \<open>keyset_list_total\<close> and \<open>offset_list\<close> state what a list endpoint promises page by page and prove what a
    client that follows the cursors obtains.
  \<^item> \<^bold>\<open>Event_Response\<close> (\<open>support.rs\<close>): from an event row to the answer.  Shown: formatted amounts are exact, and
    special resolutions in answers are bounded.
  \<^item> \<^bold>\<open>Transaction_Reads\<close>, \<^bold>\<open>Transaction_Paging\<close>, \<^bold>\<open>Block_Reads\<close>, \<^bold>\<open>Event_Reads\<close> (\<open>crates/db/src/reads\<close>,
    \<open>handlers.rs\<close>): the list and detail endpoints over the tables they read.  The lists interpret the locales
    above (\<open>tx_list\<close>, \<open>tx_walk\<close>, \<open>block_list\<close>, \<open>call_list\<close>, \<open>event_list\<close>).  Shown: following cursors returns
    every selected row once and in order, also while rows are added, and a hash with several transactions
    leads to each of them.
  \<^item> \<^bold>\<open>Script_Disassembler\<close> (\<open>support.rs\<close>, handlers \<open>instructions\<close> and \<open>verify_message\<close>): the listing of a script
    is exactly its instructions.
  \<^item> \<^bold>\<open>Rejected_Capture\<close> (\<open>rejected.rs\<close>, handler \<open>rejected_transactions\<close>): candidates are served or captured
    through the client of Rpc_Client.  Shown: a canonical transaction is never reported or stored.

  \<^bold>\<open>Termination and bounds.\<close>  No definition takes fuel: loops over pages, attempts or rounds are bounded
  by the counters the code has, the pipeline is a relation whose steps decrease a measure, and the others
  recurse on their input.

  \<^bold>\<open>Not modelled.\<close>  The bulk SQL of \<open>crates/db/src/events.rs\<close> and \<open>rpc_metadata.rs\<close> (batched upserts whose
  meaning is that of the SQL text; the rows they are given are modelled); the remaining list endpoints (tokens,
  NFTs, series, organisations, platforms, contracts, prices, chains), each one filtered query and a
  field-by-field mapper over the cursors of Api_Paging; the statistics and search endpoints, which aggregate in
  SQL; the price, TTRS and metadata jobs, which talk to third-party services; \<open>legacy_raw.rs\<close>, written against
  types of the SDK; the router, the binaries, the parity tool and the migrations.  The SDK, \<open>serde_json\<close> text,
  Unicode case mapping, floating-point arithmetic and PostgreSQL's pattern matching are parameters.
\<close>

end
